(* ===== verification/Zeebe_Prelude.thy ===== *)
theory Zeebe_Prelude
  imports Complex_Main "HOL-Library.Word"
begin

text \<open>
  What every theory of the library shares: the machine integer types of the Rust source, the
  result of a fallible operation (a value, an error or a panic), the loop that stops at the
  first error, the \<open>as\<close> casts between integers of the same width, runs of a labelled transition
  relation, and the interface of an inductive invariant over such runs.
\<close>

named_theorems rust_simps \<open>casts, saturating operations and other std operations\<close>

subsection \<open>Machine integers\<close>

text \<open>
  A signed and an unsigned Rust integer of the same width are the same bits: \<open>uint\<close> and \<open>unat\<close>
  read a word as unsigned, \<open>sint\<close> reads it as two's complement.
\<close>

type_synonym i32 = "32 word"
type_synonym u32 = "32 word"
type_synonym i64 = "64 word"
type_synonym u64 = "64 word"
type_synonym usize = "64 word"

definition u32_as_i32 :: "u32 \<Rightarrow> i32" where
  "u32_as_i32 w = w"

definition i32_as_u32 :: "i32 \<Rightarrow> u32" where
  "i32_as_u32 w = w"

definition u64_as_i64 :: "u64 \<Rightarrow> i64" where
  "u64_as_i64 w = w"

definition u128_as_i64 :: "nat \<Rightarrow> i64" where
  "u128_as_i64 n = word_of_nat n"

definition i32_as_usize :: "i32 \<Rightarrow> usize" where
  "i32_as_usize w = scast w"

definition usize_as_u32 :: "nat \<Rightarrow> u32" where
  "usize_as_u32 n = word_of_nat n"

lemma i32_as_u32_as_i32 [simp, rust_simps]: "i32_as_u32 (u32_as_i32 w) = w"
  by (simp add: i32_as_u32_def u32_as_i32_def)

lemma u32_as_i32_as_u32 [simp, rust_simps]: "u32_as_i32 (i32_as_u32 w) = w"
  by (simp add: i32_as_u32_def u32_as_i32_def)

lemma sint_of_same_bits:
  fixes w :: "'n :: len word"
  shows "sint w = (if uint w < 2 ^ (LENGTH('n) - 1) then uint w else uint w - 2 ^ LENGTH('n))"
proof -
  let ?n = "LENGTH('n) - 1"
  have n: "LENGTH('n) = Suc ?n"
    by simp
  have pow: "(2 :: int) ^ LENGTH('n) = 2 * 2 ^ ?n"
    by (metis n power_Suc)
  have bnd: "0 \<le> uint w" "uint w < 2 * 2 ^ ?n"
    using uint_lt2p [of w] by (simp_all only: pow uint_ge_0)
  have top: "bit (uint w) ?n \<longleftrightarrow> 2 ^ ?n \<le> uint w"
  proof (cases "2 ^ ?n \<le> uint w")
    case True
    then have "uint w div 2 ^ ?n = 1"
      using bnd by (intro int_div_pos_eq [of _ _ _ "uint w - 2 ^ ?n"]) auto
    with True show ?thesis by (simp add: bit_iff_odd)
  next
    case False
    with bnd show ?thesis by (simp add: bit_iff_odd)
  qed
  have "sint w = take_bit (Suc ?n) (uint w) - 2 ^ Suc ?n * of_bool (bit (uint w) ?n)"
    by (simp add: sint_uint signed_take_bit_eq_take_bit_minus)
  also have "take_bit (Suc ?n) (uint w) = uint w"
    using bnd by (simp add: take_bit_int_eq_self)
  finally show ?thesis
    using top pow by (auto simp: not_less)
qed

lemma sint_u32_as_i32:
  "sint (u32_as_i32 w) = (if uint w < 2 ^ 31 then uint w else uint w - 2 ^ 32)"
  using sint_of_same_bits [of w] by (simp add: u32_as_i32_def)

lemma sint_u64_as_i64:
  "sint (u64_as_i64 w) = (if uint w < 2 ^ 63 then uint w else uint w - 2 ^ 64)"
  using sint_of_same_bits [of w] by (simp add: u64_as_i64_def)

lemma unat_usize_as_u32: "n < 2 ^ 32 \<Longrightarrow> unat (usize_as_u32 n) = n"
  by (simp add: usize_as_u32_def unat_of_nat)

subsection \<open>Saturating operations of \<open>u32\<close>\<close>

definition u32_saturating_add :: "u32 \<Rightarrow> u32 \<Rightarrow> u32" where
  "u32_saturating_add a b = (if unat a + unat b < 2 ^ 32 then a + b else 0xFFFFFFFF)"

definition u32_saturating_sub :: "u32 \<Rightarrow> u32 \<Rightarrow> u32" where
  "u32_saturating_sub a b = (if b \<le> a then a - b else 0)"

lemma unat_u32_saturating_add [rust_simps]:
  "unat (u32_saturating_add a b) = min (unat a + unat b) (2 ^ 32 - 1)"
  by (auto simp: u32_saturating_add_def unat_word_ariths min_def)

lemma unat_u32_saturating_sub [rust_simps]:
  "unat (u32_saturating_sub a b) = unat a - unat b"
  by (auto simp: u32_saturating_sub_def unat_sub word_le_nat_alt)

subsection \<open>Results, errors and panics\<close>

text \<open>
  \<open>Ok\<close> and \<open>Err\<close> are the constructors of Rust's \<open>Result\<close>; \<open>Panic\<close> is a computation that unwinds
  instead of returning (an \<open>unwrap\<close> of \<open>Err\<close>, an arithmetic overflow of \<open>Duration\<close>), with the
  place it comes from.
\<close>

datatype ('a, 'e) outcome = Ok 'a | Err 'e | Panic string

fun bind_outcome :: "('a, 'e) outcome \<Rightarrow> ('a \<Rightarrow> ('b, 'e) outcome) \<Rightarrow> ('b, 'e) outcome" where
  "bind_outcome (Ok x) f = f x"
| "bind_outcome (Err e) f = Err e"
| "bind_outcome (Panic p) f = Panic p"

fun is_ok :: "('a, 'e) outcome \<Rightarrow> bool" where
  "is_ok (Ok x) = True"
| "is_ok (Err e) = False"
| "is_ok (Panic p) = False"

text \<open>\<open>Option::unwrap\<close> and \<open>Result::unwrap\<close> of the source.\<close>

fun unwrap_result :: "'e + 'a \<Rightarrow> string \<Rightarrow> ('a, 'e') outcome" where
  "unwrap_result (Inr x) p = Ok x"
| "unwrap_result (Inl e) p = Panic p"

fun unwrap_outcome :: "('a, 'e) outcome \<Rightarrow> string \<Rightarrow> ('a, 'e') outcome" where
  "unwrap_outcome (Ok x) p = Ok x"
| "unwrap_outcome (Err e) p = Panic p"
| "unwrap_outcome (Panic q) p = Panic q"

definition option_unwrap_or :: "'a option \<Rightarrow> 'a \<Rightarrow> 'a" where
  "option_unwrap_or x d = (case x of None \<Rightarrow> d | Some v \<Rightarrow> v)"

definition option_or :: "'a option \<Rightarrow> 'a option \<Rightarrow> 'a option" where
  "option_or x y = (case x of None \<Rightarrow> y | Some v \<Rightarrow> Some v)"

lemma option_unwrap_or_simps [simp]:
  "option_unwrap_or None d = d"
  "option_unwrap_or (Some v) d = v"
  by (simp_all add: option_unwrap_or_def)

lemma option_or_simps [simp]:
  "option_or None y = y"
  "option_or (Some v) y = Some v"
  by (simp_all add: option_or_def)

lemma option_or_eq_None_iff [simp]: "option_or x y = None \<longleftrightarrow> x = None \<and> y = None"
  by (cases x) simp_all

lemma bind_outcome_eq_Ok_iff:
  "bind_outcome r f = Ok y \<longleftrightarrow> (\<exists>x. r = Ok x \<and> f x = Ok y)"
  by (cases r) simp_all

lemma bind_outcome_eq_Err_iff:
  "bind_outcome r f = Err e \<longleftrightarrow> r = Err e \<or> (\<exists>x. r = Ok x \<and> f x = Err e)"
  by (cases r) simp_all

lemma bind_outcome_eq_Panic_iff:
  "bind_outcome r f = Panic p \<longleftrightarrow> r = Panic p \<or> (\<exists>x. r = Ok x \<and> f x = Panic p)"
  by (cases r) simp_all

lemmas bind_outcome_iffs =
  bind_outcome_eq_Ok_iff bind_outcome_eq_Err_iff bind_outcome_eq_Panic_iff

subsection \<open>Stopping at the first error\<close>

text \<open>
  A \<open>for\<close> loop whose body uses \<open>?\<close>, a \<open>collect\<close> into \<open>Result<Vec<_>>\<close> and a tuple of \<open>?\<close>
  expressions all evaluate their elements from left to right and stop at the first that does not
  return \<open>Ok\<close>.
\<close>

fun traverse :: "('a \<Rightarrow> ('b, 'e) outcome) \<Rightarrow> 'a list \<Rightarrow> ('b list, 'e) outcome" where
  "traverse f [] = Ok []"
| "traverse f (x # xs) =
     bind_outcome (f x) (\<lambda>y. bind_outcome (traverse f xs) (\<lambda>ys. Ok (y # ys)))"

lemma traverse_eq_Ok_iff:
  "traverse f xs = Ok ys \<longleftrightarrow> list_all2 (\<lambda>x y. f x = Ok y) xs ys"
  by (induction xs arbitrary: ys) (auto simp: bind_outcome_eq_Ok_iff list_all2_Cons1)

lemma traverse_first_Err:
  "traverse f xs = Err e \<Longrightarrow>
   \<exists>before x after ys. xs = before @ x # after \<and> traverse f before = Ok ys \<and> f x = Err e"
proof (induction xs)
  case Nil
  then show ?case by simp
next
  case (Cons a xs)
  show ?case
  proof (cases "f a")
    case (Ok y)
    with Cons.prems have "traverse f xs = Err e"
      by (auto simp: bind_outcome_eq_Err_iff)
    then obtain before x after ys
      where "xs = before @ x # after" "traverse f before = Ok ys" "f x = Err e"
      using Cons.IH by blast
    with Ok have "a # xs = (a # before) @ x # after" "traverse f (a # before) = Ok (y # ys)"
        "f x = Err e"
      by simp_all
    then show ?thesis by blast
  next
    case (Err e')
    with Cons.prems have "a # xs = [] @ a # xs" "traverse f [] = Ok []" "f a = Err e"
      by simp_all
    then show ?thesis by blast
  next
    case (Panic p)
    with Cons.prems show ?thesis by simp
  qed
qed

lemma traverse_append_Err:
  "traverse f before = Ok ys \<Longrightarrow> f x = Err e \<Longrightarrow> traverse f (before @ x # after) = Err e"
  by (induction before arbitrary: ys) (auto simp: bind_outcome_iffs)

lemma traverse_no_panic: "(\<And>x p. f x \<noteq> Panic p) \<Longrightarrow> traverse f xs \<noteq> Panic p"
  by (induction xs) (auto simp: bind_outcome_eq_Panic_iff)

lemma length_remove1_Suc: "x \<in> set xs \<Longrightarrow> Suc (length (remove1 x xs)) = length xs"
  using length_pos_if_in_set [of x xs] by (simp add: length_remove1)

subsection \<open>Runs of a labelled transition relation\<close>

inductive run :: "('s \<Rightarrow> 'e \<Rightarrow> 's \<Rightarrow> bool) \<Rightarrow> 's \<Rightarrow> 'e list \<Rightarrow> 's \<Rightarrow> bool"
  for step :: "'s \<Rightarrow> 'e \<Rightarrow> 's \<Rightarrow> bool" where
  run_none [intro, simp]: "run step s [] s"
| run_step: "step s e t \<Longrightarrow> run step t es u \<Longrightarrow> run step s (e # es) u"

inductive_simps run_Nil_iff [simp]: "run step s [] t"
inductive_simps run_Cons_iff: "run step s (e # es) t"

lemma run_append: "run step s es t \<Longrightarrow> run step t fs u \<Longrightarrow> run step s (es @ fs) u"
  by (induction rule: run.induct) (auto intro: run_step)

lemma run_one: "step s e t \<Longrightarrow> run step s [e] t"
  by (blast intro: run_step)

lemma run_snoc: "run step s es t \<Longrightarrow> step t e u \<Longrightarrow> \<exists>fs. run step s fs u"
  by (intro exI) (rule run_append, assumption, rule run_one)

lemma run_restrict:
  "run step s es t \<Longrightarrow> \<forall>e \<in> set es. P e \<Longrightarrow> run (\<lambda>s e t. P e \<and> step s e t) s es t"
  by (induction rule: run.induct) (auto intro: run_step)

text \<open>
  The interface of an inductive invariant: what it has to satisfy, and that it then holds in
  every state of every run.
\<close>

locale inductive_invariant =
  fixes init :: "'s \<Rightarrow> bool"
    and step :: "'s \<Rightarrow> 'e \<Rightarrow> 's \<Rightarrow> bool"
    and inv :: "'s \<Rightarrow> bool"
  assumes inv_init: "init s \<Longrightarrow> inv s"
    and inv_step: "inv s \<Longrightarrow> step s e t \<Longrightarrow> inv t"
begin

lemma inv_preserved: "run step s es t \<Longrightarrow> inv s \<Longrightarrow> inv t"
  by (induction rule: run.induct) (blast intro: inv_step)+

lemma inv_reachable: "init s \<Longrightarrow> run step s es t \<Longrightarrow> inv t"
  by (blast intro: inv_preserved inv_init)

end

text \<open>
  The interface of a refinement: a step of the detailed system, from a state of its invariant, is a
  step of the abstract one or changes nothing there. Every run then is one of the abstract system,
  and what holds in all reachable states of that holds of the detailed states.
\<close>

locale refinement_map =
  fixes detailed :: "'s \<Rightarrow> 'e \<Rightarrow> 's \<Rightarrow> bool"
    and abstract :: "'a \<Rightarrow> 'b \<Rightarrow> 'a \<Rightarrow> bool"
    and inv :: "'s \<Rightarrow> bool"
    and abs :: "'s \<Rightarrow> 'a"
  assumes inv_step: "inv s \<Longrightarrow> detailed s e t \<Longrightarrow> inv t"
    and step_refines: "inv s \<Longrightarrow> detailed s e t \<Longrightarrow>
      abs t = abs s \<or> (\<exists>b. abstract (abs s) b (abs t))"
begin

lemma run_refines:
  "run detailed s es t \<Longrightarrow> inv s \<Longrightarrow> \<exists>bs. run abstract (abs s) bs (abs t) \<and> length bs \<le> length es"
proof (induction rule: run.induct)
  case (run_step s e t es u)
  then obtain bs where bs: "run abstract (abs t) bs (abs u)" "length bs \<le> length es"
    using inv_step by blast
  from step_refines [OF run_step.prems run_step.hyps(1)] show ?case
  proof
    assume "abs t = abs s"
    with bs show ?thesis by (intro exI [of _ bs]) simp
  next
    assume "\<exists>b. abstract (abs s) b (abs t)"
    then obtain b where "abstract (abs s) b (abs t)" by blast
    with bs show ?thesis
      by (intro exI [of _ "b # bs"]) (auto intro: run.run_step)
  qed
qed auto

lemma transports:
  assumes "run detailed s es t" "inv s"
    and "\<And>bs a. run abstract (abs s) bs a \<Longrightarrow> P a"
  shows "P (abs t)"
  using run_refines [OF assms(1,2)] assms(3) by blast

end

end
