(* ===== verification/Rust_Std.thy ===== *)
theory Rust_Std
  imports Zeebe_Prelude
begin

text \<open>
  The parts of Rust's standard library whose arithmetic the client depends on: \<open>Duration\<close>,
  single precision floating point numbers (the worker multiplies a duration and a job count by
  an \<open>f32\<close>), and parsing and printing of \<open>u64\<close>.
\<close>

subsection \<open>\<open>Duration\<close>\<close>

text \<open>
  A duration is its number of nanoseconds. The largest is \<open>u64::MAX\<close> seconds and 999999999
  nanoseconds; an addition beyond it and a subtraction below zero panic, which is \<open>None\<close>.
\<close>

type_synonym duration = nat

definition nanos_per_sec :: nat where
  "nanos_per_sec = 1000000000"

definition duration_max :: duration where
  "duration_max = (2 ^ 64 - 1) * 1000000000 + 999999999"

definition from_secs :: "nat \<Rightarrow> duration" where
  "from_secs s = s * 1000000000"

definition from_millis :: "nat \<Rightarrow> duration" where
  "from_millis ms = ms * 1000000"

definition as_millis :: "duration \<Rightarrow> nat" where
  "as_millis d = d div 1000000"

definition duration_add :: "duration \<Rightarrow> duration \<Rightarrow> duration option" where
  "duration_add a b = (if a + b \<le> duration_max then Some (a + b) else None)"

definition duration_sub :: "duration \<Rightarrow> duration \<Rightarrow> duration option" where
  "duration_sub a b = (if b \<le> a then Some (a - b) else None)"

lemma as_millis_from_millis [simp]: "as_millis (from_millis ms) = ms"
  by (simp add: as_millis_def from_millis_def)

lemma as_millis_from_secs [simp]: "as_millis (from_secs s) = s * 1000"
  by (simp add: as_millis_def from_secs_def)

lemma from_millis_le_max: "ms < 2 ^ 64 \<Longrightarrow> from_millis ms \<le> duration_max"
  by (simp add: from_millis_def duration_max_def)

lemma as_millis_mono: "a \<le> b \<Longrightarrow> as_millis a \<le> as_millis b"
  by (simp add: as_millis_def div_le_mono)

subsection \<open>Single precision numbers\<close>

text \<open>
  A finite \<open>f32\<close> is a rational number. Every operation computes the exact result and rounds it
  to the nearest representable value, ties to even: \<open>f32_exponent\<close> is the exponent of the unit
  in the last place, the least \<open>e\<close> between -149 (subnormal numbers) and 104 for which the
  magnitude needs at most 24 binary digits; a magnitude that reaches \<open>2 ^ 128\<close> overflows to
  infinity, which is \<open>None\<close>. The sign of zero and NaN do not occur in the client's computations.
\<close>

definition round_half_even :: "rat \<Rightarrow> int" where
  "round_half_even x =
     (let n = \<lfloor>x\<rfloor>; d = x - of_int n
      in if d < 1 / 2 then n else if 1 / 2 < d then n + 1 else if even n then n else n + 1)"

definition f32_exponents :: "int list" where
  "f32_exponents = [- 149..104]"

definition f32_exponent :: "rat \<Rightarrow> int option" where
  "f32_exponent x = find (\<lambda>e. x < 2 ^ 24 * 2 powi e) f32_exponents"

definition f32_round_magnitude :: "rat \<Rightarrow> rat option" where
  "f32_round_magnitude x =
     (case f32_exponent x of
        None \<Rightarrow> None
      | Some e \<Rightarrow>
          (let y = of_int (round_half_even (x / 2 powi e)) * 2 powi e
           in if y < 2 ^ 128 then Some y else None))"

definition f32_round :: "rat \<Rightarrow> rat option" where
  "f32_round x =
     (if x < 0 then map_option uminus (f32_round_magnitude (- x)) else f32_round_magnitude x)"

definition f32_mul :: "rat \<Rightarrow> rat \<Rightarrow> rat option" where
  "f32_mul a b = f32_round (a * b)"

definition f32_add :: "rat \<Rightarrow> rat \<Rightarrow> rat option" where
  "f32_add a b = f32_round (a + b)"

definition f32_div :: "rat \<Rightarrow> rat \<Rightarrow> rat option" where
  "f32_div a b = f32_round (a / b)"

definition nat_as_f32 :: "nat \<Rightarrow> rat option" where
  "nat_as_f32 n = f32_round (of_nat n)"

definition i32_as_f32 :: "i32 \<Rightarrow> rat option" where
  "i32_as_f32 w = f32_round (of_int (sint w))"

text \<open>\<open>f32 as u32\<close> truncates towards zero and saturates at both ends.\<close>

definition f32_as_u32 :: "rat \<Rightarrow> u32" where
  "f32_as_u32 x =
     (if x < 0 then 0 else if 2 ^ 32 \<le> x then 0xFFFFFFFF else word_of_int \<lfloor>x\<rfloor>)"

text \<open>
  \<open>Duration::as_secs_f32\<close>, \<open>from_secs_f32\<close> (which rounds to the nearest nanosecond and panics on
  a value that is negative, infinite or too large) and \<open>mul_f32\<close>.
\<close>

definition as_secs_f32 :: "duration \<Rightarrow> rat option" where
  "as_secs_f32 d =
     Option.bind (nat_as_f32 (d div nanos_per_sec)) (\<lambda>secs.
     Option.bind (nat_as_f32 (d mod nanos_per_sec)) (\<lambda>nanos.
     Option.bind (nat_as_f32 nanos_per_sec) (\<lambda>per_sec.
     Option.bind (f32_div nanos per_sec) (\<lambda>frac.
       f32_add secs frac))))"

definition from_secs_f32 :: "rat \<Rightarrow> duration option" where
  "from_secs_f32 x =
     (if x < 0 \<or> 2 ^ 64 \<le> x then None
      else Some (nat (round_half_even (x * 1000000000))))"

definition mul_f32 :: "duration \<Rightarrow> rat \<Rightarrow> duration option" where
  "mul_f32 d r =
     Option.bind (as_secs_f32 d) (\<lambda>secs. Option.bind (f32_mul r secs) from_secs_f32)"

subsection \<open>Rounding error\<close>

lemma round_half_even_error: "\<bar>of_int (round_half_even x) - x\<bar> \<le> 1 / 2"
proof -
  have "of_int \<lfloor>x\<rfloor> \<le> x" "x < of_int \<lfloor>x\<rfloor> + 1"
    by linarith+
  then show ?thesis
    by (auto simp: round_half_even_def Let_def abs_le_iff)
qed

lemma round_half_even_ge_floor: "\<lfloor>x\<rfloor> \<le> round_half_even x"
  by (simp add: round_half_even_def Let_def)

lemma round_half_even_eqI:
  assumes "of_int n - 1 / 2 < x" "x < of_int n + 1 / 2"
  shows "round_half_even x = n"
proof (cases "of_int n \<le> x")
  case True
  then have "\<lfloor>x\<rfloor> = n" using assms by (intro floor_unique) simp_all
  then show ?thesis using assms by (simp add: round_half_even_def)
next
  case False
  then have "\<lfloor>x\<rfloor> = n - 1" using assms by (intro floor_unique) simp_all
  then show ?thesis using assms by (simp add: round_half_even_def)
qed

lemma length_f32_exponents [simp]: "length f32_exponents = 254"
  by (simp add: f32_exponents_def)

lemma nth_f32_exponents: "k < 254 \<Longrightarrow> f32_exponents ! k = int k - 149"
  unfolding f32_exponents_def by (subst nth_upto) auto

lemma f32_exponent_eq_Some_iff:
  "f32_exponent x = Some e \<longleftrightarrow>
   - 149 \<le> e \<and> e \<le> 104 \<and> x < 2 ^ 24 * 2 powi e \<and>
   (e = - 149 \<or> 2 ^ 23 * 2 powi e \<le> x)" (is "_ \<longleftrightarrow> ?R")
proof
  assume "f32_exponent x = Some e"
  then obtain i where i: "i < 254" "x < 2 ^ 24 * 2 powi (f32_exponents ! i)"
      "e = f32_exponents ! i" "\<forall>j < i. \<not> x < 2 ^ 24 * 2 powi (f32_exponents ! j)"
    by (auto simp only: f32_exponent_def find_Some_iff length_f32_exponents)
  then have e: "e = int i - 149"
    by (simp add: nth_f32_exponents)
  have "2 ^ 23 * 2 powi e \<le> x" if "e \<noteq> - 149"
  proof -
    have "0 < i" using that e by simp
    then have "\<not> x < 2 ^ 24 * 2 powi (f32_exponents ! (i - 1))"
      using i(4) by (simp del: power_numeral)
    moreover have "f32_exponents ! (i - 1) = e - 1"
      using i(1) \<open>0 < i\<close> e by (subst nth_f32_exponents) auto
    ultimately show ?thesis
      by (simp add: power_int_diff)
  qed
  with i e show ?R by auto
next
  assume R: ?R
  let ?i = "nat (e + 149)"
  from R have e: "- 149 \<le> e" "e \<le> 104" by blast+
  then have i: "?i < 254" by simp
  then have "f32_exponents ! ?i = int ?i - 149" by (rule nth_f32_exponents)
  with e i have i: "?i < 254" "f32_exponents ! ?i = e" by simp_all
  have "\<not> x < 2 ^ 24 * 2 powi (f32_exponents ! k)" if "k < ?i" for k
  proof -
    have "f32_exponents ! k \<le> e - 1"
      using that R by (subst nth_f32_exponents) auto
    then have "2 ^ 24 * (2 :: rat) powi (f32_exponents ! k) \<le> 2 ^ 24 * 2 powi (e - 1)"
      by (intro mult_left_mono power_int_increasing) simp_all
    also have "\<dots> = 2 ^ 23 * 2 powi e"
      by (simp add: power_int_diff)
    also have "\<dots> \<le> x" using R that by auto
    finally show ?thesis by simp
  qed
  with i R have "\<exists>i < length f32_exponents. x < 2 ^ 24 * 2 powi (f32_exponents ! i) \<and>
      e = f32_exponents ! i \<and> (\<forall>j < i. \<not> x < 2 ^ 24 * 2 powi (f32_exponents ! j))"
    by (intro exI [of _ ?i]) (simp only: length_f32_exponents, blast)
  then show "f32_exponent x = Some e"
    by (simp only: f32_exponent_def find_Some_iff)
qed

lemma f32_exponent_neq_None:
  assumes "x < 2 ^ 127"
  shows "f32_exponent x \<noteq> None"
proof -
  have "f32_exponents ! 253 = 104"
    by (simp add: nth_f32_exponents)
  then have "104 \<in> set f32_exponents"
    by (metis length_f32_exponents nth_mem lessI numeral_eq_Suc pred_numeral_simps(2)
        semiring_norm(26) semiring_norm(27) semiring_norm(28))
  moreover have "x < 2 ^ 24 * 2 powi 104"
    using assms by simp
  ultimately show ?thesis
    by (metis f32_exponent_def find_None_iff)
qed

text \<open>
  The bound every later estimate uses: a magnitude in the normal range, well below overflow, is
  rounded to a value within one eighth of it (the true bound is one part in \<open>2 ^ 24\<close>).
\<close>

lemma f32_round_bounds:
  assumes lo: "1 / 2 ^ 100 \<le> x" and hi: "x < 2 ^ 127"
  shows "\<exists>y. f32_round x = Some y \<and> 7 / 8 * x \<le> y \<and> y \<le> 9 / 8 * x"
proof -
  have pos: "0 < x"
    by (rule less_le_trans [OF _ lo]) simp
  obtain e where e: "f32_exponent x = Some e" "x < 2 ^ 24 * 2 powi e"
      "e = - 149 \<or> 2 ^ 23 * 2 powi e \<le> x"
    using f32_exponent_neq_None [OF hi] f32_exponent_eq_Some_iff [of x] by blast
  let ?u = "2 powi e :: rat"
  let ?y = "of_int (round_half_even (x / ?u)) * ?u"
  have u: "0 < ?u" by simp
  have "(2 :: rat) ^ 24 * 2 powi (- 149) \<le> 1 / 2 ^ 100"
    by (simp add: power_int_minus)
  with e(2) lo have "e \<noteq> - 149" by auto
  with e(3) have ulp: "2 ^ 23 * ?u \<le> x" by simp
  have "\<bar>of_int (round_half_even (x / ?u)) - x / ?u\<bar> \<le> 1 / 2"
    by (rule round_half_even_error)
  then have "\<bar>of_int (round_half_even (x / ?u)) - x / ?u\<bar> * ?u \<le> 1 / 2 * ?u"
    using u by (intro mult_right_mono) simp_all
  moreover have "(of_int (round_half_even (x / ?u)) - x / ?u) * ?u = ?y - x"
    by (simp add: left_diff_distrib)
  then have "\<bar>of_int (round_half_even (x / ?u)) - x / ?u\<bar> * ?u = \<bar>?y - x\<bar>"
    using u by (metis abs_mult abs_of_pos)
  ultimately have err: "\<bar>?y - x\<bar> \<le> ?u / 2" by simp
  then have bounds: "7 / 8 * x \<le> ?y" "?y \<le> 9 / 8 * x"
    using ulp u unfolding abs_le_iff by (simp_all add: field_simps)
  have "?y < 2 ^ 128"
    using bounds(2) hi by simp
  with e(1) pos bounds show ?thesis
    by (simp add: f32_round_def f32_round_magnitude_def Let_def)
qed

lemma f32_round_0 [simp]: "f32_round 0 = Some 0"
proof -
  have "f32_exponent 0 = Some (- 149)"
    by (simp only: f32_exponent_eq_Some_iff) simp
  then show ?thesis
    by (simp add: f32_round_def f32_round_magnitude_def round_half_even_def)
qed

lemma f32_round_eqI:
  assumes "2 ^ 23 * 2 powi e \<le> x" "x < 2 ^ 24 * 2 powi e" "- 149 \<le> e" "e \<le> 104"
    and "of_int n - 1 / 2 < x / 2 powi e" "x / 2 powi e < of_int n + 1 / 2"
    and "of_int n * 2 powi e = y" "y < 2 ^ 128"
  shows "f32_round x = Some y"
proof -
  have rne: "round_half_even (x / 2 powi e) = n"
    using assms(5,6) by (rule round_half_even_eqI)
  have "0 \<le> x"
    using assms(1) by (rule order_trans [rotated]) simp
  moreover have "f32_exponent x = Some e"
    using assms(1-4) by (simp only: f32_exponent_eq_Some_iff) blast
  ultimately show ?thesis
    using assms(7,8) rne by (simp add: f32_round_def f32_round_magnitude_def)
qed

lemma f32_round_nat_bounds:
  assumes "n < 2 ^ 64"
  shows "\<exists>y. nat_as_f32 n = Some y \<and> 7 / 8 * of_nat n \<le> y \<and> y \<le> 9 / 8 * of_nat n"
proof (cases "n = 0")
  case True
  then show ?thesis by (simp add: nat_as_f32_def)
next
  case False
  then have "(1 :: rat) \<le> of_nat n" by simp
  then have "1 / 2 ^ 100 \<le> (of_nat n :: rat)"
    by (rule order_trans [rotated]) simp
  moreover have "(of_nat n :: rat) < 2 ^ 127"
  proof -
    have "(of_nat n :: rat) < of_nat (2 ^ 64)"
      using assms by (simp only: of_nat_less_iff)
    then show ?thesis by simp
  qed
  ultimately show ?thesis
    unfolding nat_as_f32_def by (rule f32_round_bounds)
qed

lemma nat_as_f32_per_sec: "nat_as_f32 nanos_per_sec = Some 1000000000"
  unfolding nat_as_f32_def nanos_per_sec_def
  by (rule f32_round_eqI [where e = 6 and n = 15625000]) simp_all

lemma f32_div_per_sec_bounds:
  assumes n: "7 / 8 * of_nat n \<le> y" "y \<le> 9 / 8 * of_nat n" "n < 1000000000"
  shows "\<exists>q. f32_div y 1000000000 = Some q \<and>
    49 / 64 * (of_nat n / 1000000000) \<le> q \<and> q \<le> 81 / 64 * (of_nat n / 1000000000)"
proof (cases "n = 0")
  case True
  with n show ?thesis by (simp add: f32_div_def)
next
  case False
  then have one: "(1 :: rat) \<le> of_nat n" by simp
  have nb: "(of_nat n :: rat) < 1000000000"
    using n(3) by (metis of_nat_less_iff of_nat_numeral)
  have "1 / 2 ^ 100 \<le> y / 1000000000" "y / 1000000000 < 2 ^ 127"
    using n one nb by simp_all
  then obtain q where q: "f32_round (y / 1000000000) = Some q"
      "7 / 8 * (y / 1000000000) \<le> q" "q \<le> 9 / 8 * (y / 1000000000)"
    using f32_round_bounds by blast
  with n show ?thesis
    by (simp add: f32_div_def)
qed

lemma as_secs_f32_bounds:
  assumes d: "0 < d" "d \<le> duration_max"
  shows "\<exists>s. as_secs_f32 d = Some s \<and>
    of_nat d / 1000000000 / 2 \<le> s \<and> s \<le> 2 * (of_nat d / 1000000000)"
proof -
  let ?secs = "d div 1000000000" and ?nanos = "d mod 1000000000"
  have split: "(of_nat d :: rat) / 1000000000 = of_nat ?secs + of_nat ?nanos / 1000000000"
  proof -
    have "d = ?secs * 1000000000 + ?nanos" by simp
    then have "(of_nat d :: rat) = of_nat ?secs * 1000000000 + of_nat ?nanos"
      by (metis of_nat_add of_nat_mult of_nat_numeral)
    then show ?thesis by (simp add: add_divide_distrib)
  qed
  have secs64: "?secs < 2 ^ 64"
    using d(2) by (simp add: duration_max_def)
  then obtain s where s: "nat_as_f32 ?secs = Some s" "7 / 8 * of_nat ?secs \<le> s"
      "s \<le> 9 / 8 * of_nat ?secs"
    using f32_round_nat_bounds by blast
  have nanos: "?nanos < 1000000000" by simp
  then have "?nanos < 2 ^ 64" by simp
  then obtain y where y: "nat_as_f32 ?nanos = Some y" "7 / 8 * of_nat ?nanos \<le> y"
      "y \<le> 9 / 8 * of_nat ?nanos"
    using f32_round_nat_bounds by blast
  obtain q where q: "f32_div y 1000000000 = Some q"
      "49 / 64 * (of_nat ?nanos / 1000000000) \<le> q" "q \<le> 81 / 64 * (of_nat ?nanos / 1000000000)"
    using f32_div_per_sec_bounds [OF y(2,3) nanos] by blast
  let ?v = "of_nat d / 1000000000 :: rat"
  have v0: "1 / 1000000000 \<le> ?v" using d(1) by (simp add: divide_le_cancel)
  have "of_nat ?secs < (2 :: rat) ^ 64"
    using secs64 by (metis of_nat_less_iff of_nat_numeral of_nat_power)
  moreover have "(of_nat ?nanos :: rat) < 1000000000"
    using nanos by (metis of_nat_less_iff of_nat_numeral)
  ultimately have v1: "?v < 2 ^ 64 + 1"
    using split by simp
  have lo: "49 / 64 * ?v \<le> s + q" and hi: "s + q \<le> 81 / 64 * ?v"
    using s q split by simp_all
  have "1 / 2 ^ 100 \<le> s + q" "s + q < 2 ^ 127"
    using lo hi v0 v1 by simp_all
  then obtain t where t: "f32_round (s + q) = Some t" "7 / 8 * (s + q) \<le> t" "t \<le> 9 / 8 * (s + q)"
    using f32_round_bounds by blast
  with s(1) y(1) q(1) have "as_secs_f32 d = Some t"
    by (simp add: as_secs_f32_def nat_as_f32_per_sec f32_add_def)
      (simp add: nanos_per_sec_def)
  moreover have "?v / 2 \<le> t" "t \<le> 2 * ?v"
    using t(2,3) lo hi v0 by simp_all
  ultimately show ?thesis by blast
qed

lemma mul_f32_bounds:
  assumes d: "0 < d" "d \<le> duration_max" and r: "1 / 16 \<le> r" "r \<le> 1 / 8"
  shows "\<exists>m. mul_f32 d r = Some m \<and>
    7 / 256 * of_nat d - 1 / 2 \<le> (of_nat m :: rat) \<and> of_nat m \<le> 9 / 32 * (of_nat d :: rat) + 1 / 2"
proof -
  let ?v = "of_nat d / 1000000000 :: rat"
  obtain s where s: "as_secs_f32 d = Some s" "?v / 2 \<le> s" "s \<le> 2 * ?v"
    using as_secs_f32_bounds [OF d] by blast
  have v0: "1 / 1000000000 \<le> ?v" using d(1) by (simp add: divide_le_cancel)
  have "(of_nat d :: rat) \<le> of_nat duration_max"
    using d(2) by (simp only: of_nat_le_iff)
  then have v1: "?v \<le> 2 ^ 64"
    by (simp add: duration_max_def)
  have s0: "0 \<le> s" using s(2) v0 by simp
  have "1 / 16 * s \<le> r * s" "r * s \<le> 1 / 8 * s"
    using r s0 by (intro mult_right_mono; simp)+
  then have rs: "?v / 32 \<le> r * s" "r * s \<le> ?v / 4"
    using s(2,3) by simp_all
  then have "1 / 2 ^ 100 \<le> r * s" "r * s < 2 ^ 127"
    using v0 v1 by simp_all
  then obtain t where t: "f32_round (r * s) = Some t" "7 / 8 * (r * s) \<le> t" "t \<le> 9 / 8 * (r * s)"
    using f32_round_bounds by blast
  then have tv: "7 / 256 * ?v \<le> t" "t \<le> 9 / 32 * ?v"
    using rs by simp_all
  then have range: "0 \<le> t" "t < 2 ^ 64"
    using v0 v1 by simp_all
  let ?n = "round_half_even (t * 1000000000)"
  have err: "t * 1000000000 - 1 / 2 \<le> of_int ?n" "of_int ?n \<le> t * 1000000000 + 1 / 2"
    using round_half_even_error [of "t * 1000000000"] by linarith+
  have "0 \<le> \<lfloor>t * 1000000000\<rfloor>" using range by simp
  then have n0: "0 \<le> ?n"
    using round_half_even_ge_floor [of "t * 1000000000"] by (rule order_trans)
  then have "(of_nat (nat ?n) :: rat) = of_int ?n" by simp
  with err tv have "7 / 256 * of_nat d - 1 / 2 \<le> (of_nat (nat ?n) :: rat)"
    "(of_nat (nat ?n) :: rat) \<le> 9 / 32 * of_nat d + 1 / 2"
    by simp_all
  moreover have "mul_f32 d r = Some (nat ?n)"
    using s(1) t(1) range by (simp add: mul_f32_def f32_mul_def from_secs_f32_def)
  ultimately show ?thesis by blast
qed

lemma mul_f32_zero: "mul_f32 0 r = Some 0"
proof -
  have "nat_as_f32 0 = Some 0"
    by (simp add: nat_as_f32_def)
  then show ?thesis
    by (simp add: mul_f32_def as_secs_f32_def nat_as_f32_per_sec f32_div_def f32_add_def
        f32_mul_def from_secs_f32_def round_half_even_def)
qed

subsection \<open>Parsing and printing \<open>u64\<close>\<close>

text \<open>
  \<open>str::parse::<u64>\<close>: an optional \<open>+\<close>, then at least one decimal digit, without overflow.
\<close>

definition digit_value :: "char \<Rightarrow> nat option" where
  "digit_value c =
     (let n = of_char c in if 48 \<le> n \<and> n \<le> 57 then Some (n - 48) else None)"

fun parse_digits :: "nat \<Rightarrow> string \<Rightarrow> nat option" where
  "parse_digits acc [] = Some acc"
| "parse_digits acc (c # cs) =
     (case digit_value c of
        None \<Rightarrow> None
      | Some v \<Rightarrow>
          (if 10 * acc + v < 2 ^ 64 then parse_digits (10 * acc + v) cs else None))"

fun parse_u64 :: "string \<Rightarrow> nat option" where
  "parse_u64 [] = None"
| "parse_u64 (c # cs) =
     (if c = CHR ''+'' then (if cs = [] then None else parse_digits 0 cs)
      else parse_digits 0 (c # cs))"

fun show_nat :: "nat \<Rightarrow> string" where
  "show_nat n =
     (if n < 10 then [char_of (48 + n)] else show_nat (n div 10) @ [char_of (48 + n mod 10)])"

declare show_nat.simps [simp del]

lemma digit_value_char [simp]: "v < 10 \<Longrightarrow> digit_value (char_of (48 + v)) = Some v"
  by (simp add: digit_value_def Let_def)

lemma parse_digits_bound: "parse_digits acc cs = Some n \<Longrightarrow> acc < 2 ^ 64 \<Longrightarrow> n < 2 ^ 64"
  by (induction acc cs rule: parse_digits.induct)
    (auto split: option.splits if_splits simp del: power_numeral)

lemma parse_u64_bound: "parse_u64 s = Some n \<Longrightarrow> n < 2 ^ 64"
  by (cases s) (auto split: if_splits dest!: parse_digits_bound simp del: parse_digits.simps)

lemma parse_digits_append:
  "parse_digits acc (xs @ ys) = Option.bind (parse_digits acc xs) (\<lambda>a. parse_digits a ys)"
  by (induction acc xs rule: parse_digits.induct) (auto split: option.splits)

lemma parse_digits_show: "n < 2 ^ 64 \<Longrightarrow> parse_digits 0 (show_nat n) = Some n"
proof (induction n rule: show_nat.induct)
  case (1 n)
  show ?case
  proof (cases "n < 10")
    case True
    then show ?thesis by (subst show_nat.simps) simp
  next
    case False
    with 1 have "parse_digits 0 (show_nat (n div 10)) = Some (n div 10)"
      by simp
    with False 1(2) show ?thesis
      by (subst show_nat.simps) (simp add: parse_digits_append)
  qed
qed

lemma show_nat_first: "\<exists>(v :: nat) cs. v < 10 \<and> show_nat n = char_of (48 + v) # cs"
proof (induction n rule: show_nat.induct)
  case (1 n)
  show ?case
  proof (cases "n < 10")
    case True
    then show ?thesis by (subst show_nat.simps) auto
  next
    case False
    with 1 obtain v :: nat and cs where "v < 10" "show_nat (n div 10) = char_of (48 + v) # cs"
      by blast
    with False show ?thesis by (subst show_nat.simps) auto
  qed
qed

lemma char_digit_neq_plus: "(v :: nat) < 10 \<Longrightarrow> char_of (48 + v) \<noteq> CHR ''+''"
  by (metis digit_value_char option.discI digit_value_def [of "CHR ''+''", simplified])

lemma parse_show_u64: "n < 2 ^ 64 \<Longrightarrow> parse_u64 (show_nat n) = Some n"
  using parse_digits_show [of n] show_nat_first [of n] char_digit_neq_plus by fastforce

end
