(* ===== verification/Gateway_Protocol.thy ===== *)
theory Gateway_Protocol
  imports Zeebe_Prelude
begin

text \<open>
  The errors of the client (\<open>src/error.rs\<close>) and the messages of the gateway's gRPC protocol
  (\<open>proto/gateway.proto\<close>, from which the build generates the Rust structs with the same fields).
  The gateway itself and the generated client are not part of the repository: \<open>gateway\<close> holds one
  function per remote call, and every definition that performs a call takes it as an argument.
\<close>

subsection \<open>Statuses and errors\<close>

text \<open>The status codes of gRPC, as \<open>tonic::Code\<close> has them.\<close>

datatype grpc_code =
    CodeOk | Cancelled | Unknown | InvalidArgument | DeadlineExceeded | NotFound
  | AlreadyExists | PermissionDenied | ResourceExhausted | FailedPrecondition | Aborted
  | OutOfRange | Unimplemented | Internal | Unavailable | DataLoss | Unauthenticated

datatype status = Status (status_code: grpc_code) (status_message: string)

text \<open>Errors of other crates are known by the text they display.\<close>

type_synonym transport_error = string
type_synonym io_error = string
type_synonym serde_error = string

datatype error =
    InvalidGatewayUri string string \<comment> \<open>message, uri\<close>
  | Transport transport_error
  | GRPC status
  | FileIo string io_error \<comment> \<open>resource file, source\<close>
  | InvalidParameters string
  | DeserializationError serde_error
  | MissingWorkerStateConfig
  | Auth string

subsection \<open>Jobs\<close>

record activate_jobs_request =
  ajr_type :: string
  ajr_worker :: string
  ajr_timeout :: i64
  ajr_max_jobs_to_activate :: i32
  ajr_fetch_variable :: "string list"
  ajr_request_timeout :: i64

record activated_job =
  aj_key :: i64
  aj_type :: string
  aj_process_instance_key :: i64
  aj_bpmn_process_id :: string
  aj_process_definition_version :: i32
  aj_process_definition_key :: i64
  aj_element_id :: string
  aj_element_instance_key :: i64
  aj_custom_headers :: string
  aj_worker :: string
  aj_retries :: i32
  aj_deadline :: i64
  aj_variables :: string

record activate_jobs_response =
  ajs_jobs :: "activated_job list"

record complete_job_request =
  cjr_job_key :: i64
  cjr_variables :: string

record fail_job_request =
  fjr_job_key :: i64
  fjr_retries :: i32
  fjr_error_message :: string

record throw_error_request =
  ter_job_key :: i64
  ter_error_code :: string
  ter_error_message :: string

record update_job_retries_request =
  ujr_job_key :: i64
  ujr_retries :: i32

datatype complete_job_response = CompleteJobResponse
datatype fail_job_response = FailJobResponse
datatype throw_error_response = ThrowErrorResponse
datatype update_job_retries_response = UpdateJobRetriesResponse

subsection \<open>Processes\<close>

record process_request_object =
  pro_name :: string
  pro_definition :: "8 word list"

record deploy_process_request =
  dpr_processes :: "process_request_object list"

record process_metadata =
  pm_bpmn_process_id :: string
  pm_version :: i32
  pm_process_definition_key :: i64
  pm_resource_name :: string

record deploy_process_response =
  dps_key :: i64
  dps_processes :: "process_metadata list"

record create_process_instance_request =
  cpr_process_definition_key :: i64
  cpr_bpmn_process_id :: string
  cpr_version :: i32
  cpr_variables :: string

record create_process_instance_response =
  cps_process_definition_key :: i64
  cps_bpmn_process_id :: string
  cps_version :: i32
  cps_process_instance_key :: i64

record create_process_instance_with_result_request =
  cwr_request :: "create_process_instance_request option"
  cwr_request_timeout :: i64
  cwr_fetch_variables :: "string list"

record create_process_instance_with_result_response =
  cws_process_definition_key :: i64
  cws_bpmn_process_id :: string
  cws_version :: i32
  cws_process_instance_key :: i64
  cws_variables :: string

record cancel_process_instance_request =
  xpr_process_instance_key :: i64

datatype cancel_process_instance_response = CancelProcessInstanceResponse

record set_variables_request =
  svr_element_instance_key :: i64
  svr_variables :: string
  svr_local :: bool

record set_variables_response =
  svs_key :: i64

subsection \<open>Messages, incidents and the topology\<close>

record publish_message_request =
  pmr_name :: string
  pmr_correlation_key :: string
  pmr_time_to_live :: i64
  pmr_message_id :: string
  pmr_variables :: string

record publish_message_response =
  pms_key :: i64

record resolve_incident_request =
  rir_incident_key :: i64

datatype resolve_incident_response = ResolveIncidentResponse

datatype topology_request = TopologyRequest

record partition =
  pt_partition_id :: i32
  pt_role :: i32
  pt_health :: i32

record broker_info =
  bi_node_id :: i32
  bi_host :: string
  bi_port :: i32
  bi_partitions :: "partition list"
  bi_version :: string

record topology_response =
  ts_brokers :: "broker_info list"
  ts_cluster_size :: i32
  ts_partitions_count :: i32
  ts_replication_factor :: i32
  ts_gateway_version :: string

subsection \<open>The wire and the gateway\<close>

datatype grpc_request =
    ActivateJobs activate_jobs_request
  | CancelProcessInstance cancel_process_instance_request
  | CompleteJob complete_job_request
  | CreateProcessInstance create_process_instance_request
  | CreateProcessInstanceWithResult create_process_instance_with_result_request
  | DeployProcess deploy_process_request
  | FailJob fail_job_request
  | ThrowError throw_error_request
  | PublishMessage publish_message_request
  | ResolveIncident resolve_incident_request
  | SetVariables set_variables_request
  | Topology topology_request
  | UpdateJobRetries update_job_retries_request

text \<open>
  A request on the wire carries its metadata. The gateway answers a call from what it has been
  sent so far, the call's metadata and its message, with a status or a response.
\<close>

type_synonym metadata = "string \<rightharpoonup> string"
type_synonym wire = "metadata \<times> grpc_request"
type_synonym ('req, 'resp) rpc = "wire list \<Rightarrow> metadata \<Rightarrow> 'req \<Rightarrow> status + 'resp"

record gateway =
  gw_topology :: "(topology_request, topology_response) rpc"
  gw_deploy_process :: "(deploy_process_request, deploy_process_response) rpc"
  gw_create_process_instance ::
    "(create_process_instance_request, create_process_instance_response) rpc"
  gw_create_process_instance_with_result ::
    "(create_process_instance_with_result_request,
      create_process_instance_with_result_response) rpc"
  gw_cancel_process_instance ::
    "(cancel_process_instance_request, cancel_process_instance_response) rpc"
  gw_set_variables :: "(set_variables_request, set_variables_response) rpc"
  gw_complete_job :: "(complete_job_request, complete_job_response) rpc"
  gw_fail_job :: "(fail_job_request, fail_job_response) rpc"
  gw_throw_error :: "(throw_error_request, throw_error_response) rpc"
  gw_update_job_retries :: "(update_job_retries_request, update_job_retries_response) rpc"
  gw_publish_message :: "(publish_message_request, publish_message_response) rpc"
  gw_resolve_incident :: "(resolve_incident_request, resolve_incident_response) rpc"
  gw_metadata_value :: "string \<Rightarrow> string + string"
    \<comment> \<open>\<open>MetadataValue::from_str\<close> of tonic: the error's text, or the value\<close>

end
