(* ===== verification/Job_Poller.thy ===== *)
theory Job_Poller
  imports Rust_Std Gateway_Protocol
begin

text \<open>
  The poller of a worker (\<open>src/worker/job_poller.rs\<close>): it counts the jobs that are still being
  worked on, decides when to ask the gateway for more, and how long the gateway may hold a
  request open. The task that performs a request, the channels and the dispatcher are in
  \<open>Worker_System\<close>.
\<close>

subsection \<open>Long polling\<close>

definition LONG_POLLING_MAX_DURATION :: duration where
  "LONG_POLLING_MAX_DURATION = from_secs 10"

text \<open>The \<open>f32\<close> nearest to 0.1.\<close>

definition LONG_POLLING_OFFSET_PERCENT :: rat where
  "LONG_POLLING_OFFSET_PERCENT = 13421773 / 134217728"

definition TIMEOUT_ERROR :: string where
  "TIMEOUT_ERROR = ''Timeout expired''"

text \<open>\<open>None\<close> is a panic of the duration arithmetic.\<close>

definition get_long_polling_millis :: "duration \<Rightarrow> i64 option" where
  "get_long_polling_millis timeout =
     Option.bind (mul_f32 timeout LONG_POLLING_OFFSET_PERCENT) (\<lambda>offset.
     Option.bind (duration_sub timeout (min offset LONG_POLLING_MAX_DURATION)) (\<lambda>long_poll_duration.
       Some (u128_as_i64 (as_millis long_poll_duration))))"

subsection \<open>The poller\<close>

datatype poll_message = FetchJobs | JobsArrived u32 | FetchJobsComplete | JobFinished

record job_poller =
  jp_request :: activate_jobs_request
  jp_request_timeout :: duration
  jp_request_in_progress :: bool
  jp_max_jobs_active :: u32
  jp_remaining :: u32
  jp_threshold :: u32

definition debug_job_poller :: "job_poller \<Rightarrow> string" where
  "debug_job_poller p = ''JobPoller''"

definition should_activate_jobs :: "job_poller \<Rightarrow> bool" where
  "should_activate_jobs p \<longleftrightarrow> jp_remaining p \<le> jp_threshold p \<and> \<not> jp_request_in_progress p"

text \<open>
  The request that \<open>activate_jobs\<close> stores in the poller and hands to the spawned task. \<open>None\<close> is a
  panic: the subtraction of two \<open>u32\<close> overflows, or the duration arithmetic does.
\<close>

definition activate_jobs :: "job_poller \<Rightarrow> (job_poller \<times> activate_jobs_request) option" where
  "activate_jobs p =
     (if jp_max_jobs_active p < jp_remaining p then None
      else Option.bind (get_long_polling_millis (jp_request_timeout p)) (\<lambda>millis.
        let request = (jp_request p)
              \<lparr>ajr_max_jobs_to_activate := u32_as_i32 (jp_max_jobs_active p - jp_remaining p),
               ajr_request_timeout := millis\<rparr>
        in Some (p\<lparr>jp_request := request\<rparr>, request)))"

text \<open>One message: the new poller, and the request if a task was spawned.\<close>

fun on_message ::
    "job_poller \<Rightarrow> poll_message \<Rightarrow> (job_poller \<times> activate_jobs_request option) option" where
  "on_message p (JobsArrived new_job_count) =
     Some (p\<lparr>jp_remaining := u32_saturating_add (jp_remaining p) new_job_count\<rparr>, None)"
| "on_message p JobFinished =
     Some (p\<lparr>jp_remaining := u32_saturating_sub (jp_remaining p) 1\<rparr>, None)"
| "on_message p FetchJobs =
     (if should_activate_jobs p then
        map_option (\<lambda>(p', request). (p', Some request))
          (activate_jobs (p\<lparr>jp_request_in_progress := True\<rparr>))
      else Some (p, None))"
| "on_message p FetchJobsComplete = Some (p\<lparr>jp_request_in_progress := False\<rparr>, None)"

text \<open>
  \<open>Future::poll\<close> takes messages while the stream has one ready. The list is what the stream has
  ready, \<open>None\<close> its end. The result is the poller, the requests of the tasks it spawned, and
  whether the future is ready (it is pending when the list runs out).
\<close>

fun poll ::
    "job_poller \<Rightarrow> poll_message option list
      \<Rightarrow> (job_poller \<times> activate_jobs_request list \<times> bool) option" where
  "poll p [] = Some (p, [], False)"
| "poll p (None # ms) = Some (p, [], True)"
| "poll p (Some m # ms) =
     Option.bind (on_message p m) (\<lambda>(p', spawned).
       map_option (\<lambda>(p'', requests, ready).
           (p'', (case spawned of None \<Rightarrow> requests | Some r \<Rightarrow> r # requests), ready))
         (poll p' ms))"

subsection \<open>The long polling timeout\<close>

lemma long_polling_offset_percent_is_one_tenth:
  "f32_round (1 / 10) = Some LONG_POLLING_OFFSET_PERCENT"
  unfolding LONG_POLLING_OFFSET_PERCENT_def
  by (rule f32_round_eqI [where e = "- 27" and n = 13421773]) (simp_all add: power_int_minus)

lemma long_polling_offset_bounds:
  assumes "t \<le> duration_max"
  obtains offset where "mul_f32 t LONG_POLLING_OFFSET_PERCENT = Some offset" "offset \<le> t"
    "1000000000 \<le> t \<Longrightarrow> 1000000 \<le> offset"
proof (cases "t = 0")
  case True
  then show thesis using that [of 0] by (simp add: mul_f32_zero)
next
  case False
  then obtain m where m: "mul_f32 t LONG_POLLING_OFFSET_PERCENT = Some m"
      "7 / 256 * of_nat t - 1 / 2 \<le> (of_nat m :: rat)"
      "of_nat m \<le> 9 / 32 * (of_nat t :: rat) + 1 / 2"
    using mul_f32_bounds [of t LONG_POLLING_OFFSET_PERCENT] assms
    by (auto simp: LONG_POLLING_OFFSET_PERCENT_def)
  have one: "(1 :: rat) \<le> of_nat t" using False by simp
  have "(of_nat m :: rat) \<le> of_nat t"
    using m(3) one by linarith
  then have "m \<le> t" by (simp only: of_nat_le_iff)
  moreover have "1000000 \<le> m" if "1000000000 \<le> t"
  proof -
    have "(1000000000 :: rat) \<le> of_nat t"
      using that by (metis of_nat_le_iff of_nat_numeral)
    then have "(of_nat 1000000 :: rat) \<le> of_nat m"
      using m(2) by simp
    then show ?thesis by (simp only: of_nat_le_iff)
  qed
  ultimately show thesis using that m(1) by blast
qed

lemma get_long_polling_millis_returns:
  assumes "t \<le> duration_max"
  obtains d where "get_long_polling_millis t = Some (u128_as_i64 (as_millis d))" "d \<le> t"
    "t \<le> d + LONG_POLLING_MAX_DURATION" "1000000000 \<le> t \<Longrightarrow> d + 1000000 \<le> t"
proof -
  obtain offset where o: "mul_f32 t LONG_POLLING_OFFSET_PERCENT = Some offset" "offset \<le> t"
      "1000000000 \<le> t \<Longrightarrow> 1000000 \<le> offset"
    using long_polling_offset_bounds [OF assms] by blast
  show thesis
  proof
    show "get_long_polling_millis t =
        Some (u128_as_i64 (as_millis (t - min offset LONG_POLLING_MAX_DURATION)))"
      using o by (simp add: get_long_polling_millis_def duration_sub_def)
  qed (use o in \<open>auto simp: LONG_POLLING_MAX_DURATION_def from_secs_def min_def\<close>)
qed

lemma sint_u128_as_i64: "n < 2 ^ 63 \<Longrightarrow> sint (u128_as_i64 n) = int n"
proof -
  assume n: "n < 2 ^ 63"
  then have "uint (word_of_nat n :: 64 word) = int n"
    by (simp add: unsigned_of_nat take_bit_nat_eq_self)
  then show ?thesis
    using n sint_of_same_bits [of "word_of_nat n :: 64 word"] by (simp add: u128_as_i64_def)
qed

text \<open>
  C32: The long polling time that goes on the wire is well-defined and nested in the client's own
  timeout: for every request timeout of at least one second (and less than \<open>2 ^ 63\<close> milliseconds)
  the computation does not panic, the gateway is told to answer strictly before the client gives
  up, and at most ten seconds before.
\<close>

theorem long_polling_within_request_timeout:
  assumes "from_secs 1 \<le> t" "as_millis t < 2 ^ 63" "t \<le> duration_max"
  shows "\<exists>ms. get_long_polling_millis t = Some ms \<and>
    sint ms < int (as_millis t) \<and> int (as_millis t) - 10000 \<le> sint ms"
proof -
  obtain d where d: "get_long_polling_millis t = Some (u128_as_i64 (as_millis d))" "d \<le> t"
      "t \<le> d + LONG_POLLING_MAX_DURATION" "1000000000 \<le> t \<Longrightarrow> d + 1000000 \<le> t"
    using get_long_polling_millis_returns [OF assms(3)] by blast
  have "as_millis d < as_millis t" "as_millis t \<le> as_millis d + 10000"
    using d(3,4) assms(1)
    by (auto simp: as_millis_def from_secs_def LONG_POLLING_MAX_DURATION_def)
  moreover have "sint (u128_as_i64 (as_millis d)) = int (as_millis d)"
    using assms(2) \<open>as_millis d < as_millis t\<close> by (intro sint_u128_as_i64) simp
  ultimately show ?thesis
    using d(1) by simp
qed

theorem long_polling_within_request_timeout_witness:
  "\<exists>ms. get_long_polling_millis (from_secs 20) = Some ms \<and> sint ms < 20000 \<and> 10000 \<le> sint ms"
  using long_polling_within_request_timeout [of "from_secs 20"]
  by (simp add: duration_max_def) (simp add: from_secs_def)

lemma default_long_polling: "get_long_polling_millis (from_secs 20) = Some 18000"
proof -
  have "nat_as_f32 20 = Some 20"
    unfolding nat_as_f32_def
    by (rule f32_round_eqI [where e = "- 19" and n = 10485760]) (simp_all add: power_int_minus)
  moreover have "f32_round 20 = Some 20"
    by (rule f32_round_eqI [where e = "- 19" and n = 10485760]) (simp_all add: power_int_minus)
  moreover have "nat_as_f32 0 = Some 0"
    by (simp add: nat_as_f32_def)
  ultimately have "as_secs_f32 (from_secs 20) = Some 20"
    by (simp add: as_secs_f32_def f32_div_def f32_add_def nat_as_f32_per_sec)
      (simp add: from_secs_def nanos_per_sec_def)
  moreover have "f32_mul LONG_POLLING_OFFSET_PERCENT 20 = Some 2"
    unfolding f32_mul_def LONG_POLLING_OFFSET_PERCENT_def
    by (rule f32_round_eqI [where e = "- 22" and n = 8388608]) (simp_all add: power_int_minus)
  moreover have "from_secs_f32 2 = Some (from_secs 2)"
    by (simp add: from_secs_f32_def from_secs_def round_half_even_eqI [where n = 2000000000])
  ultimately have "mul_f32 (from_secs 20) LONG_POLLING_OFFSET_PERCENT = Some (from_secs 2)"
    by (simp add: mul_f32_def)
  then show ?thesis
    by (simp add: get_long_polling_millis_def duration_sub_def LONG_POLLING_MAX_DURATION_def
        from_secs_def as_millis_def u128_as_i64_def)
qed

subsection \<open>Counting and asking for jobs\<close>

text \<open>
  What the construction of a worker guarantees of the numbers a poller works with (see
  \<open>Job_Worker\<close>).
\<close>

definition poller_ok :: "job_poller \<Rightarrow> bool" where
  "poller_ok p \<longleftrightarrow>
     jp_threshold p < jp_max_jobs_active p \<and> unat (jp_max_jobs_active p) < 2 ^ 31 \<and>
     jp_request_timeout p \<le> duration_max"

lemma sint_u32_as_i32_small: "unat w < 2 ^ 31 \<Longrightarrow> sint (u32_as_i32 w) = int (unat w)"
proof -
  assume "unat w < 2 ^ 31"
  then have "int (unat w) < int (2 ^ 31)"
    by (simp only: of_nat_less_iff)
  then have "uint w < 2 ^ 31" by simp
  then show ?thesis
    by (simp add: sint_u32_as_i32)
qed

lemma activate_jobs_eq_Some:
  assumes "poller_ok p" "jp_remaining p \<le> jp_threshold p"
  obtains millis where
    "get_long_polling_millis (jp_request_timeout p) = Some millis"
    "activate_jobs p =
       (let request = (jp_request p)
              \<lparr>ajr_max_jobs_to_activate := u32_as_i32 (jp_max_jobs_active p - jp_remaining p),
               ajr_request_timeout := millis\<rparr>
        in Some (p\<lparr>jp_request := request\<rparr>, request))"
proof -
  have "jp_request_timeout p \<le> duration_max"
    using assms(1) by (simp add: poller_ok_def)
  then obtain d where
      "get_long_polling_millis (jp_request_timeout p) = Some (u128_as_i64 (as_millis d))"
    by (rule get_long_polling_millis_returns)
  moreover have "\<not> jp_max_jobs_active p < jp_remaining p"
    using assms by (auto simp: poller_ok_def)
  ultimately show thesis
    using that by (simp add: activate_jobs_def)
qed

lemma activate_jobs_frame:
  assumes "activate_jobs p = Some (p', r)"
  shows "jp_request_timeout p' = jp_request_timeout p \<and>
    jp_request_in_progress p' = jp_request_in_progress p \<and>
    jp_max_jobs_active p' = jp_max_jobs_active p \<and> jp_remaining p' = jp_remaining p \<and>
    jp_threshold p' = jp_threshold p \<and> jp_request p' = r \<and>
    ajr_max_jobs_to_activate r = u32_as_i32 (jp_max_jobs_active p - jp_remaining p) \<and>
    jp_remaining p \<le> jp_max_jobs_active p"
  using assms by (auto simp: activate_jobs_def bind_eq_Some_conv Let_def split: if_splits)

lemma requested_jobs:
  assumes "poller_ok p" "jp_remaining p \<le> jp_threshold p"
  shows "sint (u32_as_i32 (jp_max_jobs_active p - jp_remaining p)) =
      int (unat (jp_max_jobs_active p)) - int (unat (jp_remaining p))"
    and "jp_remaining p < jp_max_jobs_active p"
proof -
  show lt: "jp_remaining p < jp_max_jobs_active p"
    using assms by (auto simp: poller_ok_def)
  then have sub: "unat (jp_max_jobs_active p - jp_remaining p) =
      unat (jp_max_jobs_active p) - unat (jp_remaining p)"
    by (simp add: unat_sub)
  then have "unat (jp_max_jobs_active p - jp_remaining p) < 2 ^ 31"
    using assms(1) by (simp add: poller_ok_def less_imp_diff_less)
  with sub lt show "sint (u32_as_i32 (jp_max_jobs_active p - jp_remaining p)) =
      int (unat (jp_max_jobs_active p)) - int (unat (jp_remaining p))"
    by (simp add: sint_u32_as_i32_small word_less_nat_alt)
qed

text \<open>What one message does, as a case distinction with every field that changes.\<close>

lemma on_message_cases:
  assumes "on_message p m = Some (p', spawned)"
  obtains (arrived) n where "m = JobsArrived n" "spawned = None"
      "p' = p\<lparr>jp_remaining := u32_saturating_add (jp_remaining p) n\<rparr>"
  | (finished) "m = JobFinished" "spawned = None"
      "p' = p\<lparr>jp_remaining := u32_saturating_sub (jp_remaining p) 1\<rparr>"
  | (complete) "m = FetchJobsComplete" "spawned = None" "p' = p\<lparr>jp_request_in_progress := False\<rparr>"
  | (ignored) "m = FetchJobs" "spawned = None" "p' = p" "\<not> should_activate_jobs p"
  | (activated) r where "m = FetchJobs" "spawned = Some r" "should_activate_jobs p"
      "activate_jobs (p\<lparr>jp_request_in_progress := True\<rparr>) = Some (p', r)"
  using assms by (cases m) (auto split: if_splits)

lemma on_message_frame:
  assumes "on_message p m = Some (p', spawned)"
  shows "jp_max_jobs_active p' = jp_max_jobs_active p \<and> jp_threshold p' = jp_threshold p \<and>
    jp_request_timeout p' = jp_request_timeout p"
  using assms by (cases rule: on_message_cases) (auto dest: activate_jobs_frame)

lemma on_message_poller_ok: "on_message p m = Some (p', spawned) \<Longrightarrow> poller_ok p' = poller_ok p"
  using on_message_frame [of p m p' spawned] by (simp add: poller_ok_def)

lemma on_message_returns: "poller_ok p \<Longrightarrow> \<exists>p' spawned. on_message p m = Some (p', spawned)"
proof (cases "m = FetchJobs \<and> should_activate_jobs p")
  case True
  assume "poller_ok p"
  then have "poller_ok (p\<lparr>jp_request_in_progress := True\<rparr>)"
    by (simp add: poller_ok_def)
  moreover have "jp_remaining (p\<lparr>jp_request_in_progress := True\<rparr>) \<le>
      jp_threshold (p\<lparr>jp_request_in_progress := True\<rparr>)"
    using True by (simp add: should_activate_jobs_def)
  ultimately obtain p' r where
      "activate_jobs (p\<lparr>jp_request_in_progress := True\<rparr>) = Some (p', r)"
    by (rule activate_jobs_eq_Some) (simp add: Let_def)
  then show ?thesis
    using True by simp
next
  case False
  then show ?thesis by (cases m) auto
qed

lemma on_message_request:
  assumes "poller_ok p" "on_message p m = Some (p', Some r)"
  shows "m = FetchJobs \<and> \<not> jp_request_in_progress p \<and> jp_request_in_progress p' \<and>
    jp_remaining p' = jp_remaining p \<and> jp_remaining p \<le> jp_threshold p \<and>
    sint (ajr_max_jobs_to_activate r) =
      int (unat (jp_max_jobs_active p)) - int (unat (jp_remaining p))"
  using assms(2)
proof (cases rule: on_message_cases)
  case (activated r')
  then have "jp_remaining p \<le> jp_threshold p"
    by (simp add: should_activate_jobs_def)
  with activated assms requested_jobs(1) [of p] show ?thesis
    by (auto simp: should_activate_jobs_def dest!: activate_jobs_frame)
qed (use assms in auto)

lemma poll_returns_aux:
  "poller_ok p \<Longrightarrow>
   \<exists>p' rs. poll p ms = Some (p', rs, None \<in> set ms) \<and> poller_ok p' \<and>
     length rs \<le> of_bool (\<not> jp_request_in_progress p) + count_list ms (Some FetchJobsComplete) \<and>
     (\<forall>r \<in> set rs. 1 \<le> sint (ajr_max_jobs_to_activate r) \<and>
        sint (ajr_max_jobs_to_activate r) \<le> int (unat (jp_max_jobs_active p)))"
proof (induction p ms rule: poll.induct)
  case (3 p m ms)
  then obtain p1 spawned where m: "on_message p m = Some (p1, spawned)"
    using on_message_returns by blast
  then have ok: "poller_ok p1"
    using 3(2) on_message_poller_ok by blast
  with 3(1) [OF m refl] obtain p2 rs where rest: "poll p1 ms = Some (p2, rs, None \<in> set ms)"
      "poller_ok p2"
      "length rs \<le> of_bool (\<not> jp_request_in_progress p1) + count_list ms (Some FetchJobsComplete)"
      "\<forall>r \<in> set rs. 1 \<le> sint (ajr_max_jobs_to_activate r) \<and>
        sint (ajr_max_jobs_to_activate r) \<le> int (unat (jp_max_jobs_active p1))"
    by blast
  have max: "jp_max_jobs_active p1 = jp_max_jobs_active p"
    using on_message_frame [OF m] by simp
  show ?case
  proof (cases spawned)
    case None
    have "of_bool (\<not> jp_request_in_progress p1) \<le>
        of_bool (\<not> jp_request_in_progress p) + count_list [m] FetchJobsComplete"
      using m None by (cases rule: on_message_cases) auto
    with m None rest max show ?thesis
      by (cases "m = FetchJobsComplete"; cases "jp_request_in_progress p1") auto
  next
    case (Some r)
    from on_message_request [OF 3(2) m [unfolded Some]]
    have r: "m = FetchJobs" "\<not> jp_request_in_progress p" "jp_request_in_progress p1"
      "sint (ajr_max_jobs_to_activate r) =
         int (unat (jp_max_jobs_active p)) - int (unat (jp_remaining p))"
      "jp_remaining p \<le> jp_threshold p"
      by blast+
    have "uint (jp_remaining p) < uint (jp_max_jobs_active p)"
      using requested_jobs(2) [OF 3(2) r(5)] by (simp add: word_less_def)
    with m Some rest max r show ?thesis by auto
  qed
qed simp_all

text \<open>
  Polling never panics and ends exactly when the message stream does: for every list of
  messages the arithmetic of the poller (the \<open>u32\<close> subtraction and the \<open>Duration\<close> computation)
  stays defined, and the future is ready if and only if the stream ended.
\<close>

lemma poll_returns:
  "poller_ok p \<Longrightarrow> \<exists>p' requests. poll p ms = Some (p', requests, None \<in> set ms)"
  using poll_returns_aux [of p ms] by blast

definition example_poller :: job_poller where
  "example_poller =
     \<lparr>jp_request =
        \<lparr>ajr_type = ''payment-service'', ajr_worker = ''default'', ajr_timeout = 300000,
         ajr_max_jobs_to_activate = 32, ajr_fetch_variable = [], ajr_request_timeout = 10000\<rparr>,
      jp_request_timeout = from_secs 20, jp_request_in_progress = False,
      jp_max_jobs_active = 32, jp_remaining = 0, jp_threshold = 9\<rparr>"

lemma example_poller_ok: "poller_ok example_poller"
  by (simp add: poller_ok_def example_poller_def from_secs_def duration_max_def)

text \<open>
  The poller asks for jobs at most once per completed request: however many messages arrive
  and however many poll intervals elapse, the number of requests it starts is at most the number
  of completions it has seen, plus one if no request was in progress; and each asks for at least
  one and at most \<open>max_jobs_active\<close> jobs.
\<close>

lemma poll_requests_bounded:
  assumes "poller_ok p" "poll p ms = Some (p', requests, ready)"
  shows "length requests \<le>
      of_bool (\<not> jp_request_in_progress p) + count_list ms (Some FetchJobsComplete) \<and>
    (\<forall>r \<in> set requests. 1 \<le> sint (ajr_max_jobs_to_activate r) \<and>
       sint (ajr_max_jobs_to_activate r) \<le> int (unat (jp_max_jobs_active p)))"
  using poll_returns_aux [OF assms(1), of ms] assms(2) by auto

lemma example_poll:
  "poll example_poller [Some FetchJobs, Some FetchJobs, Some (JobsArrived 3), Some FetchJobs]
     = Some
        (example_poller\<lparr>jp_request := (jp_request example_poller)\<lparr>ajr_request_timeout := 18000\<rparr>,
           jp_request_in_progress := True, jp_remaining := 3\<rparr>,
         [(jp_request example_poller)\<lparr>ajr_request_timeout := 18000\<rparr>], False)"
  by (simp add: example_poller_def should_activate_jobs_def activate_jobs_def
      default_long_polling u32_as_i32_def u32_saturating_add_def Let_def)

end
