(* ===== verification/Worker_System.thy ===== *)
theory Worker_System
  imports Job_Poller
begin

text \<open>
  A running worker as a transition system: the poller of \<open>src/worker/job_poller.rs\<close>, the task that
  \<open>activate_jobs\<close> spawns for a request, the dispatcher of \<open>src/worker/job_dispatcher.rs\<close>, and the two
  bounded channels between them. An event is one actor moving to its next await point; which actor
  moves is not determined. The fields from \<open>ws_requests\<close> on are a record of the run that no actor
  reads.
\<close>

subsection \<open>State\<close>

text \<open>
  Where a spawned task is: it awaits the answer to its call, the next batch of the response stream,
  room in the job queue for the rest of a batch, room in the message queue for the number of jobs,
  or (after the timed part) room for \<open>FetchJobsComplete\<close>.
\<close>

datatype task_phase =
    Calling
  | Streaming u32
  | Sending u32 "activated_job list"
  | Announcing u32
  | Completing

datatype activation = Activation (at_request: activate_jobs_request) (at_phase: task_phase)

text \<open>
  The channels' capacities, the dispatcher's limit (0 is no limit, as the documentation of
  \<open>for_each_concurrent\<close> says) and the gateway: whether it may answer a request, of which it has
  delivered so many jobs, with this batch.
\<close>

record worker_config =
  wc_job_queue_capacity :: nat
  wc_poll_queue_capacity :: nat
  wc_concurrency :: nat
  wc_gateway :: "activate_jobs_request \<Rightarrow> nat \<Rightarrow> activated_job list \<Rightarrow> bool"

record worker_state =
  ws_poller :: job_poller
  ws_tasks :: "activation list"
  ws_job_queue :: "activated_job list"
  ws_poll_queue :: "poll_message list"
  ws_handling :: "activated_job list" \<comment> \<open>jobs whose handler is running\<close>
  ws_reporting :: "activated_job list" \<comment> \<open>jobs whose handler is done, before \<open>JobFinished\<close> is sent\<close>
  ws_requests :: "activate_jobs_request list" \<comment> \<open>requests made so far\<close>
  ws_delivered :: "activated_job list" \<comment> \<open>jobs put into the job queue so far\<close>
  ws_started :: "activated_job list" \<comment> \<open>jobs handed to the handler so far\<close>
  ws_finished :: "activated_job list" \<comment> \<open>jobs for which \<open>JobFinished\<close> was sent so far\<close>
  ws_lost :: nat \<comment> \<open>jobs queued by requests that then timed out before announcing them\<close>
  ws_clipped :: nat \<comment> \<open>\<open>JobFinished\<close> messages handled while \<open>remaining\<close> was 0\<close>

definition worker_start :: "job_poller \<Rightarrow> worker_state" where
  "worker_start p =
     \<lparr>ws_poller = p, ws_tasks = [], ws_job_queue = [], ws_poll_queue = [], ws_handling = [],
      ws_reporting = [], ws_requests = [], ws_delivered = [], ws_started = [], ws_finished = [],
      ws_lost = 0, ws_clipped = 0\<rparr>"

subsection \<open>Steps\<close>

datatype worker_event =
    Tick \<comment> \<open>the poll interval elapses\<close>
  | NextMessage \<comment> \<open>the poller takes a message from its queue\<close>
  | CallReturned nat
  | CallFailed nat
  | BatchArrived nat "activated_job list"
  | SendJob nat
  | BatchDone nat
  | StreamEnded nat
  | Announce nat
  | TimeOut nat
  | Complete nat
  | Dispatch
  | HandlerDone activated_job
  | ReportFinished activated_job

text \<open>The poller handles one message; a spawned task starts with its call to the gateway.\<close>

definition receive :: "poll_message \<Rightarrow> worker_state \<Rightarrow> worker_state option" where
  "receive m s =
     (case on_message (ws_poller s) m of
        None \<Rightarrow> None
      | Some (p, spawned) \<Rightarrow>
          (let new = (case spawned of None \<Rightarrow> [] | Some r \<Rightarrow> [r])
           in Some (s
             \<lparr>ws_poller := p,
              ws_tasks := ws_tasks s @ map (\<lambda>r. Activation r Calling) new,
              ws_requests := ws_requests s @ new,
              ws_clipped :=
                ws_clipped s + of_bool (m = JobFinished \<and> jp_remaining (ws_poller s) = 0)\<rparr>)))"

definition set_phase :: "nat \<Rightarrow> task_phase \<Rightarrow> worker_state \<Rightarrow> worker_state" where
  "set_phase i phase s =
     s\<lparr>ws_tasks := (ws_tasks s)[i := Activation (at_request (ws_tasks s ! i)) phase]\<rparr>"

text \<open>Jobs that a task has put into the job queue and has not announced.\<close>

fun phase_unannounced :: "task_phase \<Rightarrow> nat" where
  "phase_unannounced Calling = 0"
| "phase_unannounced (Streaming total_jobs) = unat total_jobs"
| "phase_unannounced (Sending total_jobs rest) = unat total_jobs - length rest"
| "phase_unannounced (Announcing total_jobs) = unat total_jobs"
| "phase_unannounced Completing = 0"

definition poll_queue_has_room :: "worker_config \<Rightarrow> worker_state \<Rightarrow> bool" where
  "poll_queue_has_room cfg s \<longleftrightarrow> length (ws_poll_queue s) < wc_poll_queue_capacity cfg"

definition job_queue_has_room :: "worker_config \<Rightarrow> worker_state \<Rightarrow> bool" where
  "job_queue_has_room cfg s \<longleftrightarrow> length (ws_job_queue s) < wc_job_queue_capacity cfg"

definition dispatcher_has_room :: "worker_config \<Rightarrow> worker_state \<Rightarrow> bool" where
  "dispatcher_has_room cfg s \<longleftrightarrow>
     wc_concurrency cfg = 0 \<or>
     length (ws_handling s) + length (ws_reporting s) < wc_concurrency cfg"

definition task_at :: "worker_state \<Rightarrow> nat \<Rightarrow> activate_jobs_request \<Rightarrow> task_phase \<Rightarrow> bool" where
  "task_at s i r phase \<longleftrightarrow> i < length (ws_tasks s) \<and> ws_tasks s ! i = Activation r phase"

inductive worker_step :: "worker_config \<Rightarrow> worker_state \<Rightarrow> worker_event \<Rightarrow> worker_state \<Rightarrow> bool"
  for cfg :: worker_config where
  tick: "receive FetchJobs s = Some t \<Longrightarrow> worker_step cfg s Tick t"
| next_message: "ws_poll_queue s = m # ms \<Longrightarrow> receive m (s\<lparr>ws_poll_queue := ms\<rparr>) = Some t \<Longrightarrow>
    worker_step cfg s NextMessage t"
| call_returned: "task_at s i r Calling \<Longrightarrow>
    worker_step cfg s (CallReturned i) (set_phase i (Streaming 0) s)"
| call_failed: "task_at s i r Calling \<Longrightarrow>
    worker_step cfg s (CallFailed i) (set_phase i Completing s)"
| batch_arrived: "task_at s i r (Streaming total_jobs) \<Longrightarrow> wc_gateway cfg r (unat total_jobs) jobs \<Longrightarrow>
    worker_step cfg s (BatchArrived i jobs)
      (set_phase i (Sending (total_jobs + usize_as_u32 (length jobs)) jobs) s)"
| send_job: "task_at s i r (Sending total_jobs (j # js)) \<Longrightarrow> job_queue_has_room cfg s \<Longrightarrow>
    worker_step cfg s (SendJob i)
      (set_phase i (Sending total_jobs js)
        (s\<lparr>ws_job_queue := ws_job_queue s @ [j], ws_delivered := ws_delivered s @ [j]\<rparr>))"
| batch_done: "task_at s i r (Sending total_jobs []) \<Longrightarrow>
    worker_step cfg s (BatchDone i) (set_phase i (Streaming total_jobs) s)"
| stream_ended: "task_at s i r (Streaming total_jobs) \<Longrightarrow>
    worker_step cfg s (StreamEnded i) (set_phase i (Announcing total_jobs) s)"
| announce: "task_at s i r (Announcing total_jobs) \<Longrightarrow> poll_queue_has_room cfg s \<Longrightarrow>
    worker_step cfg s (Announce i)
      (set_phase i Completing (s\<lparr>ws_poll_queue := ws_poll_queue s @ [JobsArrived total_jobs]\<rparr>))"
| time_out: "task_at s i r phase \<Longrightarrow> phase \<noteq> Completing \<Longrightarrow>
    worker_step cfg s (TimeOut i)
      (set_phase i Completing (s\<lparr>ws_lost := ws_lost s + phase_unannounced phase\<rparr>))"
| complete: "task_at s i r Completing \<Longrightarrow> poll_queue_has_room cfg s \<Longrightarrow>
    worker_step cfg s (Complete i)
      (s\<lparr>ws_tasks := take i (ws_tasks s) @ drop (Suc i) (ws_tasks s),
         ws_poll_queue := ws_poll_queue s @ [FetchJobsComplete]\<rparr>)"
| dispatch: "ws_job_queue s = j # js \<Longrightarrow> dispatcher_has_room cfg s \<Longrightarrow>
    worker_step cfg s Dispatch
      (s\<lparr>ws_job_queue := js, ws_handling := ws_handling s @ [j],
         ws_started := ws_started s @ [j]\<rparr>)"
| handler_done: "j \<in> set (ws_handling s) \<Longrightarrow>
    worker_step cfg s (HandlerDone j)
      (s\<lparr>ws_handling := remove1 j (ws_handling s), ws_reporting := ws_reporting s @ [j]\<rparr>)"
| report_finished: "j \<in> set (ws_reporting s) \<Longrightarrow> poll_queue_has_room cfg s \<Longrightarrow>
    worker_step cfg s (ReportFinished j)
      (s\<lparr>ws_reporting := remove1 j (ws_reporting s),
         ws_poll_queue := ws_poll_queue s @ [JobFinished],
         ws_finished := ws_finished s @ [j]\<rparr>)"

inductive_simps worker_step_simps:
  "worker_step cfg s Tick t"
  "worker_step cfg s NextMessage t"
  "worker_step cfg s (CallReturned i) t"
  "worker_step cfg s (CallFailed i) t"
  "worker_step cfg s (BatchArrived i jobs) t"
  "worker_step cfg s (SendJob i) t"
  "worker_step cfg s (BatchDone i) t"
  "worker_step cfg s (StreamEnded i) t"
  "worker_step cfg s (Announce i) t"
  "worker_step cfg s (TimeOut i) t"
  "worker_step cfg s (Complete i) t"
  "worker_step cfg s Dispatch t"
  "worker_step cfg s (HandlerDone j) t"
  "worker_step cfg s (ReportFinished j) t"

subsection \<open>What the worker counts\<close>

text \<open>
  The jobs that have been delivered and whose completion the poller has not yet counted, and the
  jobs delivered by the current request that the poller does not know of yet.
\<close>

definition outstanding :: "worker_state \<Rightarrow> nat" where
  "outstanding s =
     length (ws_job_queue s) + length (ws_handling s) + length (ws_reporting s) +
     count_list (ws_poll_queue s) JobFinished"

fun announced :: "poll_message \<Rightarrow> nat" where
  "announced (JobsArrived n) = unat n"
| "announced _ = 0"

definition unannounced :: "worker_state \<Rightarrow> nat" where
  "unannounced s =
     sum_list (map (\<lambda>a. phase_unannounced (at_phase a)) (ws_tasks s)) +
     sum_list (map announced (ws_poll_queue s))"

text \<open>The number of jobs a request asks for.\<close>

definition requested :: "activate_jobs_request \<Rightarrow> nat" where
  "requested r = nat (sint (ajr_max_jobs_to_activate r))"

text \<open>
  The documented contract of the gateway's \<open>ActivateJobs\<close>: it \<open>activates up to the requested maximum\<close>.
\<close>

definition honest_gateway :: "worker_config \<Rightarrow> bool" where
  "honest_gateway cfg \<longleftrightarrow>
     (\<forall>r total_jobs jobs. wc_gateway cfg r total_jobs jobs \<longrightarrow>
        total_jobs + length jobs \<le> requested r)"

subsection \<open>The invariant of requests and counts\<close>

text \<open>
  The messages that concern a request, and how they fit the tasks and the poller's flag: at most
  one task exists, and only while the flag is set; its messages come in order, the number of jobs
  before the completion.
\<close>

definition control_messages :: "poll_message list \<Rightarrow> poll_message list" where
  "control_messages q = filter (\<lambda>m. m \<noteq> JobFinished) q"

inductive request_shape :: "bool \<Rightarrow> activation list \<Rightarrow> poll_message list \<Rightarrow> bool" where
  shape_idle: "request_shape False [] []"
| shape_active: "phase \<noteq> Completing \<Longrightarrow> request_shape True [Activation r phase] []"
| shape_closing: "request_shape True [Activation r Completing] []"
| shape_announced: "request_shape True [Activation r Completing] [JobsArrived n]"
| shape_closed: "request_shape True [] [FetchJobsComplete]"
| shape_both: "request_shape True [] [JobsArrived n, FetchJobsComplete]"

inductive_simps request_shape_idle_iff [simp]: "request_shape False ts c"
inductive_simps request_shape_no_task_iff: "request_shape True [] c"
inductive_cases request_shape_task: "request_shape p (a # as) c"
inductive_cases request_shape_message: "request_shape p ts (m # ms)"

lemma request_shape_arrived:
  "request_shape f ts (JobsArrived n # c) \<Longrightarrow> request_shape f ts c"
  by (erule request_shape_message) (auto intro: request_shape.intros)

lemma request_shape_complete:
  "request_shape f ts (FetchJobsComplete # c) \<Longrightarrow> request_shape False ts c"
  by (erule request_shape_message) (auto intro: request_shape.intros)

lemma request_shape_no_fetch: "\<not> request_shape f ts (FetchJobs # c)"
  by (blast elim: request_shape_message)

lemma request_shape_push_arrived:
  "request_shape f [Activation r phase] c \<Longrightarrow> phase \<noteq> Completing \<Longrightarrow>
   request_shape f [Activation r Completing] (c @ [JobsArrived n])"
  by (erule request_shape_task) (auto intro: request_shape.intros)

lemma request_shape_push_complete:
  "request_shape f [Activation r Completing] c \<Longrightarrow> request_shape f [] (c @ [FetchJobsComplete])"
  by (erule request_shape_task) (auto intro: request_shape.intros)

lemma request_shape_phase:
  "request_shape f [Activation r phase] c \<Longrightarrow> phase \<noteq> Completing \<Longrightarrow>
   request_shape f [Activation r phase'] c"
  by (cases "phase' = Completing"; erule request_shape_task) (auto intro: request_shape.intros)

text \<open>What a phase may have counted, and the jobs a request may still add to \<open>remaining\<close>.\<close>

fun phase_ok :: "activation \<Rightarrow> bool" where
  "phase_ok (Activation r (Streaming n)) \<longleftrightarrow> unat n \<le> requested r"
| "phase_ok (Activation r (Sending n js)) \<longleftrightarrow>
     unat n \<le> requested r \<and> length js \<le> unat n"
| "phase_ok (Activation r (Announcing n)) \<longleftrightarrow> unat n \<le> requested r"
| "phase_ok (Activation r _) \<longleftrightarrow> True"

fun task_budget :: "activation \<Rightarrow> nat" where
  "task_budget (Activation r Completing) = 0"
| "task_budget (Activation r _) = requested r"

definition promised :: "worker_state \<Rightarrow> nat" where
  "promised s =
     sum_list (map task_budget (ws_tasks s)) + sum_list (map announced (ws_poll_queue s))"

definition accounts_balance :: "worker_state \<Rightarrow> bool" where
  "accounts_balance s \<longleftrightarrow>
     unat (jp_remaining (ws_poller s)) + unannounced s + ws_lost s =
     outstanding s + ws_clipped s"

definition worker_inv :: "worker_state \<Rightarrow> bool" where
  "worker_inv s \<longleftrightarrow>
     poller_ok (ws_poller s) \<and>
     request_shape (jp_request_in_progress (ws_poller s)) (ws_tasks s)
       (control_messages (ws_poll_queue s)) \<and>
     (\<forall>a \<in> set (ws_tasks s). phase_ok a) \<and>
     unat (jp_remaining (ws_poller s)) + promised s \<le> unat (jp_max_jobs_active (ws_poller s)) \<and>
     accounts_balance s"

lemma control_messages_simps [simp]:
  "control_messages [] = []"
  "control_messages (JobFinished # q) = control_messages q"
  "m \<noteq> JobFinished \<Longrightarrow> control_messages (m # q) = m # control_messages q"
  "control_messages (q @ q') = control_messages q @ control_messages q'"
  by (simp_all add: control_messages_def)

lemma announced_control: "sum_list (map announced q) = sum_list (map announced (control_messages q))"
  by (induction q) (auto simp: control_messages_def)

lemma task_budget_active [simp]:
  "phase \<noteq> Completing \<Longrightarrow> task_budget (Activation r phase) = requested r"
  by (cases phase) simp_all

lemma worker_invI:
  assumes "poller_ok (ws_poller s)"
    and "request_shape (jp_request_in_progress (ws_poller s)) (ws_tasks s)
      (control_messages (ws_poll_queue s))"
    and "\<And>a. a \<in> set (ws_tasks s) \<Longrightarrow> phase_ok a"
    and "unat (jp_remaining (ws_poller s)) + promised s \<le> unat (jp_max_jobs_active (ws_poller s))"
    and "accounts_balance s"
  shows "worker_inv s"
  using assms by (simp add: worker_inv_def)

lemma worker_invD:
  assumes "worker_inv s"
  shows "poller_ok (ws_poller s)"
    and "request_shape (jp_request_in_progress (ws_poller s)) (ws_tasks s)
      (control_messages (ws_poll_queue s))"
    and "\<And>a. a \<in> set (ws_tasks s) \<Longrightarrow> phase_ok a"
    and "unat (jp_remaining (ws_poller s)) + promised s \<le> unat (jp_max_jobs_active (ws_poller s))"
    and "unat (jp_remaining (ws_poller s)) + unannounced s + ws_lost s =
      outstanding s + ws_clipped s"
  using assms by (simp_all add: worker_inv_def accounts_balance_def)

lemmas count_defs = accounts_balance_def unannounced_def outstanding_def promised_def

lemma worker_inv_start:
  "poller_ok p \<Longrightarrow> jp_remaining p = 0 \<Longrightarrow> \<not> jp_request_in_progress p \<Longrightarrow> worker_inv (worker_start p)"
  by (rule worker_invI) (simp_all add: worker_start_def count_defs)

text \<open>A task that exists is the only one, at index 0.\<close>

lemma worker_inv_task:
  assumes "worker_inv s" "task_at s i r phase"
  shows "i = 0" "ws_tasks s = [Activation r phase]" "jp_request_in_progress (ws_poller s)"
    "phase \<noteq> Completing \<Longrightarrow> control_messages (ws_poll_queue s) = []"
    "phase_ok (Activation r phase)"
proof -
  obtain a as where ts: "ws_tasks s = a # as"
    using assms(2) by (cases "ws_tasks s") (auto simp: task_at_def)
  from worker_invD(2) [OF assms(1), unfolded ts]
  have "as = [] \<and> jp_request_in_progress (ws_poller s) \<and>
      (at_phase a \<noteq> Completing \<longrightarrow> control_messages (ws_poll_queue s) = [])"
    by (rule request_shape_task) auto
  with assms(2) ts show "i = 0" "ws_tasks s = [Activation r phase]"
    "jp_request_in_progress (ws_poller s)"
    "phase \<noteq> Completing \<Longrightarrow> control_messages (ws_poll_queue s) = []"
    by (auto simp: task_at_def)
  with worker_invD(3) [OF assms(1)] show "phase_ok (Activation r phase)" by simp
qed

text \<open>
  The steps of the task that leave the poller, its queue and the dispatcher alone: enough that the
  new phase is consistent, is within the request's budget and keeps the balance.
\<close>

lemma worker_inv_set_phase:
  assumes inv: "worker_inv s" and at: "task_at s i r phase" "phase \<noteq> Completing"
    and ok: "phase_ok (Activation r phase')"
    and same: "ws_poller t = ws_poller s" "ws_poll_queue t = ws_poll_queue s"
      "ws_tasks t = [Activation r phase']"
    and balance: "phase_unannounced phase' + ws_lost t + outstanding s =
      phase_unannounced phase + ws_lost s + outstanding t"
      "ws_clipped t = ws_clipped s"
  shows "worker_inv t"
proof (rule worker_invI)
  note task = worker_inv_task [OF inv at(1)]
  have ctl: "control_messages (ws_poll_queue s) = []"
    using task(4) at(2) by blast
  show "poller_ok (ws_poller t)"
    using worker_invD(1) [OF inv] same by simp
  show "request_shape (jp_request_in_progress (ws_poller t)) (ws_tasks t)
      (control_messages (ws_poll_queue t))"
    using task(3) ctl same by (cases "phase' = Completing") (auto intro: request_shape.intros)
  show "phase_ok a" if "a \<in> set (ws_tasks t)" for a
    using that ok same by simp
  have "task_budget (Activation r phase') \<le> task_budget (Activation r phase)"
    using at(2) by (cases "phase' = Completing") auto
  then show "unat (jp_remaining (ws_poller t)) + promised t \<le> unat (jp_max_jobs_active (ws_poller t))"
    using worker_invD(4) [OF inv] task(2) same by (simp add: promised_def)
  show "accounts_balance t"
    using worker_invD(5) [OF inv] task(2) same balance
    by (simp add: accounts_balance_def unannounced_def)
qed

lemma worker_inv_send_end:
  assumes inv: "worker_inv s" and at: "task_at s i r phase"
    and what: "phase = Announcing n \<and> m = JobsArrived n \<and> ts = [Activation r Completing] \<or>
      phase = Completing \<and> m = FetchJobsComplete \<and> ts = []"
    and t: "t = s\<lparr>ws_tasks := ts, ws_poll_queue := ws_poll_queue s @ [m]\<rparr>"
  shows "worker_inv t"
proof (rule worker_invI)
  note task = worker_inv_task [OF inv at]
  show "poller_ok (ws_poller t)"
    using worker_invD(1) [OF inv] t by simp
  have shape: "request_shape True [Activation r phase] (control_messages (ws_poll_queue s))"
    using worker_invD(2) [OF inv] task(2,3) by simp
  then show "request_shape (jp_request_in_progress (ws_poller t)) (ws_tasks t)
      (control_messages (ws_poll_queue t))"
    using what t task(3) by (elim request_shape_task) (auto intro: request_shape.intros)
  show "phase_ok a" if "a \<in> set (ws_tasks t)" for a
    using that what t by auto
  have "task_budget (Activation r phase) \<ge> announced m + sum_list (map task_budget ts)"
    using what task(5) by auto
  then show "unat (jp_remaining (ws_poller t)) + promised t \<le> unat (jp_max_jobs_active (ws_poller t))"
    using worker_invD(4) [OF inv] task(2) t by (simp add: promised_def)
  show "accounts_balance t"
    using worker_invD(5) [OF inv] task(2) what t by (auto simp: count_defs)
qed

lemma worker_inv_frame:
  assumes "worker_inv s"
    and "ws_poller t = ws_poller s" "ws_tasks t = ws_tasks s"
      "control_messages (ws_poll_queue t) = control_messages (ws_poll_queue s)"
      "outstanding t = outstanding s" "ws_lost t = ws_lost s" "ws_clipped t = ws_clipped s"
  shows "worker_inv t"
  using assms announced_control [of "ws_poll_queue t"] announced_control [of "ws_poll_queue s"]
  by (simp add: worker_inv_def promised_def accounts_balance_def unannounced_def)

lemma worker_inv_dispatcher:
  assumes "worker_inv s" "worker_step cfg s e t" "e = Dispatch \<or> e = HandlerDone j \<or> e = ReportFinished j"
  shows "worker_inv t"
proof (rule worker_inv_frame [OF assms(1)])
  have "0 < length (ws_handling s)" if "j \<in> set (ws_handling s)"
    using that by (cases "ws_handling s") auto
  moreover have "0 < length (ws_reporting s)" if "j \<in> set (ws_reporting s)"
    using that by (cases "ws_reporting s") auto
  ultimately show "outstanding t = outstanding s"
    using assms(2,3) by (auto simp: worker_step_simps outstanding_def length_remove1)
qed (use assms(2,3) in \<open>auto simp: worker_step_simps\<close>)

text \<open>The poller's steps.\<close>

lemma receive_eq_Some_iff:
  "receive m s = Some t \<longleftrightarrow>
     (\<exists>p spawned. on_message (ws_poller s) m = Some (p, spawned) \<and>
        t = s\<lparr>ws_poller := p,
              ws_tasks := ws_tasks s @
                (case spawned of None \<Rightarrow> [] | Some r \<Rightarrow> [Activation r Calling]),
              ws_requests := ws_requests s @ (case spawned of None \<Rightarrow> [] | Some r \<Rightarrow> [r]),
              ws_clipped :=
                ws_clipped s + of_bool (m = JobFinished \<and> jp_remaining (ws_poller s) = 0)\<rparr>)"
  by (auto simp: receive_def Let_def split: option.splits)

lemma worker_inv_tick:
  assumes inv: "worker_inv s" and step: "worker_step cfg s Tick t"
  shows "worker_inv t"
proof -
  obtain p spawned where m: "on_message (ws_poller s) FetchJobs = Some (p, spawned)"
    and t: "t = s\<lparr>ws_poller := p,
              ws_tasks := ws_tasks s @
                (case spawned of None \<Rightarrow> [] | Some r \<Rightarrow> [Activation r Calling]),
              ws_requests := ws_requests s @ (case spawned of None \<Rightarrow> [] | Some r \<Rightarrow> [r])\<rparr>"
    using step by (auto simp: worker_step_simps receive_eq_Some_iff)
  show ?thesis
  proof (cases spawned)
    case None
    with m have "p = ws_poller s"
      by (cases rule: on_message_cases) auto
    with None t show ?thesis
      by (intro worker_inv_frame [OF inv]) (simp_all add: outstanding_def)
  next
    case (Some r)
    note ok = worker_invD(1) [OF inv]
    note r = on_message_request [OF ok m [unfolded Some]]
    have idle: "ws_tasks s = []" "control_messages (ws_poll_queue s) = []"
      using worker_invD(2) [OF inv] r by simp_all
    have quiet: "sum_list (map announced (ws_poll_queue s)) = 0"
      by (subst announced_control) (simp add: idle)
    have frame: "jp_max_jobs_active p = jp_max_jobs_active (ws_poller s)"
      using on_message_frame [OF m] by simp
    have "unat (jp_remaining (ws_poller s)) \<le> unat (jp_max_jobs_active (ws_poller s))"
      using worker_invD(4) [OF inv] by simp
    then have "sint (ajr_max_jobs_to_activate r) =
        int (unat (jp_max_jobs_active (ws_poller s)) - unat (jp_remaining (ws_poller s)))"
      using r by (simp only: of_nat_diff)
    then have budget: "requested r =
        unat (jp_max_jobs_active (ws_poller s)) - unat (jp_remaining (ws_poller s))"
      by (simp only: requested_def nat_int)
    show ?thesis
    proof (rule worker_invI)
      show "poller_ok (ws_poller t)"
        using on_message_poller_ok [OF m] ok t by simp
      show "request_shape (jp_request_in_progress (ws_poller t)) (ws_tasks t)
          (control_messages (ws_poll_queue t))"
        using Some t idle r by (auto intro: request_shape.intros)
      show "phase_ok a" if "a \<in> set (ws_tasks t)" for a
        using that Some t idle by simp
      show "unat (jp_remaining (ws_poller t)) + promised t \<le>
          unat (jp_max_jobs_active (ws_poller t))"
        using Some t idle quiet budget frame r worker_invD(4) [OF inv] by (simp add: promised_def)
      show "accounts_balance t"
        using Some t idle quiet r worker_invD(5) [OF inv]
        by (simp add: count_defs)
    qed
  qed
qed

lemma announced_le_promised: "m \<in> set (ws_poll_queue s) \<Longrightarrow> announced m \<le> promised s"
  by (auto simp: promised_def member_le_sum_list intro!: trans_le_add2)

lemma worker_inv_next_message:
  assumes inv: "worker_inv s" and step: "worker_step cfg s NextMessage t"
  shows "worker_inv t"
proof -
  obtain m ms p spawned where q: "ws_poll_queue s = m # ms"
    and m: "on_message (ws_poller s) m = Some (p, spawned)"
    and t: "t = s\<lparr>ws_poll_queue := ms, ws_poller := p,
              ws_tasks := ws_tasks s @
                (case spawned of None \<Rightarrow> [] | Some r \<Rightarrow> [Activation r Calling]),
              ws_requests := ws_requests s @ (case spawned of None \<Rightarrow> [] | Some r \<Rightarrow> [r]),
              ws_clipped :=
                ws_clipped s + of_bool (m = JobFinished \<and> jp_remaining (ws_poller s) = 0)\<rparr>"
    using step by (auto simp: worker_step_simps receive_eq_Some_iff)
  note ok = worker_invD(1) [OF inv] and shape = worker_invD(2) [OF inv]
  note bound = worker_invD(4) [OF inv] and balance = worker_invD(5) [OF inv]
  have ok': "poller_ok (ws_poller t)"
    using on_message_poller_ok [OF m] ok t by simp
  have max: "jp_max_jobs_active p = jp_max_jobs_active (ws_poller s)"
    using on_message_frame [OF m] by simp
  from m show ?thesis
  proof (cases rule: on_message_cases)
    case (arrived n)
    have "unat (jp_remaining (ws_poller s)) + unat n \<le> unat (jp_max_jobs_active (ws_poller s))"
      using announced_le_promised [of m s] q arrived bound by simp
    then have add: "unat (jp_remaining p) = unat (jp_remaining (ws_poller s)) + unat n"
      using arrived ok by (simp add: unat_u32_saturating_add poller_ok_def)
    show ?thesis
    proof (rule worker_invI)
      show "request_shape (jp_request_in_progress (ws_poller t)) (ws_tasks t)
          (control_messages (ws_poll_queue t))"
        using shape arrived q t by (simp add: request_shape_arrived)
      show "phase_ok a" if "a \<in> set (ws_tasks t)" for a
        using that worker_invD(3) [OF inv] arrived t by simp
      show "unat (jp_remaining (ws_poller t)) + promised t \<le>
          unat (jp_max_jobs_active (ws_poller t))"
        using bound add max arrived q t by (simp add: promised_def)
      show "accounts_balance t"
        using balance add arrived q t by (simp add: count_defs)
    qed (rule ok')
  next
    case finished
    have sub: "unat (jp_remaining p) = unat (jp_remaining (ws_poller s)) - 1"
      using finished by (simp add: unat_u32_saturating_sub)
    show ?thesis
    proof (rule worker_invI)
      show "request_shape (jp_request_in_progress (ws_poller t)) (ws_tasks t)
          (control_messages (ws_poll_queue t))"
        using shape finished q t by simp
      show "phase_ok a" if "a \<in> set (ws_tasks t)" for a
        using that worker_invD(3) [OF inv] finished t by simp
      show "unat (jp_remaining (ws_poller t)) + promised t \<le>
          unat (jp_max_jobs_active (ws_poller t))"
        using bound sub max finished q t by (simp add: promised_def)
      show "accounts_balance t"
        using balance sub finished q t
        by (cases "jp_remaining (ws_poller s) = 0") (auto simp: count_defs simp flip: unat_gt_0)
    qed (rule ok')
  next
    case complete
    show ?thesis
    proof (rule worker_invI)
      show "request_shape (jp_request_in_progress (ws_poller t)) (ws_tasks t)
          (control_messages (ws_poll_queue t))"
        using shape complete q t
        by simp (use request_shape_complete request_shape_idle_iff in blast)
      show "phase_ok a" if "a \<in> set (ws_tasks t)" for a
        using that worker_invD(3) [OF inv] complete t by simp
      show "unat (jp_remaining (ws_poller t)) + promised t \<le>
          unat (jp_max_jobs_active (ws_poller t))"
        using bound max complete q t by (simp add: promised_def)
      show "accounts_balance t"
        using balance complete q t by (simp add: count_defs)
    qed (rule ok')
  next
    case ignored
    with shape q show ?thesis by (simp add: request_shape_no_fetch)
  next
    case (activated r)
    with shape q show ?thesis by (simp add: request_shape_no_fetch)
  qed
qed

text \<open>The steps of the task that performs a request.\<close>

lemma set_phase_simps [simp]:
  "ws_poller (set_phase i phase s) = ws_poller s"
  "ws_poll_queue (set_phase i phase s) = ws_poll_queue s"
  "ws_job_queue (set_phase i phase s) = ws_job_queue s"
  "ws_handling (set_phase i phase s) = ws_handling s"
  "ws_reporting (set_phase i phase s) = ws_reporting s"
  "ws_requests (set_phase i phase s) = ws_requests s"
  "ws_delivered (set_phase i phase s) = ws_delivered s"
  "ws_started (set_phase i phase s) = ws_started s"
  "ws_finished (set_phase i phase s) = ws_finished s"
  "ws_lost (set_phase i phase s) = ws_lost s"
  "ws_clipped (set_phase i phase s) = ws_clipped s"
  "ws_tasks (set_phase i phase s) =
     (ws_tasks s)[i := Activation (at_request (ws_tasks s ! i)) phase]"
  by (simp_all add: set_phase_def)

lemma honest_batch:
  assumes "honest_gateway cfg" "wc_gateway cfg r (unat n) jobs"
  shows "unat (n + usize_as_u32 (length jobs)) = unat n + length jobs"
    and "unat n + length jobs \<le> requested r"
proof -
  show le: "unat n + length jobs \<le> requested r"
    using assms by (simp add: honest_gateway_def)
  have "requested r < 2 ^ 32"
    using sint_lt [of "ajr_max_jobs_to_activate r"] by (simp add: requested_def nat_less_iff)
  with le have "unat n + length jobs < 2 ^ 32" by linarith
  then show "unat (n + usize_as_u32 (length jobs)) = unat n + length jobs"
    by (simp add: usize_as_u32_def unat_word_ariths unat_of_nat)
qed

lemma worker_inv_task_step:
  assumes inv: "worker_inv s" and honest: "honest_gateway cfg" and step: "worker_step cfg s e t"
    and e: "e \<in> {CallReturned i, CallFailed i, BatchArrived i jobs, SendJob i, BatchDone i,
      StreamEnded i, TimeOut i}"
  shows "worker_inv t"
  using step
proof cases
  case (call_returned i r)
  note task = worker_inv_task [OF inv call_returned(3)]
  show ?thesis
    by (rule worker_inv_set_phase [OF inv call_returned(3), where phase' = "Streaming 0"])
      (use call_returned task in \<open>simp_all add: outstanding_def\<close>)
next
  case (call_failed i r)
  note task = worker_inv_task [OF inv call_failed(3)]
  show ?thesis
    by (rule worker_inv_set_phase [OF inv call_failed(3), where phase' = Completing])
      (use call_failed task in \<open>simp_all add: outstanding_def\<close>)
next
  case (batch_arrived i r n js)
  note task = worker_inv_task [OF inv batch_arrived(3)]
  show ?thesis
    by (rule worker_inv_set_phase [OF inv batch_arrived(3),
          where phase' = "Sending (n + usize_as_u32 (length js)) js"])
      (use batch_arrived task honest_batch [OF honest batch_arrived(4)]
        in \<open>simp_all add: outstanding_def\<close>)
next
  case (send_job i r n j js)
  note task = worker_inv_task [OF inv send_job(3)]
  obtain k where k: "unat n = Suc (length js) + k"
    using task(5) by (auto simp: le_iff_add)
  show ?thesis
    by (rule worker_inv_set_phase [OF inv send_job(3), where phase' = "Sending n js"])
      (use send_job task k in \<open>simp_all add: outstanding_def\<close>)
next
  case (batch_done i r n)
  note task = worker_inv_task [OF inv batch_done(3)]
  show ?thesis
    by (rule worker_inv_set_phase [OF inv batch_done(3), where phase' = "Streaming n"])
      (use batch_done task in \<open>simp_all add: outstanding_def\<close>)
next
  case (stream_ended i r n)
  note task = worker_inv_task [OF inv stream_ended(3)]
  show ?thesis
    by (rule worker_inv_set_phase [OF inv stream_ended(3), where phase' = "Announcing n"])
      (use stream_ended task in \<open>simp_all add: outstanding_def\<close>)
next
  case (time_out i r phase)
  note task = worker_inv_task [OF inv time_out(3)]
  show ?thesis
    by (rule worker_inv_set_phase [OF inv time_out(3), where phase' = Completing])
      (use time_out task in \<open>simp_all add: outstanding_def\<close>)
qed (use e in simp_all)

lemma worker_inv_queue_step:
  assumes inv: "worker_inv s" and step: "worker_step cfg s e t"
    and e: "e = Announce i \<or> e = Complete i"
  shows "worker_inv t"
  using step
proof cases
  case (announce i r n)
  note task = worker_inv_task [OF inv announce(3)]
  show ?thesis
    by (rule worker_inv_send_end [OF inv announce(3), where n = n and m = "JobsArrived n" and
          ts = "[Activation r Completing]"])
      (use announce task in \<open>simp_all add: set_phase_def\<close>)
next
  case (complete i r)
  note task = worker_inv_task [OF inv complete(3)]
  show ?thesis
    by (rule worker_inv_send_end [OF inv complete(3), where m = FetchJobsComplete and ts = "[]"])
      (use complete task in simp_all)
qed (use e in simp_all)

lemma worker_inv_step:
  assumes "worker_inv s" "honest_gateway cfg" "worker_step cfg s e t"
  shows "worker_inv t"
proof (cases e)
  case Tick
  with assms show ?thesis by (blast intro: worker_inv_tick)
next
  case NextMessage
  with assms show ?thesis by (blast intro: worker_inv_next_message)
next
  case (Announce i)
  with assms show ?thesis by (blast intro: worker_inv_queue_step)
next
  case (Complete i)
  with assms show ?thesis by (blast intro: worker_inv_queue_step)
next
  case Dispatch
  with assms show ?thesis by (blast intro: worker_inv_dispatcher)
next
  case (HandlerDone j)
  with assms show ?thesis by (blast intro: worker_inv_dispatcher)
next
  case (ReportFinished j)
  with assms show ?thesis by (blast intro: worker_inv_dispatcher)
qed (use assms in \<open>auto intro: worker_inv_task_step\<close>)

end
