(* ===== verification/Worker_Safety.thy ===== *)
theory Worker_Safety
  imports Worker_System "HOL-Library.Multiset"
begin

text \<open>
  What holds in every reachable state of a worker: the poller's books balance, at most one request
  is open, no more jobs are active than the configured limit plus those of timed out requests, the
  channels and the dispatcher keep their bounds, and no job is lost or handled twice between the
  job queue and the poller. Each invariant is an interpretation of \<open>inductive_invariant\<close>.
\<close>

definition initial_poller :: "job_poller \<Rightarrow> bool" where
  "initial_poller p \<longleftrightarrow> poller_ok p \<and> jp_remaining p = 0 \<and> \<not> jp_request_in_progress p"

definition worker_init :: "worker_state \<Rightarrow> bool" where
  "worker_init s \<longleftrightarrow> initial_poller (ws_poller s) \<and> s = worker_start (ws_poller s)"

lemma worker_start_simps [simp]:
  "ws_poller (worker_start p) = p"
  "ws_tasks (worker_start p) = []"
  "ws_job_queue (worker_start p) = []"
  "ws_poll_queue (worker_start p) = []"
  "ws_handling (worker_start p) = []"
  "ws_reporting (worker_start p) = []"
  "ws_requests (worker_start p) = []"
  "ws_delivered (worker_start p) = []"
  "ws_started (worker_start p) = []"
  "ws_finished (worker_start p) = []"
  "ws_lost (worker_start p) = 0"
  "ws_clipped (worker_start p) = 0"
  by (simp_all add: worker_start_def)

lemma worker_init_start: "initial_poller p \<Longrightarrow> worker_init (worker_start p)"
  by (simp add: worker_init_def)

subsection \<open>Counts\<close>

interpretation counts: inductive_invariant worker_init "worker_step cfg"
    "\<lambda>s. honest_gateway cfg \<longrightarrow> worker_inv s" for cfg
proof unfold_locales
  show "honest_gateway cfg \<longrightarrow> worker_inv s" if "worker_init s" for s
    using that worker_inv_start [of "ws_poller s"]
    by (auto simp: worker_init_def initial_poller_def)
  show "honest_gateway cfg \<longrightarrow> worker_inv t"
    if "honest_gateway cfg \<longrightarrow> worker_inv s" "worker_step cfg s e t" for s e t
    using that by (blast intro: worker_inv_step)
qed

lemma reachable_worker_inv:
  "initial_poller p \<Longrightarrow> honest_gateway cfg \<Longrightarrow> run (worker_step cfg) (worker_start p) es s \<Longrightarrow>
   worker_inv s"
  using counts.inv_reachable [OF worker_init_start] by blast

lemma unannounced_le_promised:
  assumes "worker_inv s"
  shows "unannounced s \<le> promised s"
proof -
  have "phase_unannounced (at_phase a) \<le> task_budget a" if "a \<in> set (ws_tasks s)" for a
    using worker_invD(3) [OF assms that]
    by (cases a rule: phase_ok.cases) auto
  then show ?thesis
    unfolding unannounced_def promised_def by (intro add_right_mono sum_list_mono) auto
qed

subsection \<open>Requests\<close>

definition request_inv :: "worker_state \<Rightarrow> bool" where
  "request_inv s \<longleftrightarrow>
     request_shape (jp_request_in_progress (ws_poller s)) (ws_tasks s)
       (control_messages (ws_poll_queue s))"

lemma request_shape_task_at:
  assumes "request_shape f (ws_tasks s) c" "task_at s i r phase"
  shows "i = 0 \<and> ws_tasks s = [Activation r phase] \<and> f \<and> (phase \<noteq> Completing \<longrightarrow> c = [])"
  using assms by (cases rule: request_shape.cases) (auto simp: task_at_def)

lemma request_inv_task_step:
  assumes "request_inv s" "task_at s i r phase" "phase \<noteq> Completing"
    and "ws_poller t = ws_poller s" "ws_poll_queue t = ws_poll_queue s"
      "ws_tasks t = (ws_tasks s)[i := Activation (at_request (ws_tasks s ! i)) phase']"
  shows "request_inv t"
  using request_shape_task_at [OF assms(1) [unfolded request_inv_def] assms(2)] assms
  by (auto simp: request_inv_def intro: request_shape_phase)

lemma request_inv_receive:
  assumes "request_inv s" "receive m s' = Some t"
    and "m = FetchJobs \<and> s' = s \<or> ws_poll_queue s = m # ms \<and> s' = s\<lparr>ws_poll_queue := ms\<rparr>"
  shows "request_inv t"
proof -
  have same: "ws_poller s' = ws_poller s" "ws_tasks s' = ws_tasks s"
    using assms(3) by auto
  obtain p spawned where m: "on_message (ws_poller s) m = Some (p, spawned)"
    and t: "ws_poller t = p" "ws_poll_queue t = ws_poll_queue s'"
      "ws_tasks t = ws_tasks s @ (case spawned of None \<Rightarrow> [] | Some r \<Rightarrow> [Activation r Calling])"
    using assms(2) same by (auto simp: receive_eq_Some_iff)
  note inv = assms(1) [unfolded request_inv_def]
  from m show ?thesis
  proof (cases rule: on_message_cases)
    case activated
    then have "jp_request_in_progress p"
      by (auto dest: activate_jobs_frame)
    with activated inv assms(3) t show ?thesis
      by (auto simp: request_inv_def should_activate_jobs_def request_shape_no_fetch
          intro: request_shape.intros)
  next
    case (arrived n)
    with inv assms(3) t show ?thesis
      by (auto simp: request_inv_def intro: request_shape_arrived)
  next
    case complete
    with inv assms(3) t show ?thesis
      by (auto simp: request_inv_def simp del: request_shape_idle_iff intro: request_shape_complete)
  qed (use inv assms(3) t in \<open>auto simp: request_inv_def request_shape_no_fetch\<close>)
qed

lemma request_inv_announce:
  assumes "request_inv s" "task_at s i r (Announcing n)"
  shows "request_inv (set_phase i Completing (s\<lparr>ws_poll_queue := ws_poll_queue s @ [JobsArrived n]\<rparr>))"
proof -
  have "i = 0" "ws_tasks s = [Activation r (Announcing n)]"
    using request_shape_task_at [OF assms(1) [unfolded request_inv_def] assms(2)] by blast+
  with assms(1) show ?thesis
    by (simp add: request_inv_def request_shape_push_arrived [where phase = "Announcing n"])
qed

lemma request_inv_complete:
  assumes "request_inv s" "task_at s i r Completing"
  shows "request_inv (s\<lparr>ws_tasks := take i (ws_tasks s) @ drop (Suc i) (ws_tasks s),
      ws_poll_queue := ws_poll_queue s @ [FetchJobsComplete]\<rparr>)"
proof -
  have "i = 0" "ws_tasks s = [Activation r Completing]"
    using request_shape_task_at [OF assms(1) [unfolded request_inv_def] assms(2)] by blast+
  with assms(1) show ?thesis
    by (simp add: request_inv_def request_shape_push_complete)
qed

lemma request_inv_step: "request_inv s \<Longrightarrow> worker_step cfg s e t \<Longrightarrow> request_inv t"
  by (erule worker_step.cases)
    (auto intro: request_inv_task_step request_inv_receive request_inv_announce
      request_inv_complete, auto simp: request_inv_def)

lemma worker_init_simps:
  assumes "worker_init s"
  shows "ws_tasks s = []" "ws_job_queue s = []" "ws_poll_queue s = []" "ws_handling s = []"
    "ws_reporting s = []" "ws_requests s = []" "ws_delivered s = []" "ws_started s = []"
    "ws_finished s = []" "\<not> jp_request_in_progress (ws_poller s)" "poller_ok (ws_poller s)"
  using assms worker_start_simps [of "ws_poller s"]
  unfolding worker_init_def initial_poller_def by metis+

interpretation requests: inductive_invariant worker_init "worker_step cfg" request_inv for cfg
  by unfold_locales (simp add: request_inv_def worker_init_simps, rule request_inv_step)

lemma reachable_request_inv:
  "initial_poller p \<Longrightarrow> run (worker_step cfg) (worker_start p) es s \<Longrightarrow> request_inv s"
  using requests.inv_reachable [OF worker_init_start] by blast

text \<open>The requests a worker has made, which never ask for nothing or for more than the limit.\<close>

definition request_log_inv :: "worker_state \<Rightarrow> bool" where
  "request_log_inv s \<longleftrightarrow>
     poller_ok (ws_poller s) \<and>
     (\<forall>r \<in> set (ws_requests s). 1 \<le> requested r \<and>
        requested r \<le> unat (jp_max_jobs_active (ws_poller s)))"

lemma on_message_requested:
  assumes "poller_ok p" "on_message p m = Some (p', Some r)"
  shows "1 \<le> requested r \<and> requested r \<le> unat (jp_max_jobs_active p)"
proof -
  note r = on_message_request [OF assms]
  have lt: "unat (jp_remaining p) < unat (jp_max_jobs_active p)"
    using requested_jobs(2) [OF assms(1)] r by (simp add: word_less_nat_alt)
  then have "sint (ajr_max_jobs_to_activate r) =
      int (unat (jp_max_jobs_active p) - unat (jp_remaining p))"
    using r by (simp only: of_nat_diff less_imp_le)
  then have "requested r = unat (jp_max_jobs_active p) - unat (jp_remaining p)"
    by (simp only: requested_def nat_int)
  with lt show ?thesis by simp
qed

lemma request_log_inv_receive:
  assumes "request_log_inv s" "receive m s = Some t"
  shows "request_log_inv t"
proof -
  obtain p spawned where m: "on_message (ws_poller s) m = Some (p, spawned)"
    and t: "ws_poller t = p"
      "ws_requests t = ws_requests s @ (case spawned of None \<Rightarrow> [] | Some r \<Rightarrow> [r])"
    using assms(2) by (auto simp: receive_eq_Some_iff)
  have ok: "poller_ok (ws_poller s)" "poller_ok p"
    "jp_max_jobs_active p = jp_max_jobs_active (ws_poller s)"
    using assms(1) on_message_poller_ok [OF m] on_message_frame [OF m]
    by (simp_all add: request_log_inv_def)
  with assms(1) t m show ?thesis
    by (cases spawned) (auto simp: request_log_inv_def dest: on_message_requested)
qed

lemma request_log_inv_step: "request_log_inv s \<Longrightarrow> worker_step cfg s e t \<Longrightarrow> request_log_inv t"
proof (erule worker_step.cases)
  fix s' m ms t'
  assume "request_log_inv s" "s = s'" "t = t'" "receive m (s'\<lparr>ws_poll_queue := ms\<rparr>) = Some t'"
  moreover from this have "request_log_inv (s'\<lparr>ws_poll_queue := ms\<rparr>)"
    by (simp add: request_log_inv_def)
  ultimately show "request_log_inv t"
    by (blast intro: request_log_inv_receive)
qed (auto intro: request_log_inv_receive, auto simp: request_log_inv_def)

interpretation request_log: inductive_invariant worker_init "worker_step cfg" request_log_inv for cfg
  by unfold_locales (simp add: request_log_inv_def worker_init_simps, rule request_log_inv_step)

subsection \<open>Capacities\<close>

definition capacity_inv :: "worker_config \<Rightarrow> worker_state \<Rightarrow> bool" where
  "capacity_inv cfg s \<longleftrightarrow>
     length (ws_job_queue s) \<le> wc_job_queue_capacity cfg \<and>
     length (ws_poll_queue s) \<le> wc_poll_queue_capacity cfg \<and>
     (wc_concurrency cfg = 0 \<or>
      length (ws_handling s) + length (ws_reporting s) \<le> wc_concurrency cfg)"

lemma receive_frame:
  "receive m s = Some t \<Longrightarrow>
   ws_job_queue t = ws_job_queue s \<and> ws_poll_queue t = ws_poll_queue s \<and>
   ws_handling t = ws_handling s \<and> ws_reporting t = ws_reporting s \<and>
   ws_delivered t = ws_delivered s \<and> ws_started t = ws_started s \<and>
   ws_finished t = ws_finished s \<and> ws_lost t = ws_lost s"
  by (auto simp: receive_eq_Some_iff)

lemma capacity_inv_step: "capacity_inv cfg s \<Longrightarrow> worker_step cfg s e t \<Longrightarrow> capacity_inv cfg t"
  by (erule worker_step.cases)
    (auto simp: capacity_inv_def job_queue_has_room_def poll_queue_has_room_def
      dispatcher_has_room_def dest!: receive_frame length_remove1_Suc)

interpretation capacity: inductive_invariant worker_init "worker_step cfg" "capacity_inv cfg" for cfg
  by unfold_locales (simp add: capacity_inv_def worker_init_simps, rule capacity_inv_step)

subsection \<open>The flow of jobs\<close>

definition flow_inv :: "worker_state \<Rightarrow> bool" where
  "flow_inv s \<longleftrightarrow>
     ws_delivered s = ws_started s @ ws_job_queue s \<and>
     mset (ws_started s) = mset (ws_handling s) + mset (ws_reporting s) + mset (ws_finished s)"

lemma flow_inv_step: "flow_inv s \<Longrightarrow> worker_step cfg s e t \<Longrightarrow> flow_inv t"
  by (erule worker_step.cases) (auto simp: flow_inv_def dest!: receive_frame)

interpretation flow: inductive_invariant worker_init "worker_step cfg" flow_inv for cfg
  by unfold_locales (simp add: flow_inv_def worker_init_simps, rule flow_inv_step)

subsection \<open>A run to apply the properties to\<close>

text \<open>
  The default worker with a gateway that delivers no more than it is asked for: it makes a request
  (18 seconds of long polling), gets one batch of two jobs, queues both and starts the first; its
  handler returns and reports, and the poller counts that before the request has announced its
  jobs.
\<close>

definition example_worker_config :: worker_config where
  "example_worker_config =
     \<lparr>wc_job_queue_capacity = 32, wc_poll_queue_capacity = 32, wc_concurrency = 4,
      wc_gateway = (\<lambda>r n js. n + length js \<le> requested r)\<rparr>"

definition example_job :: "i64 \<Rightarrow> activated_job" where
  "example_job key =
     \<lparr>aj_key = key, aj_type = ''payment-service'', aj_process_instance_key = 7,
      aj_bpmn_process_id = ''order-process'', aj_process_definition_version = 1,
      aj_process_definition_key = 3, aj_element_id = ''task'', aj_element_instance_key = 9,
      aj_custom_headers = ''{}'', aj_worker = ''default'', aj_retries = 3, aj_deadline = 0,
      aj_variables = ''{}''\<rparr>"

definition example_request :: activate_jobs_request where
  "example_request = (jp_request example_poller)\<lparr>ajr_request_timeout := 18000\<rparr>"

definition example_polling :: job_poller where
  "example_polling =
     example_poller\<lparr>jp_request := example_request, jp_request_in_progress := True\<rparr>"

definition example_events :: "worker_event list" where
  "example_events =
     [Tick, CallReturned 0, BatchArrived 0 [example_job 1, example_job 2], SendJob 0, SendJob 0,
      Dispatch, HandlerDone (example_job 1), ReportFinished (example_job 1), NextMessage]"

definition example_state :: worker_state where
  "example_state =
     \<lparr>ws_poller = example_polling, ws_tasks = [Activation example_request (Sending 2 [])],
      ws_job_queue = [example_job 2], ws_poll_queue = [], ws_handling = [], ws_reporting = [],
      ws_requests = [example_request], ws_delivered = [example_job 1, example_job 2],
      ws_started = [example_job 1], ws_finished = [example_job 1], ws_lost = 0, ws_clipped = 1\<rparr>"

lemma example_honest: "honest_gateway example_worker_config"
  by (simp add: honest_gateway_def example_worker_config_def)

lemma example_initial: "initial_poller example_poller"
  using example_poller_ok by (simp add: initial_poller_def example_poller_def)

lemma example_request_sent:
  "on_message example_poller FetchJobs = Some (example_polling, Some example_request)"
  by (simp add: example_poller_def example_polling_def example_request_def
      should_activate_jobs_def activate_jobs_def default_long_polling u32_as_i32_def Let_def)

lemma example_requested: "requested example_request = 32"
  by (simp add: example_request_def example_poller_def requested_def)

lemma example_run:
  "run (worker_step example_worker_config) (worker_start example_poller) example_events example_state"
proof -
  have clipped: "on_message example_polling JobFinished = Some (example_polling, None)"
    by (simp add: example_polling_def example_poller_def u32_saturating_sub_def)
  have zero: "jp_remaining example_polling = 0"
    by (simp add: example_polling_def example_poller_def)
  show ?thesis
    by (simp add: example_events_def run_Cons_iff worker_step_simps receive_eq_Some_iff
        example_request_sent example_requested clipped zero task_at_def set_phase_def
        worker_start_def example_worker_config_def job_queue_has_room_def poll_queue_has_room_def
        dispatcher_has_room_def usize_as_u32_def example_state_def del: on_message.simps)
qed

subsection \<open>The properties\<close>

lemma request_shape_count:
  "request_shape f ts c \<Longrightarrow> length ts + count_list c FetchJobsComplete = of_bool f"
  by (induction rule: request_shape.induct) simp_all

lemma count_control [simp]:
  "count_list (control_messages q) FetchJobsComplete = count_list q FetchJobsComplete"
  by (induction q) (auto simp: control_messages_def)

text \<open>
  C13: At most one request is open at any time: in every reachable state, whatever the gateway, the
  handlers and the timers do, the number of running request tasks plus the number of completion
  messages still in the queue is one while the poller's \<open>request_in_progress\<close> is set, and zero
  otherwise.
\<close>

theorem one_request_at_a_time:
  assumes "initial_poller p" "run (worker_step cfg) (worker_start p) es s"
  shows "length (ws_tasks s) + count_list (ws_poll_queue s) FetchJobsComplete =
    of_bool (jp_request_in_progress (ws_poller s))"
  using request_shape_count [OF reachable_request_inv [OF assms, unfolded request_inv_def]]
  by simp

theorem one_request_at_a_time_witness:
  "length (ws_tasks example_state) + count_list (ws_poll_queue example_state) FetchJobsComplete = 1"
  using one_request_at_a_time [OF example_initial example_run]
  by (simp add: example_state_def example_polling_def)

text \<open>
  C12: The poller's books balance: in every reachable state of a worker whose gateway delivers at
  most what it is asked for, the poller's \<open>remaining\<close>, plus the delivered jobs it has not been told
  of, plus the jobs of requests that timed out before announcing them, equals the jobs that are
  queued, running or whose completion message is under way, plus the completion messages that
  arrived while \<open>remaining\<close> was zero.
\<close>

theorem poller_accounts_balance:
  assumes "initial_poller p" "honest_gateway cfg"
    and "run (worker_step cfg) (worker_start p) es s"
  shows "unat (jp_remaining (ws_poller s)) + unannounced s + ws_lost s =
    outstanding s + ws_clipped s"
  by (rule worker_invD(5) [OF reachable_worker_inv [OF assms]])

theorem poller_accounts_balance_witness:
  "unannounced example_state = 2 \<and> outstanding example_state = 1 \<and>
   unat (jp_remaining (ws_poller example_state)) + unannounced example_state +
     ws_lost example_state = outstanding example_state + ws_clipped example_state"
  using poller_accounts_balance [OF example_initial example_honest example_run]
  by (simp add: example_state_def unannounced_def outstanding_def)

lemma receive_max_jobs_active:
  assumes "receive m s = Some t"
  shows "jp_max_jobs_active (ws_poller t) = jp_max_jobs_active (ws_poller s)"
proof -
  obtain p spawned where "on_message (ws_poller s) m = Some (p, spawned)" "ws_poller t = p"
    using assms by (auto simp: receive_eq_Some_iff)
  then show ?thesis by (auto dest: on_message_frame)
qed

lemma run_max_jobs_active:
  "run (worker_step cfg) s es t \<Longrightarrow>
   jp_max_jobs_active (ws_poller t) = jp_max_jobs_active (ws_poller s)"
proof (induction rule: run.induct)
  case (run_step s e t es u)
  have "jp_max_jobs_active (ws_poller t) = jp_max_jobs_active (ws_poller s)"
    using run_step(1)
    by (cases rule: worker_step.cases) (auto dest: receive_max_jobs_active)
  with run_step show ?case by simp
qed simp

text \<open>
  The limit on active jobs: in every reachable state of a worker whose gateway delivers at most
  what it is asked for, the jobs that are queued, running or being reported are at most
  \<open>max_jobs_active\<close> plus the jobs delivered by requests that the client timed out before they
  announced them; without such timeouts the limit holds exactly.
\<close>

lemma active_jobs_limit:
  assumes "initial_poller p" "honest_gateway cfg"
    and "run (worker_step cfg) (worker_start p) es s"
  shows "length (ws_job_queue s) + length (ws_handling s) + length (ws_reporting s) \<le>
    unat (jp_max_jobs_active p) + ws_lost s"
proof -
  note inv = reachable_worker_inv [OF assms]
  have "unat (jp_remaining (ws_poller s)) + unannounced s \<le> unat (jp_max_jobs_active (ws_poller s))"
    using worker_invD(4) [OF inv] unannounced_le_promised [OF inv] by simp
  with worker_invD(5) [OF inv] run_max_jobs_active [OF assms(3)] show ?thesis
    by (simp add: outstanding_def)
qed

text \<open>
  Every request of a worker asks the gateway for at least one job and for at most
  \<open>max_jobs_active\<close>, so none is rejected for asking for less than one.
\<close>

lemma requests_within_limits:
  assumes "initial_poller p" "run (worker_step cfg) (worker_start p) es s"
    and "r \<in> set (ws_requests s)"
  shows "1 \<le> sint (ajr_max_jobs_to_activate r) \<and>
    requested r \<le> unat (jp_max_jobs_active p)"
proof -
  have "request_log_inv s"
    using request_log.inv_reachable [OF worker_init_start] assms(1,2) by blast
  with assms(2,3) have "1 \<le> requested r" "requested r \<le> unat (jp_max_jobs_active p)"
    by (auto simp: request_log_inv_def dest: run_max_jobs_active)
  then show ?thesis by (simp add: requested_def)
qed

text \<open>
  The channels and the dispatcher keep their bounds in every reachable state: no queue holds
  more than its capacity, and if a concurrency limit is set, no more jobs than that are being
  handled or reported.
\<close>

lemma worker_capacities:
  assumes "initial_poller p" "run (worker_step cfg) (worker_start p) es s"
  shows "length (ws_job_queue s) \<le> wc_job_queue_capacity cfg \<and>
    length (ws_poll_queue s) \<le> wc_poll_queue_capacity cfg \<and>
    (0 < wc_concurrency cfg \<longrightarrow>
       length (ws_handling s) + length (ws_reporting s) \<le> wc_concurrency cfg)"
  using capacity.inv_reachable [OF worker_init_start [OF assms(1)] assms(2)]
  by (auto simp: capacity_inv_def)

text \<open>
  C28: The dispatcher loses, duplicates and reorders no job: in every reachable state the jobs put
  into the job queue are, in this order, those handed to the handler and those still queued; and
  each job handed to the handler is exactly once running, being reported or reported as finished.
\<close>

theorem jobs_handled_exactly_once:
  assumes "initial_poller p" "run (worker_step cfg) (worker_start p) es s"
  shows "ws_delivered s = ws_started s @ ws_job_queue s \<and>
    mset (ws_started s) = mset (ws_handling s) + mset (ws_reporting s) + mset (ws_finished s)"
  using flow.inv_reachable [OF worker_init_start [OF assms(1)] assms(2)]
  by (simp add: flow_inv_def)

theorem jobs_handled_exactly_once_witness:
  "[example_job 1, example_job 2] = ws_started example_state @ ws_job_queue example_state \<and>
   mset (ws_started example_state) =
     mset (ws_handling example_state) + mset (ws_reporting example_state) +
     mset (ws_finished example_state)"
  using jobs_handled_exactly_once [OF example_initial example_run]
  by (simp add: example_state_def)

end
