(* ===== verification/Worker_Liveness.thy ===== *)
theory Worker_Liveness
  imports Worker_Safety
begin

text \<open>
  What a worker can and cannot always do: a request is always finished in the end, a worker that
  counts few enough jobs asks for more at the next poll interval, and the two ways in which the
  counting of the poller goes wrong, with the runs that lead there: completion messages that
  overtake the announcement of their jobs make the worker stall for ever, and requests that time
  out after delivering jobs make it exceed its limit.
\<close>

subsection \<open>Idle and stalled workers\<close>

definition idle :: "worker_state \<Rightarrow> bool" where
  "idle s \<longleftrightarrow>
     ws_tasks s = [] \<and> ws_job_queue s = [] \<and> ws_poll_queue s = [] \<and> ws_handling s = [] \<and>
     ws_reporting s = [] \<and> \<not> jp_request_in_progress (ws_poller s)"

definition stalled :: "worker_state \<Rightarrow> bool" where
  "stalled s \<longleftrightarrow> idle s \<and> jp_threshold (ws_poller s) < jp_remaining (ws_poller s)"

lemma dispatcher_has_room_empty [simp]:
  "ws_handling s = [] \<Longrightarrow> ws_reporting s = [] \<Longrightarrow> dispatcher_has_room cfg s"
  by (auto simp: dispatcher_has_room_def)

lemma receive_ignored_tick:
  assumes "\<not> should_activate_jobs (ws_poller s)"
  shows "receive FetchJobs s = Some s"
  using assms by (cases s) (simp add: receive_eq_Some_iff)

lemma stalled_step: "stalled s \<Longrightarrow> worker_step cfg s e t \<Longrightarrow> t = s"
proof -
  assume s: "stalled s" and "worker_step cfg s e t"
  then have "receive FetchJobs s = Some s"
    by (intro receive_ignored_tick) (auto simp: stalled_def should_activate_jobs_def)
  with s \<open>worker_step cfg s e t\<close> show "t = s"
    by (elim worker_step.cases) (auto simp: stalled_def idle_def task_at_def)
qed

lemma stalled_run: "run (worker_step cfg) s es t \<Longrightarrow> stalled s \<Longrightarrow> t = s"
  by (induction rule: run.induct) (auto dest: stalled_step)

subsection \<open>The run that stalls\<close>

text \<open>
  A worker that was idle in the state \<open>s\<close> and is in the middle of a batch, of which it has finished the
  jobs \<open>done\<close> and holds none.
\<close>

definition sending :: "worker_state \<Rightarrow> job_poller \<Rightarrow> activate_jobs_request \<Rightarrow> u32 \<Rightarrow> activated_job list
    \<Rightarrow> activated_job list \<Rightarrow> nat \<Rightarrow> worker_state" where
  "sending s p r n js done clipped =
     s\<lparr>ws_poller := p, ws_tasks := [Activation r (Sending n js)], ws_requests := ws_requests s @ [r],
       ws_delivered := ws_delivered s @ done, ws_started := ws_started s @ done,
       ws_finished := ws_finished s @ done, ws_clipped := ws_clipped s + clipped\<rparr>"

definition overtake_one :: "activated_job \<Rightarrow> worker_event list" where
  "overtake_one j = [SendJob 0, Dispatch, HandlerDone j, ReportFinished j, NextMessage]"

definition stalling_run :: "activated_job list \<Rightarrow> worker_event list" where
  "stalling_run jobs =
     [Tick, CallReturned 0, BatchArrived 0 jobs] @ concat (map overtake_one jobs) @
     [BatchDone 0, StreamEnded 0, Announce 0, NextMessage, Complete 0, NextMessage]"

lemma idleD:
  assumes "idle s"
  shows "ws_tasks s = []" "ws_job_queue s = []" "ws_poll_queue s = []" "ws_handling s = []"
    "ws_reporting s = []" "jp_request_in_progress (ws_poller s) = False"
  using assms by (simp_all add: idle_def)

text \<open>The poller after \<open>k\<close> completions: the count stops at zero.\<close>

definition counted_down :: "job_poller \<Rightarrow> nat \<Rightarrow> job_poller" where
  "counted_down p k = p\<lparr>jp_remaining := of_nat (unat (jp_remaining p) - k)\<rparr>"

lemma counted_down_0 [simp]: "counted_down p 0 = p"
  by (simp add: counted_down_def)

lemma unat_u32_less: "unat (n :: u32) < 4294967296"
  using unsigned_less [where w = n and 'a = nat] by simp

lemma unat_counted_down [simp]: "unat (jp_remaining (counted_down p k)) = unat (jp_remaining p) - k"
  using unat_u32_less [of "jp_remaining p"] by (simp add: counted_down_def unat_of_nat)

lemma counted_down_frame [simp]:
  "jp_threshold (counted_down p k) = jp_threshold p"
  "jp_max_jobs_active (counted_down p k) = jp_max_jobs_active p"
  by (simp_all add: counted_down_def)

lemma finished_counts_down: "on_message (counted_down p k) JobFinished = Some (counted_down p (Suc k), None)"
proof -
  have "u32_saturating_sub (jp_remaining (counted_down p k)) 1 = jp_remaining (counted_down p (Suc k))"
    by (rule word_unat_eq_iff [THEN iffD2]) (simp add: unat_u32_saturating_sub)
  then show ?thesis
    by (simp add: counted_down_def)
qed

lemma run_overtake_one:
  assumes "idle s" "0 < wc_job_queue_capacity cfg" "0 < wc_poll_queue_capacity cfg"
  shows "run (worker_step cfg) (sending s (counted_down p i) r n (j # js) done k) (overtake_one j)
    (sending s (counted_down p (Suc i)) r n js (done @ [j])
       (k + of_bool (jp_remaining (counted_down p i) = 0)))"
  using assms(2,3) idleD [OF assms(1)]
  by (simp add: overtake_one_def sending_def run_Cons_iff worker_step_simps task_at_def
      set_phase_def receive_eq_Some_iff finished_counts_down job_queue_has_room_def
      poll_queue_has_room_def del: on_message.simps)

text \<open>Completions that find the count at zero are lost.\<close>

lemma run_overtake_all:
  assumes "idle s" "0 < wc_job_queue_capacity cfg" "0 < wc_poll_queue_capacity cfg"
  shows "run (worker_step cfg) (sending s (counted_down p i) r n js done k) (concat (map overtake_one js))
    (sending s (counted_down p (i + length js)) r n [] (done @ js)
       (k + (length js - (unat (jp_remaining p) - i))))"
proof (induction js arbitrary: "done" i k)
  case (Cons j js)
  have zero: "jp_remaining (counted_down p i) = 0 \<longleftrightarrow> unat (jp_remaining p) \<le> i"
    by (simp add: word_unat_eq_iff)
  have "k + of_bool (jp_remaining (counted_down p i) = 0) + (length js - (unat (jp_remaining p) - Suc i)) =
      k + (length (j # js) - (unat (jp_remaining p) - i))"
    by (auto simp: zero)
  note counted = this [symmetric]
  from run_append [OF run_overtake_one [OF assms] Cons [of "Suc i"]] show ?case
    unfolding counted by simp
qed simp

lemma run_request_opens:
  assumes "idle s" "on_message (ws_poller s) FetchJobs = Some (p, Some r)" "wc_gateway cfg r 0 jobs"
  shows "run (worker_step cfg) s [Tick, CallReturned 0, BatchArrived 0 jobs]
    (sending s p r (usize_as_u32 (length jobs)) jobs [] 0)"
  using assms(2,3) idleD [OF assms(1)]
  by (simp add: run_Cons_iff worker_step_simps receive_eq_Some_iff task_at_def set_phase_def
      sending_def del: on_message.simps)

lemma u32_saturating_add_zero [simp]: "u32_saturating_add 0 n = n"
  by (simp add: u32_saturating_add_def unat_u32_less)

definition quiet :: "worker_state \<Rightarrow> job_poller \<Rightarrow> activate_jobs_request \<Rightarrow> activated_job list \<Rightarrow> nat
    \<Rightarrow> worker_state" where
  "quiet s p r done clipped = (sending s p r 0 [] done clipped)\<lparr>ws_tasks := []\<rparr>"

lemma run_request_closes:
  assumes "idle s" "jp_remaining p = 0" "0 < wc_poll_queue_capacity cfg"
  shows "run (worker_step cfg) (sending s p r n [] done k)
    [BatchDone 0, StreamEnded 0, Announce 0, NextMessage, Complete 0, NextMessage]
    (quiet s (p\<lparr>jp_remaining := n, jp_request_in_progress := False\<rparr>) r done k)"
  using assms(2,3) idleD [OF assms(1)]
  by (simp add: run_Cons_iff worker_step_simps receive_eq_Some_iff task_at_def set_phase_def
      sending_def quiet_def poll_queue_has_room_def)

text \<open>The request that a poller makes which may ask for jobs.\<close>

lemma poller_asks:
  assumes "poller_ok p" "should_activate_jobs p"
  obtains p' r where "on_message p FetchJobs = Some (p', Some r)"
    "jp_remaining p' = jp_remaining p" "jp_threshold p' = jp_threshold p"
    "jp_max_jobs_active p' = jp_max_jobs_active p"
    "requested r = unat (jp_max_jobs_active p) - unat (jp_remaining p)"
proof -
  obtain p' spawned where m: "on_message p FetchJobs = Some (p', spawned)"
    using on_message_returns [OF assms(1)] by blast
  then obtain r where r: "spawned = Some r"
    using assms(2) by (cases rule: on_message_cases) auto
  note request = on_message_request [OF assms(1) m [unfolded r]]
  have "requested r = nat (int (unat (jp_max_jobs_active p)) - int (unat (jp_remaining p)))"
    using request by (simp only: requested_def)
  then have "requested r = unat (jp_max_jobs_active p) - unat (jp_remaining p)"
    by (simp only: nat_diff_distrib' nat_int of_nat_0_le_iff)
  with that [OF m [unfolded r]] request on_message_frame [OF m] show thesis
    by blast
qed

lemma initial_poller_asks:
  assumes "initial_poller p"
  obtains p' r where "on_message p FetchJobs = Some (p', Some r)"
    "jp_remaining p' = 0" "jp_threshold p' = jp_threshold p" "jp_max_jobs_active p' = jp_max_jobs_active p"
    "requested r = unat (jp_max_jobs_active p)"
proof -
  have ok: "poller_ok p" "should_activate_jobs p" "jp_remaining p = 0"
    using assms by (simp_all add: initial_poller_def should_activate_jobs_def)
  from poller_asks [OF ok(1,2)] ok(3) that show thesis by auto
qed

lemma stalling_run_stalls:
  assumes "idle s" "poller_ok (ws_poller s)"
    and "jp_remaining (ws_poller s) \<le> jp_threshold (ws_poller s)"
    and "unat (jp_threshold (ws_poller s)) < length jobs"
    and "length jobs \<le> unat (jp_max_jobs_active (ws_poller s))"
    and "\<And>r. requested r = unat (jp_max_jobs_active (ws_poller s)) - unat (jp_remaining (ws_poller s)) \<Longrightarrow>
      wc_gateway cfg r 0 jobs"
    and "0 < wc_job_queue_capacity cfg" "0 < wc_poll_queue_capacity cfg"
  obtains t where "run (worker_step cfg) s (stalling_run jobs) t" "stalled t"
    "ws_finished t = ws_finished s @ jobs" "ws_lost t = ws_lost s"
    "ws_clipped t + unat (jp_remaining (ws_poller s)) = ws_clipped s + length jobs"
proof -
  have "should_activate_jobs (ws_poller s)"
    using assms(3) idleD(6) [OF assms(1)] by (simp add: should_activate_jobs_def)
  from poller_asks [OF assms(2) this] obtain p r where r:
      "on_message (ws_poller s) FetchJobs = Some (p, Some r)"
      "jp_remaining p = jp_remaining (ws_poller s)" "jp_threshold p = jp_threshold (ws_poller s)"
      "requested r = unat (jp_max_jobs_active (ws_poller s)) - unat (jp_remaining (ws_poller s))"
    by metis
  let ?n = "usize_as_u32 (length jobs)"
  let ?p = "counted_down p (length jobs)"
  let ?t = "quiet s (?p\<lparr>jp_remaining := ?n, jp_request_in_progress := False\<rparr>) r jobs
    (length jobs - unat (jp_remaining p))"
  have "length jobs < 2 ^ 32"
    using assms(5) unat_u32_less [of "jp_max_jobs_active (ws_poller s)"] by simp
  then have n: "unat ?n = length jobs"
    by (rule unat_usize_as_u32)
  have few: "unat (jp_remaining p) \<le> length jobs"
    using assms(3,4) r(2) by (simp add: word_le_nat_alt)
  then have zero: "jp_remaining ?p = 0"
    by (simp add: word_unat_eq_iff)
  have "run (worker_step cfg) (sending s p r ?n jobs [] 0) (concat (map overtake_one jobs))
      (sending s ?p r ?n [] jobs (length jobs - unat (jp_remaining p)))"
    using run_overtake_all [OF assms(1,7,8), of p 0 r ?n jobs "[]" 0] by simp
  from run_append [OF run_request_opens [OF assms(1) r(1) assms(6) [OF r(4)]]
      run_append [OF this run_request_closes [OF assms(1) zero assms(8)]]]
  have run: "run (worker_step cfg) s (stalling_run jobs) ?t"
    by (simp add: stalling_run_def)
  have "stalled ?t"
    using assms(4) n r(3) idleD [OF assms(1)]
    by (simp add: stalled_def idle_def quiet_def sending_def word_less_nat_alt)
  show thesis
    by (rule that [OF run \<open>stalled ?t\<close>]) (use few r(2) in \<open>simp_all add: quiet_def sending_def\<close>)
qed

text \<open>
  C11: The counting of the poller can starve a worker, and any worker at any time: from every idle state
  that a worker can reach and in which it would ask for jobs, and for every batch of more jobs than
  the threshold that the gateway may deliver to that request, there is a run (the jobs of the batch
  are all handled, and counted as finished, before the request announces the batch) that ends in a
  stalled state, with all those jobs finished and nothing timed out; and of that state every further
  run changes nothing, so that the worker never asks for jobs again.
\<close>

theorem worker_can_stall:
  assumes "initial_poller p" "honest_gateway cfg" "run (worker_step cfg) (worker_start p) es s"
    and "idle s" "jp_remaining (ws_poller s) \<le> jp_threshold (ws_poller s)"
    and "unat (jp_threshold (ws_poller s)) < length jobs"
    and "\<And>r. requested r = unat (jp_max_jobs_active p) - unat (jp_remaining (ws_poller s)) \<Longrightarrow>
      wc_gateway cfg r 0 jobs"
    and "0 < wc_job_queue_capacity cfg" "0 < wc_poll_queue_capacity cfg"
  shows "\<exists>t. run (worker_step cfg) s (stalling_run jobs) t \<and> stalled t \<and>
    ws_finished t = ws_finished s @ jobs \<and> ws_lost t = ws_lost s \<and>
    (\<forall>es u. run (worker_step cfg) t es u \<longrightarrow> u = t)"
proof -
  have ok: "poller_ok (ws_poller s)"
    using worker_invD(1) [OF reachable_worker_inv [OF assms(1-3)]] .
  have max: "jp_max_jobs_active p = jp_max_jobs_active (ws_poller s)"
    using run_max_jobs_active [OF assms(3)] by simp
  have "should_activate_jobs (ws_poller s)"
    using assms(5) idleD(6) [OF assms(4)] by (simp add: should_activate_jobs_def)
  from poller_asks [OF ok this] obtain r where
      "requested r = unat (jp_max_jobs_active p) - unat (jp_remaining (ws_poller s))"
    unfolding max by blast
  with assms(2,7) have "length jobs \<le> unat (jp_max_jobs_active (ws_poller s))"
    unfolding max honest_gateway_def by fastforce
  then obtain t where "run (worker_step cfg) s (stalling_run jobs) t" "stalled t"
      "ws_finished t = ws_finished s @ jobs" "ws_lost t = ws_lost s"
    using stalling_run_stalls [OF assms(4) ok assms(5,6) _ assms(7) [unfolded max] assms(8,9)] by blast
  then show ?thesis
    using stalled_run by blast
qed

lemma example_idle: "idle (worker_start example_poller)"
  by (simp add: idle_def worker_start_def example_poller_def)

theorem worker_can_stall_witness:
  "\<exists>t. run (worker_step example_worker_config) (worker_start example_poller)
      (stalling_run (replicate 10 (example_job 1))) t \<and> stalled t"
  using worker_can_stall [OF example_initial example_honest run_none example_idle, of "replicate 10 (example_job 1)"]
  by (auto simp: worker_start_def example_poller_def example_worker_config_def)

text \<open>
  C27: A worker only stalls after completions have overtaken announcements: in a stalled state of a
  worker whose gateway is honest, more \<open>JobFinished\<close> messages than the threshold have been handled
  while \<open>remaining\<close> was zero.
\<close>

theorem stall_needs_overtaking:
  assumes "initial_poller p" "honest_gateway cfg"
    and "run (worker_step cfg) (worker_start p) es s" "stalled s"
  shows "unat (jp_threshold (ws_poller s)) < ws_clipped s"
proof -
  have "unat (jp_remaining (ws_poller s)) + ws_lost s = ws_clipped s"
    using worker_invD(5) [OF reachable_worker_inv [OF assms(1-3)]] assms(4)
    by (simp add: stalled_def idle_def unannounced_def outstanding_def)
  with assms(4) show ?thesis
    by (auto simp: stalled_def word_less_nat_alt)
qed

lemma example_stall:
  obtains t where
    "run (worker_step example_worker_config) (worker_start example_poller)
      (stalling_run (replicate 10 (example_job 1))) t"
    "stalled t" "ws_clipped t = 10"
  using stalling_run_stalls [OF example_idle, of "replicate 10 (example_job 1)" example_worker_config]
    example_poller_ok
  by (auto simp: worker_start_def example_poller_def example_worker_config_def)

theorem stall_needs_overtaking_witness:
  "\<exists>s. stalled s \<and> ws_clipped s = 10 \<and> unat (jp_threshold (ws_poller s)) < 10"
proof -
  obtain t where "run (worker_step example_worker_config) (worker_start example_poller)
      (stalling_run (replicate 10 (example_job 1))) t" "stalled t" "ws_clipped t = 10"
    by (rule example_stall)
  with stall_needs_overtaking [OF example_initial example_honest] show ?thesis
    by metis
qed


subsection \<open>Requests that time out\<close>

text \<open>A worker without a limit on concurrency that has its hands full of jobs it does not count.\<close>

definition holding :: "job_poller \<Rightarrow> activate_jobs_request list \<Rightarrow> activation list \<Rightarrow> activated_job list
    \<Rightarrow> nat \<Rightarrow> worker_state" where
  "holding p rs tasks jobs lost =
     (worker_start p)\<lparr>ws_tasks := tasks, ws_handling := jobs, ws_requests := rs,
        ws_delivered := jobs, ws_started := jobs, ws_lost := lost\<rparr>"

definition start_one :: "activated_job \<Rightarrow> worker_event list" where
  "start_one j = [SendJob 0, Dispatch]"

definition timed_out_round :: "activated_job list \<Rightarrow> worker_event list" where
  "timed_out_round jobs =
     [Tick, CallReturned 0, BatchArrived 0 jobs] @ concat (map start_one jobs) @
     [TimeOut 0, Complete 0, NextMessage]"

lemma run_start_all:
  assumes "wc_concurrency cfg = 0" "0 < wc_job_queue_capacity cfg"
  shows "run (worker_step cfg) (holding p rs [Activation r (Sending n js)] done k)
    (concat (map start_one js)) (holding p rs [Activation r (Sending n [])] (done @ js) k)"
proof (induction js arbitrary: "done")
  case (Cons j js)
  have "run (worker_step cfg) (holding p rs [Activation r (Sending n (j # js))] done k)
      (start_one j) (holding p rs [Activation r (Sending n js)] (done @ [j]) k)"
    using assms
    by (simp add: start_one_def holding_def worker_start_def run_Cons_iff worker_step_simps
        task_at_def set_phase_def job_queue_has_room_def dispatcher_has_room_def)
  from run_append [OF this Cons] show ?case by simp
qed simp

lemma run_timed_out_round:
  assumes "initial_poller p" "wc_concurrency cfg = 0"
    and "0 < wc_job_queue_capacity cfg" "0 < wc_poll_queue_capacity cfg"
    and "\<And>r. requested r = unat (jp_max_jobs_active p) \<Longrightarrow> wc_gateway cfg r 0 jobs"
  obtains p' rs' lost' where "initial_poller p'" "jp_max_jobs_active p' = jp_max_jobs_active p"
    "run (worker_step cfg) (holding p rs [] done lost) (timed_out_round jobs)
       (holding p' rs' [] (done @ jobs) lost')"
proof -
  obtain p1 r where r: "on_message p FetchJobs = Some (p1, Some r)" "jp_remaining p1 = 0"
      "jp_threshold p1 = jp_threshold p" "jp_max_jobs_active p1 = jp_max_jobs_active p"
      "requested r = unat (jp_max_jobs_active p)"
    using initial_poller_asks [OF assms(1)] by blast
  let ?n = "usize_as_u32 (length jobs)"
  let ?p = "p1\<lparr>jp_request_in_progress := False\<rparr>"
  have "poller_ok p1"
    using on_message_poller_ok [OF r(1)] assms(1) by (simp add: initial_poller_def)
  with r(2) have "initial_poller ?p"
    by (simp add: initial_poller_def poller_ok_def)
  moreover have opens: "run (worker_step cfg) (holding p rs [] done lost)
      [Tick, CallReturned 0, BatchArrived 0 jobs]
      (holding p1 (rs @ [r]) [Activation r (Sending ?n jobs)] done lost)"
    using r(1) assms(5) [OF r(5)]
    by (simp add: holding_def worker_start_def run_Cons_iff worker_step_simps receive_eq_Some_iff
        task_at_def set_phase_def del: on_message.simps)
  moreover have closes: "run (worker_step cfg) (holding p1 (rs @ [r]) [Activation r (Sending ?n [])] (done @ jobs) lost)
      [TimeOut 0, Complete 0, NextMessage]
      (holding ?p (rs @ [r]) [] (done @ jobs) (lost + unat ?n))"
    using assms(4)
    by (simp add: holding_def worker_start_def run_Cons_iff worker_step_simps receive_eq_Some_iff
        task_at_def set_phase_def poll_queue_has_room_def)
  ultimately show thesis
    using that [of ?p "rs @ [r]" "lost + unat ?n"] r(4)
      run_append [OF opens run_append [OF run_start_all [OF assms(2,3)] closes]]
    by (simp add: timed_out_round_def)
qed

text \<open>
  C26: \<open>max_jobs_active\<close> does not limit a worker that was given no limit on concurrency
  (\<open>with_concurrency(0)\<close>) and whose requests time out after delivering jobs: each such request leaves
  its jobs uncounted, so that for every \<open>n\<close> there is a run with \<open>n\<close> such requests, each for as many jobs
  as the limit, after which \<open>n\<close> batches of jobs are in the handlers, not one of them finished.
\<close>

theorem timed_out_requests_exceed_limit:
  assumes "initial_poller p" "wc_concurrency cfg = 0"
    and "0 < wc_job_queue_capacity cfg" "0 < wc_poll_queue_capacity cfg"
    and "\<And>r. requested r = unat (jp_max_jobs_active p) \<Longrightarrow> wc_gateway cfg r 0 jobs"
  shows "\<exists>t. run (worker_step cfg) (worker_start p)
      (concat (replicate n (timed_out_round jobs))) t \<and>
    length (ws_handling t) = n * length jobs \<and> ws_finished t = []"
proof -
  have "\<exists>p' rs' lost'. initial_poller p' \<and>
      run (worker_step cfg) (holding p rs [] done lost) (concat (replicate n (timed_out_round jobs)))
        (holding p' rs' [] (done @ concat (replicate n jobs)) lost')" for rs "done" lost
    using assms(1,5)
  proof (induction n arbitrary: p rs "done" lost)
    case (Suc n)
    obtain p1 rs1 lost1 where round: "initial_poller p1"
        "jp_max_jobs_active p1 = jp_max_jobs_active p"
        "run (worker_step cfg) (holding p rs [] done lost) (timed_out_round jobs)
          (holding p1 rs1 [] (done @ jobs) lost1)"
      using run_timed_out_round [OF Suc(2) assms(2-4) Suc(3)] by blast
    from Suc(1) [OF round(1), of rs1 "done @ jobs" lost1] Suc(3) round(2)
    obtain p2 rs2 lost2 where "initial_poller p2"
        "run (worker_step cfg) (holding p1 rs1 [] (done @ jobs) lost1)
          (concat (replicate n (timed_out_round jobs)))
          (holding p2 rs2 [] ((done @ jobs) @ concat (replicate n jobs)) lost2)"
      by auto
    with run_append [OF round(3)] show ?case
      by (simp, blast)
  qed auto
  from this [of "[]" "[]" 0] obtain p' rs' lost' where
      "run (worker_step cfg) (worker_start p) (concat (replicate n (timed_out_round jobs)))
        (holding p' rs' [] (concat (replicate n jobs)) lost')"
    by (auto simp: holding_def worker_start_def)
  moreover have "length (concat (replicate n jobs)) = n * length jobs"
    by (simp add: length_concat sum_list_replicate)
  ultimately show ?thesis
    by (intro exI [of _ "holding p' rs' [] (concat (replicate n jobs)) lost'"])
      (simp add: holding_def)
qed

theorem timed_out_requests_exceed_limit_witness:
  "\<exists>t. run (worker_step (example_worker_config\<lparr>wc_concurrency := 0\<rparr>)) (worker_start example_poller)
      (concat (replicate 5 (timed_out_round (replicate 32 (example_job 1))))) t \<and>
    length (ws_handling t) = 160"
  using timed_out_requests_exceed_limit [OF example_initial,
      of "example_worker_config\<lparr>wc_concurrency := 0\<rparr>" "replicate 32 (example_job 1)" 5]
  by (auto simp: example_poller_def example_worker_config_def)

subsection \<open>Progress\<close>

text \<open>
  A worker that has finished all its jobs asks for more at the next poll interval, unless more
  completions than the threshold have overtaken the announcement of their jobs; and it asks for
  all but as many jobs as there were such completions.
\<close>

lemma idle_worker_polls:
  assumes "initial_poller p" "honest_gateway cfg" "run (worker_step cfg) (worker_start p) es s"
    and "idle s" "ws_clipped s \<le> unat (jp_threshold (ws_poller s))"
  shows "\<exists>r t. worker_step cfg s Tick t \<and> ws_requests t = ws_requests s @ [r] \<and>
    ws_tasks t = [Activation r Calling] \<and>
    unat (jp_max_jobs_active (ws_poller s)) \<le> requested r + ws_clipped s"
proof -
  note inv = reachable_worker_inv [OF assms(1-3)]
  note ok = worker_invD(1) [OF inv]
  have balance: "unat (jp_remaining (ws_poller s)) + ws_lost s = ws_clipped s"
    using worker_invD(5) [OF inv] assms(4) by (simp add: idle_def unannounced_def outstanding_def)
  then have "should_activate_jobs (ws_poller s)"
    using assms(4,5) by (simp add: should_activate_jobs_def idle_def word_le_nat_alt)
  moreover obtain p' spawned where m: "on_message (ws_poller s) FetchJobs = Some (p', spawned)"
    using on_message_returns [OF ok] by blast
  ultimately obtain r where r: "spawned = Some r"
    by (cases rule: on_message_cases [OF m]) auto
  note request = on_message_request [OF ok m [unfolded r]]
  have "requested r = nat (int (unat (jp_max_jobs_active (ws_poller s)))
      - int (unat (jp_remaining (ws_poller s))))"
    using request by (simp only: requested_def)
  with balance have "unat (jp_max_jobs_active (ws_poller s)) \<le> requested r + ws_clipped s"
    by linarith
  with m r assms(4) show ?thesis
    by (auto simp: worker_step_simps receive_eq_Some_iff idle_def simp del: on_message.simps)
qed

text \<open>Taking all the messages of a queue that holds no poll interval spawns no task.\<close>

lemma drain_messages:
  assumes "request_inv s" "poller_ok (ws_poller s)"
  shows "\<exists>t. run (worker_step cfg) s (replicate (length (ws_poll_queue s)) NextMessage) t \<and>
    ws_poll_queue t = [] \<and> ws_tasks t = ws_tasks s \<and> request_inv t \<and> poller_ok (ws_poller t)"
  using assms
proof (induction "length (ws_poll_queue s)" arbitrary: s)
  case (Suc n)
  then obtain m ms where q: "ws_poll_queue s = m # ms"
    by (cases "ws_poll_queue s") auto
  then have "m \<noteq> FetchJobs"
    using Suc(3) by (auto simp: request_inv_def request_shape_no_fetch)
  obtain p spawned where m: "on_message (ws_poller s) m = Some (p, spawned)"
    using on_message_returns [OF Suc(4)] by blast
  then have "spawned = None"
    using \<open>m \<noteq> FetchJobs\<close> by (cases rule: on_message_cases) auto
  with q m obtain t where t: "worker_step cfg s NextMessage t" "ws_poll_queue t = ms"
      "ws_tasks t = ws_tasks s" "ws_poller t = p"
    by (auto simp: worker_step_simps receive_eq_Some_iff simp del: on_message.simps)
  have "request_inv t" "poller_ok (ws_poller t)"
    using request_inv_step [OF Suc(3) t(1)] on_message_poller_ok [OF m] Suc(4) t(4) by simp_all
  with Suc(1) [of t] Suc(2) q t(2) obtain u where "run (worker_step cfg) t (replicate n NextMessage) u"
      "ws_poll_queue u = []" "ws_tasks u = ws_tasks t" "request_inv u" "poller_ok (ws_poller u)"
    by auto
  with t q Suc(2) show ?case
    by (auto simp: run_Cons_iff)
qed auto

lemma close_request:
  assumes "request_inv s" "ws_poll_queue s = []" "0 < wc_poll_queue_capacity cfg"
  shows "\<exists>es t. run (worker_step cfg) s es t \<and> set es \<subseteq> {NextMessage, TimeOut 0, Complete 0} \<and>
    length es \<le> 3 \<and> \<not> jp_request_in_progress (ws_poller t)"
proof (cases "jp_request_in_progress (ws_poller s)")
  case False
  then show ?thesis by (intro exI [of _ "[]"] exI [of _ s]) simp
next
  case True
  with assms(1,2) obtain r phase where task: "ws_tasks s = [Activation r phase]"
    by (auto simp: request_inv_def elim: request_shape.cases)
  have done_closes: "\<exists>t. run (worker_step cfg) u [Complete 0, NextMessage] t \<and>
      \<not> jp_request_in_progress (ws_poller t)"
    if "ws_tasks u = [Activation r Completing]" "ws_poll_queue u = []" for u
    using that assms(3)
    by (simp add: run_Cons_iff worker_step_simps receive_eq_Some_iff task_at_def
        poll_queue_has_room_def)
  show ?thesis
  proof (cases "phase = Completing")
    case True
    then obtain t where "run (worker_step cfg) s [Complete 0, NextMessage] t"
        "\<not> jp_request_in_progress (ws_poller t)"
      using done_closes task assms(2) by blast
    then show ?thesis
      by (intro exI [of _ "[Complete 0, NextMessage]"] exI [of _ t]) simp
  next
    case False
    define u where "u = set_phase 0 Completing (s\<lparr>ws_lost := ws_lost s + phase_unannounced phase\<rparr>)"
    have "worker_step cfg s (TimeOut 0) u"
      unfolding u_def using False task by (intro worker_step.time_out) (auto simp: task_at_def)
    moreover obtain t where "run (worker_step cfg) u [Complete 0, NextMessage] t"
        "\<not> jp_request_in_progress (ws_poller t)"
      using done_closes [of u] task assms(2) by (auto simp: u_def)
    ultimately show ?thesis
      by (intro exI [of _ "[TimeOut 0, Complete 0, NextMessage]"] exI [of _ t])
        (auto simp: run_Cons_iff)
  qed
qed

lemma request_ends:
  assumes "request_inv s" "poller_ok (ws_poller s)" "0 < wc_poll_queue_capacity cfg"
  shows "\<exists>fs t. run (worker_step cfg) s fs t \<and> set fs \<subseteq> {NextMessage, TimeOut 0, Complete 0} \<and>
    length fs \<le> length (ws_poll_queue s) + 3 \<and> \<not> jp_request_in_progress (ws_poller t)"
proof -
  obtain u where u: "run (worker_step cfg) s (replicate (length (ws_poll_queue s)) NextMessage) u"
      "ws_poll_queue u = []" "request_inv u"
    using drain_messages [OF assms(1,2)] by blast
  obtain fs t where "run (worker_step cfg) u fs t" "set fs \<subseteq> {NextMessage, TimeOut 0, Complete 0}"
      "length fs \<le> 3" "\<not> jp_request_in_progress (ws_poller t)"
    using close_request [OF u(3,2) assms(3)] by blast
  with run_append [OF u(1)] show ?thesis
    by (intro exI [of _ "replicate (length (ws_poll_queue s)) NextMessage @ fs"] exI [of _ t]) auto
qed

lemma reachable_poller_ok:
  "initial_poller p \<Longrightarrow> run (worker_step cfg) (worker_start p) es s \<Longrightarrow> poller_ok (ws_poller s)"
  using request_log.inv_reachable [OF worker_init_start] by (auto simp: request_log_inv_def)

text \<open>
  C16: A request never blocks the poller for good: from every reachable state, the poller taking its
  messages and the timeout of the running request lead, in at most three steps more than there
  are messages queued, to a state in which no request is in progress, whatever the gateway, the
  handlers and the dispatcher do or do not do.
\<close>

theorem request_always_ends:
  assumes "initial_poller p" "run (worker_step cfg) (worker_start p) es s"
    and "0 < wc_poll_queue_capacity cfg"
  shows "\<exists>fs t. run (worker_step cfg) s fs t \<and> set fs \<subseteq> {NextMessage, TimeOut 0, Complete 0} \<and>
    length fs \<le> length (ws_poll_queue s) + 3 \<and> \<not> jp_request_in_progress (ws_poller t)"
  using request_ends [OF reachable_request_inv reachable_poller_ok] assms by blast

theorem request_always_ends_witness:
  "\<exists>fs t. run (worker_step example_worker_config) example_state fs t \<and> length fs \<le> 3 \<and>
    \<not> jp_request_in_progress (ws_poller t)"
  using request_always_ends [OF example_initial example_run]
  by (auto simp: example_worker_config_def example_state_def)

end
