(* ===== verification/OAuth.thy ===== *)
theory OAuth
  imports Rust_Std Gateway_Protocol
begin

text \<open>
  Authentication (\<open>src/oauth.rs\<close>): the configuration read from the environment, the provider that
  keeps an access token fresh in the background, and the interceptor that attaches the token to
  every request. The identity server, the clock and the broadcast channel of tokio are arguments
  of the definitions that use them.
\<close>

subsection \<open>Configuration\<close>

text \<open>The environment: \<open>std::env::var\<close> succeeds on the variables that are set (and Unicode).\<close>

type_synonym environment = "string \<rightharpoonup> string"

definition CLIENT_ID_VAR :: string where
  "CLIENT_ID_VAR = ''ZEEBE_CLIENT_ID''"

definition CLIENT_SECRET_VAR :: string where
  "CLIENT_SECRET_VAR = ''ZEEBE_CLIENT_SECRET''"

definition TOKEN_AUDIENCE_VAR :: string where
  "TOKEN_AUDIENCE_VAR = ''ZEEBE_TOKEN_AUDIENCE''"

definition AUTHORIZATION_SERVER_URL_VAR :: string where
  "AUTHORIZATION_SERVER_URL_VAR = ''ZEEBE_AUTHORIZATION_SERVER_URL''"

definition AUTH_REQUEST_TIMEOUT_VAR :: string where
  "AUTH_REQUEST_TIMEOUT_VAR = ''ZEEBE_AUTH_REQUEST_TIMEOUT''"

definition DEFAULT_AUTH_SERVER_URL :: string where
  "DEFAULT_AUTH_SERVER_URL = ''https://login.cloud.camunda.io/oauth/token/''"

definition DEFAULT_AUTH_REQUEST_TIMEOUT :: duration where
  "DEFAULT_AUTH_REQUEST_TIMEOUT = from_secs 10"

definition CLOCK_SKEW_BUFFER :: duration where
  "CLOCK_SKEW_BUFFER = from_secs 15"

definition REFRESH_INTERVAL :: duration where
  "REFRESH_INTERVAL = from_secs 10"

record oauth_config =
  oc_client_id :: string
  oc_client_secret :: string
  oc_token_audience :: "string option"
  oc_authorization_server_url :: string
  oc_timeout :: duration

definition should_use_env_config :: "environment \<Rightarrow> bool" where
  "should_use_env_config env \<longleftrightarrow> env CLIENT_ID_VAR \<noteq> None \<or> env CLIENT_SECRET_VAR \<noteq> None"

definition auth_timeout_from_env :: "environment \<Rightarrow> duration" where
  "auth_timeout_from_env env =
     option_unwrap_or
       (Option.bind (env AUTH_REQUEST_TIMEOUT_VAR) (\<lambda>t. map_option from_millis (parse_u64 t)))
       DEFAULT_AUTH_REQUEST_TIMEOUT"

definition oauth_config_from_env :: "environment \<Rightarrow> (oauth_config, error) outcome" where
  "oauth_config_from_env env =
     (case env CLIENT_ID_VAR of
        None \<Rightarrow> Err (InvalidParameters ''ZEEBE_CLIENT_ID not set'')
      | Some client_id \<Rightarrow>
          (case env CLIENT_SECRET_VAR of
             None \<Rightarrow> Err (InvalidParameters ''ZEEBE_CLIENT_SECRET not set'')
           | Some client_secret \<Rightarrow>
               Ok \<lparr>oc_client_id = client_id,
                   oc_client_secret = client_secret,
                   oc_token_audience = env TOKEN_AUDIENCE_VAR,
                   oc_authorization_server_url =
                     option_unwrap_or (env AUTHORIZATION_SERVER_URL_VAR) DEFAULT_AUTH_SERVER_URL,
                   oc_timeout = auth_timeout_from_env env\<rparr>))"

text \<open>The fields that the \<open>Debug\<close> output of a configuration shows: the secret is masked.\<close>

definition debug_oauth_config ::
    "oauth_config \<Rightarrow> string \<times> string \<times> string option \<times> string \<times> duration" where
  "debug_oauth_config c =
     (oc_client_id c, ''****'', oc_token_audience c, oc_authorization_server_url c, oc_timeout c)"

subsection \<open>The token provider\<close>

text \<open>
  A mutex whose holder panicked is poisoned, and every later \<open>lock\<close> returns an error. A
  \<open>SystemTime\<close> is the number of nanoseconds since the epoch; adding a duration panics beyond the
  largest time of the platform (64-bit Unix).
\<close>

record 'a mutex =
  mx_poisoned :: bool
  mx_contents :: 'a

definition lock :: "'a mutex \<Rightarrow> 'a option" where
  "lock m = (if mx_poisoned m then None else Some (mx_contents m))"

type_synonym system_time = nat

definition system_time_max :: system_time where
  "system_time_max = (2 ^ 63 - 1) * 1000000000 + 999999999"

definition system_time_add :: "system_time \<Rightarrow> duration \<Rightarrow> system_time option" where
  "system_time_add t d = (if t + d \<le> system_time_max then Some (t + d) else None)"

text \<open>The OAuth client of the \<open>oauth2\<close> crate, by what the source gives it.\<close>

record basic_client =
  bc_client_id :: string
  bc_client_secret :: string
  bc_auth_url :: string
  bc_token_url :: string
  bc_auth_type_request_body :: bool

record token_request =
  trq_client :: basic_client
  trq_extra_params :: "(string \<times> string) list"

record token_response =
  trs_access_token :: string
  trs_expires_in :: "duration option"

record token_with_expiration =
  te_response :: token_response
  te_expires_at :: system_time

record token_provider =
  tp_oauth2_client :: basic_client
  tp_audience :: "string option"
  tp_request_timeout :: duration
  tp_cached_token :: "token_with_expiration option mutex"
  tp_notifications :: nat \<comment> \<open>messages sent on \<open>init_sender\<close> so far\<close>

text \<open>
  What a token request comes back with: nothing within the timeout, an error of the request, or a
  response. The identity server is a function from the request to one of these.
\<close>

datatype token_exchange =
    ExchangeTimedOut
  | ExchangeFailed string
  | ExchangeOk token_response

definition access_token :: "token_provider \<Rightarrow> (string, error) outcome" where
  "access_token p =
     (case lock (tp_cached_token p) of
        None \<Rightarrow> Err (Auth ''Could not get auth lock'')
      | Some None \<Rightarrow> Err (Auth ''Not authed yet'')
      | Some (Some token) \<Rightarrow> Ok (trs_access_token (te_response token)))"

definition cached_token_is_expired ::
    "token_provider \<Rightarrow> system_time \<Rightarrow> (bool, error) outcome" where
  "cached_token_is_expired p now =
     (case lock (tp_cached_token p) of
        None \<Rightarrow> Err (Auth ''Could not get auth lock'')
      | Some None \<Rightarrow> Ok True
      | Some (Some token) \<Rightarrow>
          (case system_time_add now CLOCK_SKEW_BUFFER of
             None \<Rightarrow> Panic ''overflow when adding duration to instant''
           | Some limit \<Rightarrow> Ok (te_expires_at token \<le> limit)))"

definition exchange_client_credentials :: "token_provider \<Rightarrow> token_request" where
  "exchange_client_credentials p =
     \<lparr>trq_client = tp_oauth2_client p,
      trq_extra_params =
        (case tp_audience p of None \<Rightarrow> [] | Some audience \<Rightarrow> [(''audience'', audience)])\<rparr>"

definition timed_out_message :: "duration \<Rightarrow> string" where
  "timed_out_message d =
     ''timed out waiting for oauth token after '' @ show_nat (as_millis d) @ '' milliseconds''"

definition request_token ::
    "(token_request \<Rightarrow> token_exchange) \<Rightarrow> token_provider \<Rightarrow> (token_response, error) outcome" where
  "request_token server p =
     (case server (exchange_client_credentials p) of
        ExchangeTimedOut \<Rightarrow> Err (Auth (timed_out_message (tp_request_timeout p)))
      | ExchangeFailed msg \<Rightarrow> Err (Auth msg)
      | ExchangeOk response \<Rightarrow> Ok response)"

definition store_token :: "token_with_expiration \<Rightarrow> token_provider \<Rightarrow> token_provider" where
  "store_token token p =
     (case lock (tp_cached_token p) of
        None \<Rightarrow> p
      | Some _ \<Rightarrow>
          p\<lparr>tp_cached_token := (tp_cached_token p)\<lparr>mx_contents := Some token\<rparr>\<rparr>)"

definition notify_initialized :: "token_provider \<Rightarrow> token_provider" where
  "notify_initialized p = p\<lparr>tp_notifications := Suc (tp_notifications p)\<rparr>"

text \<open>
  One refresh: \<open>checked\<close> is the time at which the cache is looked at, \<open>received\<close> the time at which
  the response has arrived.
\<close>

definition refresh_token ::
    "(token_request \<Rightarrow> token_exchange) \<Rightarrow> system_time \<Rightarrow> system_time \<Rightarrow> token_provider
      \<Rightarrow> (token_provider, error) outcome" where
  "refresh_token server checked received p =
     (case cached_token_is_expired p checked of
        Ok False \<Rightarrow> Ok p
      | Err err \<Rightarrow> Ok p
      | Panic msg \<Rightarrow> Panic msg
      | Ok True \<Rightarrow>
          (case request_token server p of
             Err err \<Rightarrow> Ok p
           | Panic msg \<Rightarrow> Panic msg
           | Ok response \<Rightarrow>
               (case system_time_add received (option_unwrap_or (trs_expires_in response) 0) of
                  None \<Rightarrow> Panic ''overflow when adding duration to instant''
                | Some expires_at \<Rightarrow>
                    Ok (notify_initialized (store_token
                      \<lparr>te_response = response, te_expires_at = expires_at\<rparr> p)))))"

text \<open>The background task: one refresh per tick of its interval, until one panics.\<close>

record tick =
  tk_server :: "token_request \<Rightarrow> token_exchange"
  tk_checked :: system_time
  tk_received :: system_time

definition run_tick :: "tick \<Rightarrow> token_provider \<Rightarrow> (token_provider, error) outcome" where
  "run_tick k p = refresh_token (tk_server k) (tk_checked k) (tk_received k) p"

fun background_refresh :: "tick list \<Rightarrow> token_provider \<Rightarrow> (token_provider, error) outcome" where
  "background_refresh [] p = Ok p"
| "background_refresh (k # ks) p = bind_outcome (run_tick k p) (background_refresh ks)"

text \<open>
  The provider that is left after these ticks, whether or not one of them panics, which ends the task:
  the cache is looked at with its mutex held, so that a panic there poisons it.
\<close>

definition panicked_tick :: "tick \<Rightarrow> token_provider \<Rightarrow> token_provider" where
  "panicked_tick k p =
     (case cached_token_is_expired p (tk_checked k) of
        Panic _ \<Rightarrow> p\<lparr>tp_cached_token := (tp_cached_token p)\<lparr>mx_poisoned := True\<rparr>\<rparr>
      | _ \<Rightarrow> p)"

fun background_task :: "tick list \<Rightarrow> token_provider \<Rightarrow> token_provider" where
  "background_task [] p = p"
| "background_task (k # ks) p =
     (case run_tick k p of
        Ok p' \<Rightarrow> background_task ks p'
      | _ \<Rightarrow> panicked_tick k p)"

lemma background_task_eq: "background_refresh ks p = Ok q \<Longrightarrow> background_task ks p = q"
  by (induction ks p rule: background_refresh.induct) (auto simp: bind_outcome_eq_Ok_iff)

lemma background_task_append:
  "background_refresh ks p = Ok q \<Longrightarrow> background_task (ks @ ks') p = background_task ks' q"
  by (induction ks p rule: background_refresh.induct) (auto simp: bind_outcome_eq_Ok_iff)

subsection \<open>Waiting for initialization\<close>

text \<open>
  \<open>auth_initialized\<close> subscribes to the broadcast channel and waits for one message. The channel is
  tokio's: \<open>recv n\<close> is what a receiver gets when \<open>n\<close> messages have been sent since it
  subscribed, \<open>None\<close> while it has to wait.
\<close>

definition provider_auth_initialized ::
    "(nat \<Rightarrow> (string + unit) option) \<Rightarrow> token_provider \<Rightarrow> token_provider
      \<Rightarrow> (unit, error) outcome option" where
  "provider_auth_initialized recv subscribed now =
     map_option
       (\<lambda>r. case r of Inl err \<Rightarrow> Err (Auth err) | Inr u \<Rightarrow> Ok u)
       (recv (tp_notifications now - tp_notifications subscribed))"

subsection \<open>The interceptor\<close>

text \<open>
  An \<open>AuthInterceptor\<close> shares its provider with its clones and with the background task: it holds
  the address of a provider in a store.
\<close>

record auth_interceptor =
  ai_token_provider :: "nat option"

type_synonym providers = "nat \<Rightarrow> token_provider"

definition auth_interceptor_default :: auth_interceptor where
  "auth_interceptor_default = \<lparr>ai_token_provider = None\<rparr>"

text \<open>The derived \<open>Default\<close> is an instance of the class \<open>default\<close>.\<close>

instantiation auth_interceptor_ext :: (default) default
begin

definition default_auth_interceptor_ext :: "'a auth_interceptor_ext" where
  "default = auth_interceptor.extend auth_interceptor_default default"

instance ..

end

lemma default_auth_interceptor [simp]: "(default :: auth_interceptor) = auth_interceptor_default"
  by (simp add: default_auth_interceptor_ext_def auth_interceptor.extend_def)

text \<open>The name and the field that \<open>Debug\<close> shows of an interceptor: nothing of its provider's tokens.\<close>

definition debug_auth_interceptor :: "auth_interceptor \<Rightarrow> string \<times> bool" where
  "debug_auth_interceptor i = (''AuthInterceptor'', ai_token_provider i \<noteq> None)"

definition permission_denied :: "string \<Rightarrow> status" where
  "permission_denied msg = Status PermissionDenied msg"

definition interceptor_call ::
    "(string \<Rightarrow> string + string) \<Rightarrow> providers \<Rightarrow> auth_interceptor \<Rightarrow> metadata \<Rightarrow> status + metadata" where
  "interceptor_call metadata_value ps i md =
     (case ai_token_provider i of
        None \<Rightarrow> Inr md
      | Some a \<Rightarrow>
          (case access_token (ps a) of
             Ok token \<Rightarrow>
               (case metadata_value (''Bearer '' @ token) of
                  Inl err \<Rightarrow> Inl (permission_denied err)
                | Inr value \<Rightarrow> Inr (md(''authorization'' \<mapsto> value)))
           | _ \<Rightarrow> Inl (permission_denied ''No valid token available'')))"

definition new_token_provider :: "oauth_config \<Rightarrow> string \<Rightarrow> string \<Rightarrow> token_provider" where
  "new_token_provider c auth_url token_url =
     \<lparr>tp_oauth2_client =
        \<lparr>bc_client_id = oc_client_id c,
         bc_client_secret = oc_client_secret c,
         bc_auth_url = auth_url,
         bc_token_url = token_url,
         bc_auth_type_request_body = True\<rparr>,
      tp_audience = oc_token_audience c,
      tp_request_timeout = oc_timeout c,
      tp_cached_token = \<lparr>mx_poisoned = False, mx_contents = None\<rparr>,
      tp_notifications = 0\<rparr>"

text \<open>
  \<open>init\<close> parses the server's URL twice (\<open>AuthUrl::new\<close> and \<open>TokenUrl::new\<close> of the \<open>oauth2\<close> crate are
  the argument \<open>parse_url\<close>) and unwraps both results, allocates the provider at the address
  \<open>next\<close> and starts the background task.
\<close>

definition auth_interceptor_init ::
    "(string \<Rightarrow> string + string) \<Rightarrow> nat \<Rightarrow> oauth_config \<Rightarrow> providers
      \<Rightarrow> (auth_interceptor \<times> providers, error) outcome" where
  "auth_interceptor_init parse_url next c ps =
     (case unwrap_result (parse_url (oc_authorization_server_url c)) ''AuthUrl::new'' of
        Err err \<Rightarrow> Err err
      | Panic msg \<Rightarrow> Panic msg
      | Ok auth_url \<Rightarrow>
          (case unwrap_result (parse_url (oc_authorization_server_url c)) ''TokenUrl::new'' of
             Err err \<Rightarrow> Err err
           | Panic msg \<Rightarrow> Panic msg
           | Ok token_url \<Rightarrow>
               Ok (\<lparr>ai_token_provider = Some next\<rparr>,
                   ps(next := new_token_provider c auth_url token_url))))"

definition auth_initialized ::
    "(nat \<Rightarrow> (string + unit) option) \<Rightarrow> providers \<Rightarrow> providers \<Rightarrow> auth_interceptor
      \<Rightarrow> (unit, error) outcome option" where
  "auth_initialized recv subscribed now i =
     (case ai_token_provider i of
        None \<Rightarrow> Some (Ok ())
      | Some a \<Rightarrow> provider_auth_initialized recv (subscribed a) (now a))"

subsection \<open>Reading the configuration\<close>

lemma debug_oauth_config_hides_secret:
  "debug_oauth_config (c\<lparr>oc_client_secret := secret\<rparr>) = debug_oauth_config c"
  by (simp add: debug_oauth_config_def)

lemma oauth_config_from_env_cases:
  obtains (missing_id) "env CLIENT_ID_VAR = None"
      "oauth_config_from_env env = Err (InvalidParameters ''ZEEBE_CLIENT_ID not set'')"
  | (missing_secret) i where "env CLIENT_ID_VAR = Some i" "env CLIENT_SECRET_VAR = None"
      "oauth_config_from_env env = Err (InvalidParameters ''ZEEBE_CLIENT_SECRET not set'')"
  | (both) i s c where "env CLIENT_ID_VAR = Some i" "env CLIENT_SECRET_VAR = Some s"
      "oauth_config_from_env env = Ok c" "oc_client_id c = i" "oc_client_secret c = s"
      "oc_token_audience c = env TOKEN_AUDIENCE_VAR" "oc_timeout c = auth_timeout_from_env env"
  by (cases "env CLIENT_ID_VAR"; cases "env CLIENT_SECRET_VAR")
    (auto simp: oauth_config_from_env_def)

lemma auth_timeout_from_env_le_max: "auth_timeout_from_env env \<le> duration_max"
proof (cases "Option.bind (env AUTH_REQUEST_TIMEOUT_VAR) parse_u64")
  case None
  then have "auth_timeout_from_env env = DEFAULT_AUTH_REQUEST_TIMEOUT"
    by (cases "env AUTH_REQUEST_TIMEOUT_VAR") (auto simp: auth_timeout_from_env_def)
  then show ?thesis
    by (simp add: DEFAULT_AUTH_REQUEST_TIMEOUT_def from_secs_def duration_max_def)
next
  case (Some ms)
  then have "auth_timeout_from_env env = from_millis ms" "ms < 2 ^ 64"
    by (auto simp: auth_timeout_from_env_def bind_eq_Some_conv dest: parse_u64_bound)
  then show ?thesis
    by (simp add: from_millis_le_max)
qed

text \<open>
  The authentication timeout survives the trip through the environment: when
  \<open>ZEEBE_AUTH_REQUEST_TIMEOUT\<close> holds the decimal digits of any \<open>u64\<close>, the configuration's timeout is
  that many milliseconds; when it holds anything that does not parse, the timeout is the default of
  ten seconds.
\<close>

lemma auth_timeout_roundtrip:
  "(ms < 2 ^ 64 \<longrightarrow>
      as_millis (auth_timeout_from_env (env(AUTH_REQUEST_TIMEOUT_VAR \<mapsto> show_nat ms))) = ms) \<and>
   (parse_u64 s = None \<longrightarrow>
      auth_timeout_from_env (env(AUTH_REQUEST_TIMEOUT_VAR \<mapsto> s)) = from_secs 10)"
  by (simp add: auth_timeout_from_env_def parse_show_u64 DEFAULT_AUTH_REQUEST_TIMEOUT_def)

subsection \<open>Refreshing the token\<close>

definition token_expiry :: "token_provider \<Rightarrow> system_time option" where
  "token_expiry p = Option.bind (lock (tp_cached_token p)) (map_option te_expires_at)"

definition authenticated :: "token_provider \<Rightarrow> bool" where
  "authenticated p \<longleftrightarrow> is_ok (access_token p)"

lemma lock_simps [simp]:
  "\<not> mx_poisoned m \<Longrightarrow> lock m = Some (mx_contents m)"
  "mx_poisoned m \<Longrightarrow> lock m = None"
  by (simp_all add: lock_def)

lemma authenticated_iff:
  "authenticated p \<longleftrightarrow>
     \<not> mx_poisoned (tp_cached_token p) \<and> mx_contents (tp_cached_token p) \<noteq> None"
  by (simp add: authenticated_def access_token_def lock_def split: option.splits)

lemma token_expiry_eq_Some_iff:
  "token_expiry p = Some e \<longleftrightarrow>
     \<not> mx_poisoned (tp_cached_token p) \<and>
     (\<exists>t. mx_contents (tp_cached_token p) = Some t \<and> te_expires_at t = e)"
  by (auto simp: token_expiry_def lock_def split: if_splits)

text \<open>The three ways a refresh ends without a panic.\<close>

lemma refresh_token_cases:
  assumes "refresh_token server checked received p = Ok p'"
  obtains (still_valid) "p' = p" "cached_token_is_expired p checked \<noteq> Ok True"
  | (failed) "p' = p" "cached_token_is_expired p checked = Ok True"
      "\<And>r. server (exchange_client_credentials p) \<noteq> ExchangeOk r"
  | (refreshed) r e where "cached_token_is_expired p checked = Ok True"
      "server (exchange_client_credentials p) = ExchangeOk r"
      "e = received + option_unwrap_or (trs_expires_in r) 0" "e \<le> system_time_max"
      "p' = notify_initialized (store_token \<lparr>te_response = r, te_expires_at = e\<rparr> p)"
proof (cases "cached_token_is_expired p checked = Ok True")
  case False
  then have "p' = p"
    using assms by (auto simp: refresh_token_def split: outcome.splits bool.splits)
  with False show thesis by (intro still_valid)
next
  case expired: True
  show thesis
  proof (cases "server (exchange_client_credentials p)")
    case (ExchangeOk r)
    let ?e = "received + option_unwrap_or (trs_expires_in r) 0"
    have "?e \<le> system_time_max"
      "p' = notify_initialized (store_token \<lparr>te_response = r, te_expires_at = ?e\<rparr> p)"
      using assms expired ExchangeOk
      by (simp_all add: refresh_token_def request_token_def system_time_add_def split: if_splits)
    with expired ExchangeOk show thesis by (intro refreshed) simp_all
  qed (use assms expired in \<open>auto intro!: failed simp: refresh_token_def request_token_def\<close>)
qed

lemma store_token_unpoisoned:
  "\<not> mx_poisoned (tp_cached_token p) \<Longrightarrow>
   tp_cached_token (store_token t p) = \<lparr>mx_poisoned = False, mx_contents = Some t\<rparr>"
  by (simp add: store_token_def)

lemma notify_store_simps [simp]:
  "tp_cached_token (notify_initialized p) = tp_cached_token p"
  "tp_notifications (notify_initialized p) = Suc (tp_notifications p)"
  "tp_notifications (store_token t p) = tp_notifications p"
  "mx_poisoned (tp_cached_token (store_token t p)) = mx_poisoned (tp_cached_token p)"
  by (simp_all add: notify_initialized_def store_token_def lock_def)

lemma not_expired_after_check:
  assumes "cached_token_is_expired p now \<noteq> Ok True" "refresh_token server now received p = Ok p'"
    and "\<not> mx_poisoned (tp_cached_token p)"
  shows "\<exists>e. token_expiry p = Some e \<and> now + CLOCK_SKEW_BUFFER < e"
  using assms
  by (auto simp: cached_token_is_expired_def refresh_token_def token_expiry_eq_Some_iff
      system_time_add_def split: option.splits if_splits)

text \<open>
  C33: A token is refreshed early enough, if the identity server does its part: when a check either finds
  the cached token still good, or requests a new one and gets one that lives longer than the
  clock skew buffer, the cached token afterwards stays valid, with more than five seconds to spare,
  until the next check, if that comes within the refresh interval. (A refresh that fails leaves
  the old token, which may be about to expire.)
\<close>

theorem token_valid_until_next_check:
  assumes refresh: "refresh_token server checked received p = Ok p'"
    and usable: "\<not> mx_poisoned (tp_cached_token p)"
    and answers: "cached_token_is_expired p checked = Ok True \<Longrightarrow>
      \<exists>r d. server (exchange_client_credentials p) = ExchangeOk r \<and> trs_expires_in r = Some d \<and>
        CLOCK_SKEW_BUFFER < d"
    and order: "checked \<le> received" "next \<le> checked + REFRESH_INTERVAL"
  shows "\<exists>e. token_expiry p' = Some e \<and> next + from_secs 5 < e"
proof -
  have skew: "next + from_secs 5 \<le> checked + CLOCK_SKEW_BUFFER"
    using order by (simp add: REFRESH_INTERVAL_def CLOCK_SKEW_BUFFER_def from_secs_def)
  from refresh show ?thesis
  proof (cases rule: refresh_token_cases)
    case still_valid
    with not_expired_after_check [OF _ refresh usable] skew show ?thesis by fastforce
  next
    case failed
    with answers show ?thesis by auto
  next
    case (refreshed r' e)
    with answers obtain d where d: "trs_expires_in r' = Some d" "CLOCK_SKEW_BUFFER < d"
      by auto
    with refreshed usable have "token_expiry p' = Some (received + d)"
      by (auto simp: token_expiry_eq_Some_iff store_token_unpoisoned)
    with d(2) order skew show ?thesis by auto
  qed
qed

definition example_token_response :: token_response where
  "example_token_response = \<lparr>trs_access_token = ''tok'', trs_expires_in = Some (from_secs 60)\<rparr>"

definition example_config :: oauth_config where
  "example_config =
     \<lparr>oc_client_id = ''id'', oc_client_secret = ''secret'', oc_token_audience = Some ''aud'',
      oc_authorization_server_url = ''https://auth'', oc_timeout = from_secs 10\<rparr>"

definition example_provider :: token_provider where
  "example_provider = new_token_provider example_config ''https://auth'' ''https://auth''"

definition example_refreshed :: token_provider where
  "example_refreshed = notify_initialized (store_token
     \<lparr>te_response = example_token_response, te_expires_at = from_secs 161\<rparr> example_provider)"

lemmas example_provider_defs =
  example_token_response_def example_config_def example_provider_def new_token_provider_def

lemma example_refresh:
  "refresh_token (\<lambda>_. ExchangeOk example_token_response) (from_secs 100) (from_secs 101)
     example_provider = Ok example_refreshed"
  by (simp add: refresh_token_def cached_token_is_expired_def request_token_def
      example_refreshed_def example_provider_defs system_time_add_def system_time_max_def
      from_secs_def)

theorem token_valid_until_next_check_witness:
  "\<exists>e. token_expiry example_refreshed = Some e \<and> from_secs 110 + from_secs 5 < e"
  using example_refresh
  by (rule token_valid_until_next_check)
    (simp_all add: example_provider_defs CLOCK_SKEW_BUFFER_def REFRESH_INTERVAL_def from_secs_def)

text \<open>
  While the cached token outlives the clock skew buffer, a refresh changes nothing, whatever
  the identity server would have answered: no request is made for a token that is still good.
\<close>

lemma refresh_token_uses_cache:
  assumes "token_expiry p = Some e" "checked + CLOCK_SKEW_BUFFER < e"
    and "checked + CLOCK_SKEW_BUFFER \<le> system_time_max"
  shows "refresh_token server checked received p = Ok p"
  using assms
  by (auto simp: refresh_token_def cached_token_is_expired_def token_expiry_eq_Some_iff
      system_time_add_def)

subsection \<open>The background task\<close>

text \<open>
  What the interceptor relies on: a source of tokens that, once it has one, has one after every
  refresh that does not panic: the one it had, or one that was issued in the refresh.
\<close>

locale token_source =
  fixes current :: "'p \<Rightarrow> (string, error) outcome"
    and tick :: "'k \<Rightarrow> 'p \<Rightarrow> ('p, error) outcome"
    and issues :: "'k \<Rightarrow> string \<Rightarrow> bool"
  assumes tick_token: "current p = Ok a \<Longrightarrow> tick k p = Ok p' \<Longrightarrow>
    \<exists>b. current p' = Ok b \<and> (b = a \<or> issues k b)"
begin

lemma tick_keeps: "current p = Ok a \<Longrightarrow> P a \<Longrightarrow> tick k p = Ok p' \<Longrightarrow> (\<And>b. issues k b \<Longrightarrow> P b) \<Longrightarrow>
    \<exists>b. current p' = Ok b \<and> P b"
  by (metis tick_token)

lemma tick_keeps_token: "is_ok (current p) \<Longrightarrow> tick k p = Ok p' \<Longrightarrow> is_ok (current p')"
  using tick_token [of p _ k p'] by (cases "current p") auto

fun ticks :: "'k list \<Rightarrow> 'p \<Rightarrow> ('p, error) outcome" where
  "ticks [] p = Ok p"
| "ticks (k # ks) p = bind_outcome (tick k p) (ticks ks)"

lemma ticks_keep_token: "is_ok (current p) \<Longrightarrow> ticks ks p = Ok p' \<Longrightarrow> is_ok (current p')"
  by (induction ks p rule: ticks.induct)
    (auto simp: bind_outcome_eq_Ok_iff dest: tick_keeps_token)

end

text \<open>The identity server may answer a request of this refresh with this token.\<close>

definition issues :: "tick \<Rightarrow> string \<Rightarrow> bool" where
  "issues k token \<longleftrightarrow> (\<exists>req r. tk_server k req = ExchangeOk r \<and> trs_access_token r = token)"

lemma run_tick_token:
  assumes "access_token p = Ok a" "run_tick k p = Ok p'"
  shows "\<exists>b. access_token p' = Ok b \<and> (b = a \<or> issues k b)"
  using assms(2) unfolding run_tick_def
proof (cases rule: refresh_token_cases)
  case (refreshed r e)
  have "\<not> mx_poisoned (tp_cached_token p)"
    using assms(1) by (auto simp: access_token_def lock_def split: if_splits)
  with refreshed show ?thesis
    by (auto simp: access_token_def store_token_unpoisoned issues_def)
qed (use assms(1) in auto)

interpretation provider: token_source access_token run_tick issues
  by unfold_locales (rule run_tick_token)

lemma background_refresh_is_ticks: "background_refresh ks p = provider.ticks ks p"
  by (induction ks p rule: background_refresh.induct)
    (auto intro!: arg_cong [where f = "bind_outcome _"])

text \<open>
  C34: Once the provider holds a token it never loses it: through any sequence of background
  refreshes, with any behaviour of the identity server, the interceptor keeps finding a token.
\<close>

theorem background_refresh_keeps_token:
  assumes "is_ok (access_token p)" "background_refresh ks p = Ok p'"
  shows "\<exists>token. access_token p' = Ok token"
proof -
  have "is_ok (access_token p')"
    using assms unfolding background_refresh_is_ticks by (rule provider.ticks_keep_token)
  then show ?thesis by (cases "access_token p'") simp_all
qed

theorem background_refresh_keeps_token_witness:
  "\<exists>token. access_token example_refreshed = Ok token"
  by (rule background_refresh_keeps_token [where p = example_refreshed and
        ks = "[\<lparr>tk_server = \<lambda>_. ExchangeFailed ''down'', tk_checked = from_secs 155,
                tk_received = from_secs 160\<rparr>]"])
    (simp_all add: access_token_def run_tick_def refresh_token_def cached_token_is_expired_def
      request_token_def example_refreshed_def store_token_unpoisoned example_provider_defs
      system_time_add_def system_time_max_def CLOCK_SKEW_BUFFER_def from_secs_def)

subsection \<open>Waiting for initialization\<close>

text \<open>
  A task that waits for initialization is released by the next refresh that fetches a token, and
  the interceptor can then use that token. What it relies on of the broadcast channel: a receiver
  that has been sent exactly one message gets it.
\<close>

lemma auth_initialized_on_new_token:
  assumes "recv 1 = Some (Inr ())" "\<not> mx_poisoned (tp_cached_token p)"
    and "cached_token_is_expired p (tk_checked k) = Ok True"
    and "tk_server k (exchange_client_credentials p) = ExchangeOk r"
    and "run_tick k p = Ok p'"
  shows "provider_auth_initialized recv p p' = Some (Ok ()) \<and>
    access_token p' = Ok (trs_access_token r)"
  using assms(5) unfolding run_tick_def
proof (cases rule: refresh_token_cases)
  case still_valid
  with assms(3) show ?thesis by simp
next
  case failed
  with assms(4) show ?thesis by simp
next
  case (refreshed r' e)
  with assms show ?thesis
    by (simp add: provider_auth_initialized_def access_token_def store_token_unpoisoned)
qed

lemma no_token_is_expired:
  assumes "\<not> mx_poisoned (tp_cached_token p)" "mx_contents (tp_cached_token p) = None"
  shows "cached_token_is_expired p now = Ok True"
  using assms by (simp add: cached_token_is_expired_def lock_def)

lemma token_is_expired:
  assumes "token_expiry p = Some e" "e \<le> now + CLOCK_SKEW_BUFFER" "now + CLOCK_SKEW_BUFFER \<le> system_time_max"
  shows "cached_token_is_expired p now = Ok True"
  using assms
  by (auto simp: token_expiry_eq_Some_iff cached_token_is_expired_def lock_def system_time_add_def)

lemma run_tick_unchanged:
  assumes "token_expiry p = Some e" "tk_checked k + CLOCK_SKEW_BUFFER < e"
    and "tk_checked k + CLOCK_SKEW_BUFFER \<le> system_time_max"
  shows "run_tick k p = Ok p"
  using assms
  by (auto simp: run_tick_def refresh_token_def cached_token_is_expired_def
      token_expiry_eq_Some_iff system_time_add_def)

lemma background_refresh_unchanged:
  assumes "token_expiry p = Some e"
    and "\<And>k. k \<in> set ks \<Longrightarrow> tk_checked k + CLOCK_SKEW_BUFFER < e"
    and "e \<le> system_time_max"
  shows "background_refresh ks p = Ok p"
  using assms(2)
proof (induction ks)
  case (Cons k ks)
  then have "run_tick k p = Ok p"
    using assms(1,3) by (intro run_tick_unchanged [of p e]) (auto intro: less_imp_le less_le_trans)
  with Cons show ?case by simp
qed simp

text \<open>
  A task that waits for initialization after the first token has already arrived is not
  released by it: as long as the cached token stays valid no refresh sends another message, so
  \<open>auth_initialized\<close> keeps waiting although the client is authenticated. What it relies on of the
  broadcast channel: a receiver that has been sent nothing since it subscribed has to wait.
\<close>

lemma auth_initialized_misses_earlier_token:
  assumes "recv 0 = None"
    and "token_expiry p = Some e" "e \<le> system_time_max"
    and "\<forall>k \<in> set ks. tk_checked k + CLOCK_SKEW_BUFFER < e"
  shows "\<exists>p'. background_refresh ks p = Ok p' \<and> is_ok (access_token p') \<and>
    provider_auth_initialized recv p p' = None"
proof (intro exI conjI)
  show "background_refresh ks p = Ok p"
    using assms(2-4) by (intro background_refresh_unchanged) auto
  show "is_ok (access_token p)"
    using assms(2) by (auto simp: access_token_def token_expiry_eq_Some_iff)
  show "provider_auth_initialized recv p p = None"
    using assms(1) by (simp add: provider_auth_initialized_def)
qed

subsection \<open>The interceptor\<close>

lemma interceptor_call_eq_Inr_iff:
  "interceptor_call mv ps i md = Inr md' \<longleftrightarrow>
     (case ai_token_provider i of
        None \<Rightarrow> md' = md
      | Some a \<Rightarrow> (\<exists>token v. access_token (ps a) = Ok token \<and> mv (''Bearer '' @ token) = Inr v \<and>
                     md' = md(''authorization'' \<mapsto> v)))"
  by (auto simp: interceptor_call_def split: option.splits outcome.splits sum.splits)

lemma interceptor_call_unauthenticated:
  "ai_token_provider i = Some a \<Longrightarrow> \<not> is_ok (access_token (ps a)) \<Longrightarrow>
   interceptor_call mv ps i md = Inl (permission_denied ''No valid token available'')"
  by (auto simp: interceptor_call_def split: outcome.splits)

lemma auth_interceptor_init_cases:
  obtains (invalid_url) err where "parse_url (oc_authorization_server_url c) = Inl err"
      "auth_interceptor_init parse_url next c ps = Panic ''AuthUrl::new''"
  | (initialized) url where "parse_url (oc_authorization_server_url c) = Inr url"
      "auth_interceptor_init parse_url next c ps =
         Ok (\<lparr>ai_token_provider = Some next\<rparr>, ps(next := new_token_provider c url url))"
  by (cases "parse_url (oc_authorization_server_url c)") (auto simp: auth_interceptor_init_def)

lemma new_token_provider_unauthenticated: "\<not> is_ok (access_token (new_token_provider c u v))"
  by (simp add: access_token_def new_token_provider_def)

end
