(* ===== verification/Extensions.thy ===== *)
theory Extensions
  imports Gateway_Protocol
begin

text \<open>
  The type-indexed store of a worker (\<open>Extensions\<close> of \<open>src/worker/auto_handler/mod.rs\<close>): a map
  from type identifiers to boxed values, whose lookup checks the type of what it finds. Its
  interface is the locale \<open>typed_store\<close>.
\<close>

subsection \<open>Type identifiers and boxed values\<close>

text \<open>
  \<open>TypeId\<close>: a user type by its name, and \<open>State<T>\<close> for a type \<open>T\<close>. A \<open>Box<dyn Any>\<close> is a value
  that knows the type it was boxed at.
\<close>

datatype type_id = TypeName string | StateOf type_id

datatype 'v boxed = Boxed (boxed_type: type_id) (boxed_value: 'v)

definition downcast_ref :: "type_id \<Rightarrow> 'v boxed \<Rightarrow> 'v option" where
  "downcast_ref t b = (if boxed_type b = t then Some (boxed_value b) else None)"

type_synonym 'v extensions = "type_id \<rightharpoonup> 'v boxed"

definition ext_new :: "'v extensions" where
  "ext_new = Map.empty"

definition ext_insert :: "type_id \<Rightarrow> 'v \<Rightarrow> 'v extensions \<Rightarrow> 'v extensions" where
  "ext_insert t v ext = ext(t \<mapsto> Boxed t v)"

definition ext_get :: "type_id \<Rightarrow> 'v extensions \<Rightarrow> 'v option" where
  "ext_get t ext = Option.bind (ext t) (downcast_ref t)"

text \<open>The text of \<open>Debug\<close>, which shows nothing of what is stored.\<close>

definition debug_extensions :: "'v extensions \<Rightarrow> string" where
  "debug_extensions ext = ''Extensions { }''"

text \<open>Every value is stored under the identifier of the type it was boxed at.\<close>

definition ext_well_typed :: "'v extensions \<Rightarrow> bool" where
  "ext_well_typed ext \<longleftrightarrow> (\<forall>t b. ext t = Some b \<longrightarrow> boxed_type b = t)"

subsection \<open>The interface\<close>

locale typed_store =
  fixes empty :: "'s"
    and insert :: "type_id \<Rightarrow> 'v \<Rightarrow> 's \<Rightarrow> 's"
    and get :: "type_id \<Rightarrow> 's \<Rightarrow> 'v option"
    and invar :: "'s \<Rightarrow> bool"
  assumes get_empty: "get t empty = None"
    and get_insert: "get t (insert u v s) = (if t = u then Some v else get t s)"
    and invar_empty: "invar empty"
    and invar_insert: "invar s \<Longrightarrow> invar (insert u v s)"
begin

fun insert_all :: "(type_id \<times> 'v) list \<Rightarrow> 's \<Rightarrow> 's" where
  "insert_all [] s = s"
| "insert_all ((t, v) # tvs) s = insert_all tvs (insert t v s)"

lemma get_insert_all:
  "get t (insert_all tvs s) = (case map_of (rev tvs) t of None \<Rightarrow> get t s | Some v \<Rightarrow> Some v)"
  by (induction tvs s rule: insert_all.induct)
    (auto simp: get_insert map_add_def split: option.splits)

lemma invar_insert_all: "invar s \<Longrightarrow> invar (insert_all tvs s)"
  by (induction tvs s rule: insert_all.induct) (auto intro: invar_insert)

end

interpretation ext: typed_store ext_new ext_insert ext_get ext_well_typed
  by unfold_locales
    (auto simp: ext_new_def ext_insert_def ext_get_def downcast_ref_def ext_well_typed_def
      split: if_splits)

lemma ext_get_insert_same [simp]: "ext_get t (ext_insert t v e) = Some v"
  by (simp add: ext.get_insert)

lemma ext_get_well_typed:
  "ext_well_typed e \<Longrightarrow> ext_get t e = map_option boxed_value (e t)"
  by (cases "e t") (simp_all add: ext_get_def downcast_ref_def ext_well_typed_def)

end
