(* ===== verification/Client.thy ===== *)
theory Client
  imports OAuth Extensions
begin

text \<open>
  The client (\<open>src/client.rs\<close>): its configuration from the environment, the channel to the
  gateway's endpoints, and the calls it makes, which all pass the interceptor of \<open>OAuth\<close>. The
  locale \<open>rpc_builder\<close> is the contract of the request builders of the theories that follow.
\<close>

subsection \<open>Constants\<close>

definition DEFAULT_REQUEST_TIMEOUT :: duration where
  "DEFAULT_REQUEST_TIMEOUT = from_secs 15"

definition DEFAULT_KEEP_ALIVE :: duration where
  "DEFAULT_KEEP_ALIVE = from_secs 45"

definition CA_CERTIFICATE_PATH :: string where
  "CA_CERTIFICATE_PATH = ''ZEEBE_CA_CERTIFICATE_PATH''"

definition ADDRESS :: string where
  "ADDRESS = ''ZEEBE_ADDRESS''"

definition HOST :: string where
  "HOST = ''ZEEBE_HOST''"

definition DEFAULT_ADDRESS_HOST :: string where
  "DEFAULT_ADDRESS_HOST = ''http://127.0.0.1''"

definition PORT :: string where
  "PORT = ''ZEEBE_PORT''"

definition DEFAULT_ADDRESS_PORT :: string where
  "DEFAULT_ADDRESS_PORT = ''26500''"

subsection \<open>The transport\<close>

text \<open>
  What tonic keeps of an endpoint, of which the source sets the timeouts and the TLS
  configuration. Parsing an address (\<open>Channel::from_shared\<close>) and applying a TLS configuration
  are tonic's and may fail, with an error's text; the files of the machine may fail to be read.
\<close>

datatype client_tls_config = ClientTlsConfig (tls_ca_certificate: "string option")

record endpoint =
  ep_uri :: string
  ep_timeout :: "duration option"
  ep_keep_alive_timeout :: "duration option"
  ep_tls :: "client_tls_config option"

datatype channel = BalanceList (channel_endpoints: "endpoint list")

record transport =
  tr_from_shared :: "string \<Rightarrow> string + endpoint"
  tr_tls_config :: "client_tls_config \<Rightarrow> endpoint \<Rightarrow> transport_error + endpoint"
  tr_read_to_string :: "string \<Rightarrow> io_error + string"
  tr_parse_auth_url :: "string \<Rightarrow> string + string"

subsection \<open>State\<close>

text \<open>
  What the clients of a process share: the token providers by address (the next free address with
  them), and the requests on the wire, the oldest first.
\<close>

record world =
  wd_providers :: providers
  wd_next_provider :: nat
  wd_wire :: "wire list"

record 'v client =
  cl_channel :: channel
  cl_gateway_interceptor :: auth_interceptor
  cl_auth_interceptor :: auth_interceptor
  cl_current_job_key :: "i64 option"
  cl_current_job_extensions :: "'v extensions option"

record client_config =
  cc_endpoints :: "string list"
  cc_tls :: "client_tls_config option"
  cc_auth :: "oauth_config option"

subsection \<open>Configuration\<close>

definition client_config_with_endpoints :: "string list \<Rightarrow> client_config" where
  "client_config_with_endpoints endpoints =
     \<lparr>cc_endpoints = endpoints, cc_tls = None, cc_auth = None\<rparr>"

definition client_config_default :: client_config where
  "client_config_default =
     client_config_with_endpoints [DEFAULT_ADDRESS_HOST @ '':'' @ DEFAULT_ADDRESS_PORT]"

text \<open>\<open>ClientConfig\<close> implements \<open>Default\<close>, whose function is a constant of the class \<open>default\<close>.\<close>

instantiation client_config_ext :: (default) default
begin

definition default_client_config_ext :: "'a client_config_ext" where
  "default = client_config.extend client_config_default default"

instance ..

end

lemma default_client_config [simp]: "(default :: client_config) = client_config_default"
  by (simp add: default_client_config_ext_def client_config.extend_def)

definition tls_from_env ::
    "transport \<Rightarrow> environment \<Rightarrow> (client_tls_config option, error) outcome" where
  "tls_from_env tr env =
     (case env CA_CERTIFICATE_PATH of
        Some ca_path \<Rightarrow>
          (case tr_read_to_string tr ca_path of
             Inl err \<Rightarrow> Err (Auth err)
           | Inr pem \<Rightarrow> Ok (Some (ClientTlsConfig (Some pem))))
      | None \<Rightarrow> Ok None)"

definition address_from_env :: "environment \<Rightarrow> string" where
  "address_from_env env =
     (case env HOST of
        Some gateway_host \<Rightarrow>
          (case env PORT of
             Some gateway_port \<Rightarrow> gateway_host @ '':'' @ gateway_port
           | None \<Rightarrow> gateway_host @ '':'' @ DEFAULT_ADDRESS_PORT)
      | None \<Rightarrow>
          (case env PORT of
             Some gateway_port \<Rightarrow> DEFAULT_ADDRESS_HOST @ '':'' @ gateway_port
           | None \<Rightarrow>
               (case env ADDRESS of
                  Some gateway_address \<Rightarrow> gateway_address
                | None \<Rightarrow> DEFAULT_ADDRESS_HOST @ '':'' @ DEFAULT_ADDRESS_PORT)))"

definition client_config_from_env ::
    "transport \<Rightarrow> environment \<Rightarrow> (client_config, error) outcome" where
  "client_config_from_env tr env =
     bind_outcome (tls_from_env tr env) (\<lambda>tls.
     bind_outcome
       (if should_use_env_config env
        then bind_outcome (oauth_config_from_env env) (\<lambda>c. Ok (Some c))
        else Ok None) (\<lambda>auth.
       Ok \<lparr>cc_endpoints = [address_from_env env], cc_tls = tls, cc_auth = auth\<rparr>))"

subsection \<open>The channel\<close>

definition build_endpoint ::
    "transport \<Rightarrow> client_tls_config option \<Rightarrow> string \<Rightarrow> (endpoint, error) outcome" where
  "build_endpoint tr tls uri =
     (case tr_from_shared tr uri of
        Inl err \<Rightarrow> Err (InvalidGatewayUri err uri)
      | Inr ep \<Rightarrow>
          (let c = ep\<lparr>ep_timeout := Some DEFAULT_REQUEST_TIMEOUT,
                      ep_keep_alive_timeout := Some DEFAULT_KEEP_ALIVE\<rparr>
           in case tls of
                Some t \<Rightarrow>
                  (case tr_tls_config tr t c of Inl err \<Rightarrow> Err (Transport err) | Inr c' \<Rightarrow> Ok c')
              | None \<Rightarrow> Ok c))"

definition build_channel ::
    "transport \<Rightarrow> string list \<Rightarrow> client_tls_config option \<Rightarrow> (channel, error) outcome" where
  "build_channel tr endpoints tls =
     bind_outcome (traverse (build_endpoint tr tls) endpoints) (\<lambda>eps. Ok (BalanceList eps))"

subsection \<open>Construction\<close>

text \<open>A new interceptor's provider is allocated at the next free address of the world.\<close>

definition client_of_interceptor :: "channel \<Rightarrow> auth_interceptor \<Rightarrow> 'v client" where
  "client_of_interceptor ch i =
     \<lparr>cl_channel = ch, cl_gateway_interceptor = i, cl_auth_interceptor = i,
      cl_current_job_key = None, cl_current_job_extensions = None\<rparr>"

definition client_from_config ::
    "transport \<Rightarrow> client_config \<Rightarrow> world \<Rightarrow> ('v client \<times> world, error) outcome" where
  "client_from_config tr config w =
     bind_outcome (build_channel tr (cc_endpoints config) (cc_tls config)) (\<lambda>ch.
       (case cc_auth config of
          Some auth_config \<Rightarrow>
            bind_outcome
              (auth_interceptor_init (tr_parse_auth_url tr) (wd_next_provider w) auth_config
                 (wd_providers w)) (\<lambda>(i, ps).
              Ok (client_of_interceptor ch i,
                  w\<lparr>wd_providers := ps, wd_next_provider := Suc (wd_next_provider w)\<rparr>))
        | None \<Rightarrow> Ok (client_of_interceptor ch default, w)))"

definition client_from_env ::
    "transport \<Rightarrow> environment \<Rightarrow> world \<Rightarrow> ('v client \<times> world, error) outcome" where
  "client_from_env tr env w =
     bind_outcome (client_config_from_env tr env) (\<lambda>config. client_from_config tr config w)"

definition client_default :: "transport \<Rightarrow> world \<Rightarrow> ('v client \<times> world, error) outcome" where
  "client_default tr w =
     unwrap_outcome (client_from_config tr default w) ''Client::default''"

definition client_new :: "transport \<Rightarrow> world \<Rightarrow> ('v client \<times> world, error) outcome" where
  "client_new tr w = client_default tr w"

definition client_auth_initialized ::
    "(nat \<Rightarrow> (string + unit) option) \<Rightarrow> world \<Rightarrow> world \<Rightarrow> 'v client \<Rightarrow> (unit, error) outcome option"
where
  "client_auth_initialized recv subscribed now c =
     auth_initialized recv (wd_providers subscribed) (wd_providers now) (cl_auth_interceptor c)"

subsection \<open>Calls\<close>

text \<open>
  A call of the generated client: tonic runs the interceptor on the request's metadata, which is
  empty; if it refuses, nothing is sent and the caller gets its status.
\<close>

definition gateway_call ::
    "gateway \<Rightarrow> ('req, 'resp) rpc \<Rightarrow> ('req \<Rightarrow> grpc_request) \<Rightarrow> 'req \<Rightarrow> 'v client \<Rightarrow> world
      \<Rightarrow> ('resp, error) outcome \<times> world" where
  "gateway_call gw rpc message req c w =
     (case interceptor_call (gw_metadata_value gw) (wd_providers w) (cl_gateway_interceptor c)
             Map.empty of
        Inl st \<Rightarrow> (Err (GRPC st), w)
      | Inr md \<Rightarrow>
          ((case rpc (wd_wire w) md req of Inl st \<Rightarrow> Err (GRPC st) | Inr resp \<Rightarrow> Ok resp),
           w\<lparr>wd_wire := wd_wire w @ [(md, message req)]\<rparr>))"

text \<open>The interceptor lets a call pass with these metadata.\<close>

definition call_metadata :: "gateway \<Rightarrow> 'v client \<Rightarrow> world \<Rightarrow> status + metadata" where
  "call_metadata gw c w =
     interceptor_call (gw_metadata_value gw) (wd_providers w) (cl_gateway_interceptor c) Map.empty"

text \<open>A call that is on the wire carries the bearer token of the client's provider, if it has one.\<close>

definition bears_token :: "gateway \<Rightarrow> 'v client \<Rightarrow> world \<Rightarrow> metadata \<Rightarrow> bool" where
  "bears_token gw c w md \<longleftrightarrow>
     (case ai_token_provider (cl_gateway_interceptor c) of
        None \<Rightarrow> md = Map.empty
      | Some a \<Rightarrow>
          (\<exists>token v. access_token (wd_providers w a) = Ok token \<and>
             gw_metadata_value gw (''Bearer '' @ token) = Inr v \<and>
             md = [''authorization'' \<mapsto> v]))"

lemma call_metadata_bears_token: "call_metadata gw c w = Inr md \<longleftrightarrow> bears_token gw c w md"
  by (auto simp: call_metadata_def bears_token_def interceptor_call_eq_Inr_iff
      split: option.splits)

lemma gateway_call_eq:
  "gateway_call gw rpc message req c w =
     (case call_metadata gw c w of
        Inl st \<Rightarrow> (Err (GRPC st), w)
      | Inr md \<Rightarrow>
          ((case rpc (wd_wire w) md req of Inl st \<Rightarrow> Err (GRPC st) | Inr resp \<Rightarrow> Ok resp),
           w\<lparr>wd_wire := wd_wire w @ [(md, message req)]\<rparr>))"
  by (simp add: gateway_call_def call_metadata_def)

subsection \<open>The contract of a request builder\<close>

text \<open>
  Every remote operation is a builder with a \<open>send\<close>. The contract: \<open>send\<close> first checks the
  builder's fields (\<open>request\<close> is the message they make, or the error they lead to); a builder that
  is rejected touches nothing, any other makes exactly one call with that message.
\<close>

locale rpc_builder =
  fixes gw :: gateway
    and send :: "'b \<Rightarrow> world \<Rightarrow> ('resp, error) outcome \<times> world"
    and client_of :: "'b \<Rightarrow> 'v client"
    and request :: "'b \<Rightarrow> (grpc_request, error) outcome"
    and answer :: "'b \<Rightarrow> wire list \<Rightarrow> metadata \<Rightarrow> status + 'resp"
  assumes request_no_panic: "request b \<noteq> Panic p"
    and send_rejected: "request b = Err e \<Longrightarrow> send b w = (Err e, w)"
    and send_accepted: "request b = Ok r \<Longrightarrow>
      send b w =
        (case call_metadata gw (client_of b) w of
           Inl st \<Rightarrow> (Err (GRPC st), w)
         | Inr md \<Rightarrow>
             ((case answer b (wd_wire w) md of Inl st \<Rightarrow> Err (GRPC st) | Inr resp \<Rightarrow> Ok resp),
              w\<lparr>wd_wire := wd_wire w @ [(md, r)]\<rparr>))"
begin

lemma send_cases:
  obtains (rejected) e where "request b = Err e" "send b w = (Err e, w)"
  | (denied) r st where "request b = Ok r" "call_metadata gw (client_of b) w = Inl st"
      "send b w = (Err (GRPC st), w)"
  | (failed) r md st where "request b = Ok r" "bears_token gw (client_of b) w md"
      "answer b (wd_wire w) md = Inl st"
      "send b w = (Err (GRPC st), w\<lparr>wd_wire := wd_wire w @ [(md, r)]\<rparr>)"
  | (answered) r md resp where "request b = Ok r" "bears_token gw (client_of b) w md"
      "answer b (wd_wire w) md = Inr resp"
      "send b w = (Ok resp, w\<lparr>wd_wire := wd_wire w @ [(md, r)]\<rparr>)"
proof (cases "request b")
  case (Ok r)
  show thesis
  proof (cases "call_metadata gw (client_of b) w")
    case (Inl st)
    with Ok send_accepted [OF Ok, of w] denied show thesis by simp
  next
    case (Inr md)
    with Ok send_accepted [OF Ok, of w] failed answered show thesis
      by (cases "answer b (wd_wire w) md") (simp_all add: call_metadata_bears_token)
  qed
next
  case (Err e)
  with send_rejected [OF Err] rejected show thesis by blast
qed (simp add: request_no_panic)

lemma send_no_panic: "fst (send b w) \<noteq> Panic p"
  by (cases rule: send_cases [of b w]) simp_all

lemma send_frame:
  "wd_providers (snd (send b w)) = wd_providers w \<and>
   wd_next_provider (snd (send b w)) = wd_next_provider w"
  by (cases rule: send_cases [of b w]) simp_all

lemma send_wire:
  "wd_wire (snd (send b w)) = wd_wire w \<or>
   (\<exists>r md. request b = Ok r \<and> bears_token gw (client_of b) w md \<and>
      wd_wire (snd (send b w)) = wd_wire w @ [(md, r)])"
  by (cases rule: send_cases [of b w]) auto

lemma send_Ok:
  assumes "fst (send b w) = Ok resp"
  shows "\<exists>r md. request b = Ok r \<and> bears_token gw (client_of b) w md \<and>
    answer b (wd_wire w) md = Inr resp \<and> wd_wire (snd (send b w)) = wd_wire w @ [(md, r)]"
  using assms by (cases rule: send_cases [of b w]) auto

lemma send_Ok_world:
  assumes "send b w = (Ok resp, w')"
  shows "\<exists>r md. request b = Ok r \<and> bears_token gw (client_of b) w md \<and>
    answer b (wd_wire w) md = Inr resp \<and> w' = w\<lparr>wd_wire := wd_wire w @ [(md, r)]\<rparr>"
  using assms by (cases rule: send_cases [of b w]) auto

lemma send_unauthenticated:
  assumes "ai_token_provider (cl_gateway_interceptor (client_of b)) = Some a"
    and "\<not> is_ok (access_token (wd_providers w a))" "request b = Ok r"
  shows "send b w = (Err (GRPC (permission_denied ''No valid token available'')), w)"
  using send_accepted [OF assms(3)] interceptor_call_unauthenticated [OF assms(1), of "wd_providers w"] assms(2)
  by (simp add: call_metadata_def)

lemma send_sends:
  assumes "request b = Ok r" "bears_token gw (client_of b) w md"
  shows "wd_wire (snd (send b w)) = wd_wire w @ [(md, r)]"
  using send_accepted [OF assms(1), of w] assms(2)
  by (simp add: call_metadata_bears_token [symmetric])

end

text \<open>
  How the builders' \<open>send\<close> is written: check the fields, return early on an error, else make the
  call. Whatever is written this way, with a check that does not panic, fulfils the contract.
\<close>

definition send_checked ::
    "gateway \<Rightarrow> ('req, 'resp) rpc \<Rightarrow> ('req \<Rightarrow> grpc_request) \<Rightarrow> ('req, error) outcome \<Rightarrow> 'v client
      \<Rightarrow> world \<Rightarrow> ('resp, error) outcome \<times> world" where
  "send_checked gw rpc message checked c w =
     (case checked of
        Ok req \<Rightarrow> gateway_call gw rpc message req c w
      | Err e \<Rightarrow> (Err e, w)
      | Panic p \<Rightarrow> (Panic p, w))"

definition message_of ::
    "('req \<Rightarrow> grpc_request) \<Rightarrow> ('req, error) outcome \<Rightarrow> (grpc_request, error) outcome" where
  "message_of message checked = map_outcome message (\<lambda>e. e) checked"

definition answer_of ::
    "('req, 'resp) rpc \<Rightarrow> ('req, error) outcome \<Rightarrow> wire list \<Rightarrow> metadata \<Rightarrow> status + 'resp" where
  "answer_of rpc checked ws md =
     (case checked of Ok req \<Rightarrow> rpc ws md req | _ \<Rightarrow> Inl (Status Unknown []))"

lemma message_of_simps [simp]:
  "message_of m (Ok r) = Ok (m r)"
  "message_of m (Err e) = Err e"
  "message_of m (Panic p) = Panic p"
  "message_of m x = Ok q \<longleftrightarrow> (\<exists>r. x = Ok r \<and> q = m r)"
  "message_of m x = Err e \<longleftrightarrow> x = Err e"
  "message_of m x = Panic p \<longleftrightarrow> x = Panic p"
  "is_ok (message_of m x) = is_ok x"
  by (cases x; auto simp: message_of_def)+

lemma rpc_builder_checked:
  assumes "\<And>b w. send b w = send_checked gw rpc message (checked b) (client_of b) w"
    and "\<And>b p. checked b \<noteq> Panic p"
  shows "rpc_builder gw send client_of (\<lambda>b. message_of message (checked b))
    (\<lambda>b. answer_of rpc (checked b))"
  by unfold_locales
    (auto simp: assms send_checked_def gateway_call_eq answer_of_def split: sum.splits)

text \<open>
  The operations on a job take its key from the builder or else from the client, which inside a
  handler knows the job it was called for.
\<close>

fun job_key_of :: "grpc_request \<Rightarrow> i64 option" where
  "job_key_of (CompleteJob r) = Some (cjr_job_key r)"
| "job_key_of (FailJob r) = Some (fjr_job_key r)"
| "job_key_of (ThrowError r) = Some (ter_job_key r)"
| "job_key_of (UpdateJobRetries r) = Some (ujr_job_key r)"
| "job_key_of _ = None"

locale job_rpc_builder = rpc_builder +
  fixes key_of :: "'a \<Rightarrow> i64 option"
    and with_key :: "i64 \<Rightarrow> 'a \<Rightarrow> 'a"
  assumes request_key: "request b = Ok r \<Longrightarrow>
      job_key_of r = option_or (key_of b) (cl_current_job_key (client_of b))"
    and request_needs_key:
      "option_or (key_of b) (cl_current_job_key (client_of b)) = None \<Longrightarrow> \<not> is_ok (request b)"
    and key_of_with_key: "key_of (with_key k b) = Some k"
    and client_of_with_key: "client_of (with_key k b) = client_of b"
begin

lemma sent_key:
  assumes "wd_wire (snd (send b w)) = wd_wire w @ [(md, r)]"
  shows "job_key_of r = option_or (key_of b) (cl_current_job_key (client_of b)) \<and>
    job_key_of r \<noteq> None"
proof -
  have "request b = Ok r"
    using assms by (cases rule: send_cases [of b w]) auto
  with request_key [of b r] request_needs_key [of b] show ?thesis
    by (cases "key_of b") auto
qed

lemma sent_explicit_key:
  "wd_wire (snd (send (with_key k b) w)) = wd_wire w @ [(md, r)] \<Longrightarrow> job_key_of r = Some k"
  using sent_key [of "with_key k b" w md r] by (simp add: key_of_with_key)

lemma sent_current_key:
  "key_of b = None \<Longrightarrow> wd_wire (snd (send b w)) = wd_wire w @ [(md, r)] \<Longrightarrow>
   job_key_of r = cl_current_job_key (client_of b)"
  using sent_key [of b w md r] by simp

end

text \<open>\<open>Option::unwrap\<close>, with the name of the place.\<close>

fun unwrap_option :: "'a option \<Rightarrow> string \<Rightarrow> ('a, 'e) outcome" where
  "unwrap_option (Some x) p = Ok x"
| "unwrap_option None p = Panic p"

lemma unwrap_option_iffs [simp]:
  "unwrap_option x p = Ok y \<longleftrightarrow> x = Some y"
  "unwrap_option x p \<noteq> Err e"
  "unwrap_option x p = Panic q \<longleftrightarrow> x = None \<and> p = q"
  "is_ok (unwrap_option x p) \<longleftrightarrow> x \<noteq> None"
  by (cases x; auto)+

subsection \<open>JSON\<close>

text \<open>
  \<open>serde_json\<close> is a parameter: writing a \<open>Value\<close>, reading one, and the value \<open>{}\<close>.
\<close>

record 'j serde_json =
  sj_to_string :: "'j \<Rightarrow> string"
  sj_from_str :: "string \<Rightarrow> serde_error + 'j"
  sj_empty_object :: 'j

definition variables_string :: "'j serde_json \<Rightarrow> 'j option \<Rightarrow> string" where
  "variables_string sj vs = (case vs of None \<Rightarrow> [] | Some v \<Rightarrow> sj_to_string sj v)"

definition variables_value :: "'j serde_json \<Rightarrow> string \<Rightarrow> 'j" where
  "variables_value sj s = (case sj_from_str sj s of Inl err \<Rightarrow> sj_empty_object sj | Inr v \<Rightarrow> v)"

definition variables_typed :: "(string \<Rightarrow> serde_error + 't) \<Rightarrow> string \<Rightarrow> 't option" where
  "variables_typed from_str s = (case from_str s of Inl err \<Rightarrow> None | Inr v \<Rightarrow> Some v)"

subsection \<open>The configuration and the channel\<close>

text \<open>
  What the environment configures: reading it succeeds exactly if the certificate file (where one
  is named) can be read and the two OAuth credentials are both set or both not set. The single
  endpoint is built from host and port, with a default for the one that is missing, and only if
  neither is set from the address.
\<close>

lemma client_config_from_env_eq_Ok_iff:
  "client_config_from_env tr env = Ok config \<longleftrightarrow>
     cc_endpoints config =
       [if env HOST = None \<and> env PORT = None
        then option_unwrap_or (env ADDRESS) (DEFAULT_ADDRESS_HOST @ '':'' @ DEFAULT_ADDRESS_PORT)
        else option_unwrap_or (env HOST) DEFAULT_ADDRESS_HOST @ '':'' @
          option_unwrap_or (env PORT) DEFAULT_ADDRESS_PORT] \<and>
     (case env CA_CERTIFICATE_PATH of
        None \<Rightarrow> cc_tls config = None
      | Some path \<Rightarrow>
          (\<exists>pem. tr_read_to_string tr path = Inr pem \<and>
             cc_tls config = Some (ClientTlsConfig (Some pem)))) \<and>
     (case (env CLIENT_ID_VAR, env CLIENT_SECRET_VAR) of
        (None, None) \<Rightarrow> cc_auth config = None
      | (Some i, Some s) \<Rightarrow>
          cc_auth config = Some
            \<lparr>oc_client_id = i, oc_client_secret = s, oc_token_audience = env TOKEN_AUDIENCE_VAR,
             oc_authorization_server_url =
               option_unwrap_or (env AUTHORIZATION_SERVER_URL_VAR) DEFAULT_AUTH_SERVER_URL,
             oc_timeout = auth_timeout_from_env env\<rparr>
      | _ \<Rightarrow> False)"
proof -
  let ?ok = "\<lambda>tls auth. tls_from_env tr env = Ok tls \<and>
    (if should_use_env_config env
     then bind_outcome (oauth_config_from_env env) (\<lambda>c. Ok (Some c)) else Ok None) = Ok auth \<and>
    config = \<lparr>cc_endpoints = [address_from_env env], cc_tls = tls, cc_auth = auth\<rparr>"
  have "client_config_from_env tr env = Ok config \<longleftrightarrow> ?ok (cc_tls config) (cc_auth config)"
    by (auto simp: client_config_from_env_def bind_outcome_eq_Ok_iff)
  moreover have "config = \<lparr>cc_endpoints = [address_from_env env], cc_tls = cc_tls config,
      cc_auth = cc_auth config\<rparr> \<longleftrightarrow> cc_endpoints config = [address_from_env env]"
    by (cases config) auto
  moreover have "tls_from_env tr env = Ok (cc_tls config) \<longleftrightarrow>
      (case env CA_CERTIFICATE_PATH of
        None \<Rightarrow> cc_tls config = None
      | Some path \<Rightarrow>
          (\<exists>pem. tr_read_to_string tr path = Inr pem \<and>
             cc_tls config = Some (ClientTlsConfig (Some pem))))"
    by (auto simp: tls_from_env_def split: option.splits sum.splits)
  ultimately show ?thesis
    by (cases "env CLIENT_ID_VAR"; cases "env CLIENT_SECRET_VAR"; cases "env HOST"; cases "env PORT";
        cases "env ADDRESS")
      (auto simp: address_from_env_def should_use_env_config_def oauth_config_from_env_def)
qed

text \<open>A \<open>traverse\<close> whose elements fail with a known error stops at the first that does.\<close>

lemma traverse_find:
  "(\<And>x. f x = (if bad x then Err (err x) else Ok (val x))) \<Longrightarrow>
   traverse f xs = (case find bad xs of Some x \<Rightarrow> Err (err x) | None \<Rightarrow> Ok (map val xs))"
  by (induction xs) (auto split: option.splits)

text \<open>
  A channel without TLS has one endpoint per address, in their order, each with the request
  timeout of 15 seconds and the keep-alive timeout of 45; if an address does not parse, the error
  names the first such address and no channel is made.
\<close>

lemma build_channel_plain:
  "build_channel tr uris None =
     (case find (\<lambda>uri. isl (tr_from_shared tr uri)) uris of
        Some uri \<Rightarrow> Err (InvalidGatewayUri (projl (tr_from_shared tr uri)) uri)
      | None \<Rightarrow>
          Ok (BalanceList (map (\<lambda>uri. (projr (tr_from_shared tr uri))
            \<lparr>ep_timeout := Some (from_secs 15), ep_keep_alive_timeout := Some (from_secs 45)\<rparr>)
            uris)))"
proof -
  have "build_endpoint tr None uri =
      (if isl (tr_from_shared tr uri)
       then Err (InvalidGatewayUri (projl (tr_from_shared tr uri)) uri)
       else Ok ((projr (tr_from_shared tr uri))
         \<lparr>ep_timeout := Some (from_secs 15), ep_keep_alive_timeout := Some (from_secs 45)\<rparr>))" for uri
    by (cases "tr_from_shared tr uri")
      (simp_all add: build_endpoint_def Let_def DEFAULT_REQUEST_TIMEOUT_def DEFAULT_KEEP_ALIVE_def)
  from traverse_find [where xs = uris, OF this] show ?thesis
    by (simp add: build_channel_def split: option.splits)
qed

lemma build_channel_eq_Ok_iff:
  "build_channel tr uris tls = Ok ch \<longleftrightarrow>
     list_all2 (\<lambda>uri ep. build_endpoint tr tls uri = Ok ep) uris (channel_endpoints ch)"
  by (cases ch) (auto simp: build_channel_def bind_outcome_eq_Ok_iff traverse_eq_Ok_iff)

lemma build_endpoint_timeout:
  "list_all2 (\<lambda>uri ep. build_endpoint tr None uri = Ok ep) uris eps \<Longrightarrow>
   \<forall>ep \<in> set eps. ep_timeout ep = Some (from_secs 15)"
proof (induction rule: list_all2_induct)
  case (Cons uri uris ep eps)
  then show ?case
    by (cases "tr_from_shared tr uri")
      (auto simp: build_endpoint_def Let_def DEFAULT_REQUEST_TIMEOUT_def)
qed simp

text \<open>
  C35: A client is built with OAuth exactly as far as the authorization server's address parses: if it
  does, the client shares one new provider, at an address no other client has, between its calls
  and its wait for initialization, and that provider has no token; if it does not, construction
  panics although it returns a \<open>Result\<close>.
\<close>

theorem client_from_config_with_auth:
  assumes "build_channel tr (cc_endpoints config) (cc_tls config) = Ok ch" "cc_auth config = Some auth"
  shows "case tr_parse_auth_url tr (oc_authorization_server_url auth) of
      Inl err \<Rightarrow> client_from_config tr config w = Panic ''AuthUrl::new''
    | Inr url \<Rightarrow>
        (\<exists>c w'. client_from_config tr config w = Ok (c, w') \<and> cl_channel c = ch \<and>
           ai_token_provider (cl_gateway_interceptor c) = Some (wd_next_provider w) \<and>
           cl_auth_interceptor c = cl_gateway_interceptor c \<and>
           \<not> is_ok (access_token (wd_providers w' (wd_next_provider w))) \<and>
           wd_next_provider w' = Suc (wd_next_provider w) \<and> wd_wire w' = wd_wire w \<and>
           (\<forall>a. a \<noteq> wd_next_provider w \<longrightarrow> wd_providers w' a = wd_providers w a))"
proof (cases rule: auth_interceptor_init_cases [of "tr_parse_auth_url tr" auth "wd_next_provider w"
      "wd_providers w"])
  case (invalid_url err)
  with assms show ?thesis
    by (simp add: client_from_config_def)
next
  case (initialized url)
  with assms show ?thesis
    by (simp add: client_from_config_def client_of_interceptor_def new_token_provider_unauthenticated)
qed

definition example_transport :: transport where
  "example_transport =
     \<lparr>tr_from_shared = (\<lambda>uri. if uri = [] then Inl ''empty string'' else
        Inr \<lparr>ep_uri = uri, ep_timeout = None, ep_keep_alive_timeout = None, ep_tls = None\<rparr>),
      tr_tls_config = (\<lambda>tls ep. Inr (ep\<lparr>ep_tls := Some tls\<rparr>)),
      tr_read_to_string = (\<lambda>path. Inl ''not found''),
      tr_parse_auth_url = (\<lambda>url. if url = ''https://auth'' then Inr url else Inl ''relative URL'')\<rparr>"

definition example_world :: world where
  "example_world = \<lparr>wd_providers = (\<lambda>_. example_provider), wd_next_provider = 0, wd_wire = []\<rparr>"

definition example_client_config :: client_config where
  "example_client_config = client_config_default\<lparr>cc_auth := Some example_config\<rparr>"

definition example_channel :: channel where
  "example_channel = BalanceList
     [\<lparr>ep_uri = ''http://127.0.0.1:26500'', ep_timeout = Some (from_secs 15),
       ep_keep_alive_timeout = Some (from_secs 45), ep_tls = None\<rparr>]"

lemma example_build_channel:
  "build_channel example_transport (cc_endpoints example_client_config)
     (cc_tls example_client_config) = Ok example_channel"
  by (simp add: example_transport_def example_client_config_def example_channel_def
      client_config_default_def client_config_with_endpoints_def build_channel_def build_endpoint_def
      DEFAULT_ADDRESS_HOST_def DEFAULT_ADDRESS_PORT_def DEFAULT_REQUEST_TIMEOUT_def
      DEFAULT_KEEP_ALIVE_def)

theorem client_from_config_with_auth_witness:
  "\<exists>c w'. client_from_config example_transport example_client_config example_world = Ok (c, w') \<and>
    cl_channel c = example_channel \<and> \<not> is_ok (access_token (wd_providers w' 0))"
  using client_from_config_with_auth [OF example_build_channel, of example_config example_world]
  by (simp add: example_transport_def example_client_config_def example_config_def
      example_world_def) blast

text \<open>A client whose provider has a token, for concrete inputs.\<close>

definition example_client :: "nat client" where
  "example_client = client_of_interceptor example_channel \<lparr>ai_token_provider = Some 0\<rparr>"

definition example_authenticated_world :: world where
  "example_authenticated_world =
     \<lparr>wd_providers = (\<lambda>_. example_refreshed), wd_next_provider = 1, wd_wire = []\<rparr>"

definition example_gateway :: gateway where
  "example_gateway =
     \<lparr>gw_topology = (\<lambda>_ _ _. Inl (Status Unavailable [])),
      gw_deploy_process = (\<lambda>_ _ r. Inr \<lparr>dps_key = 1, dps_processes = []\<rparr>),
      gw_create_process_instance = (\<lambda>_ _ _. Inl (Status NotFound [])),
      gw_create_process_instance_with_result = (\<lambda>_ _ _. Inl (Status NotFound [])),
      gw_cancel_process_instance = (\<lambda>_ _ _. Inr CancelProcessInstanceResponse),
      gw_set_variables = (\<lambda>_ _ _. Inr \<lparr>svs_key = 2\<rparr>),
      gw_complete_job = (\<lambda>_ _ _. Inr CompleteJobResponse),
      gw_fail_job = (\<lambda>_ _ _. Inr FailJobResponse),
      gw_throw_error = (\<lambda>_ _ _. Inr ThrowErrorResponse),
      gw_update_job_retries = (\<lambda>_ _ _. Inr UpdateJobRetriesResponse),
      gw_publish_message = (\<lambda>_ _ _. Inr \<lparr>pms_key = 3\<rparr>),
      gw_resolve_incident = (\<lambda>_ _ _. Inr ResolveIncidentResponse),
      gw_metadata_value = Inr\<rparr>"

definition example_metadata :: metadata where
  "example_metadata = [''authorization'' \<mapsto> ''Bearer tok'']"

lemma example_bears_token:
  "cl_gateway_interceptor c = \<lparr>ai_token_provider = Some 0\<rparr> \<Longrightarrow>
   bears_token example_gateway c example_authenticated_world example_metadata"
  by (simp add: bears_token_def example_gateway_def example_authenticated_world_def
      example_metadata_def example_refreshed_def access_token_def notify_initialized_def
      store_token_def example_provider_defs)

definition example_json :: "string serde_json" where
  "example_json = \<lparr>sj_to_string = (\<lambda>v. v), sj_from_str = Inr, sj_empty_object = ''{}''\<rparr>"

lemma example_client_interceptor [simp]:
  "cl_gateway_interceptor example_client = \<lparr>ai_token_provider = Some 0\<rparr>"
  "cl_current_job_key example_client = None"
  by (simp_all add: example_client_def client_of_interceptor_def)

end
