(* ===== verification/Job_Commands.thy ===== *)
theory Job_Commands
  imports Client
begin

text \<open>
  Jobs and the commands on them (\<open>src/job.rs\<close>): completing and failing a job, throwing an error and
  updating a job's retries. Each is a builder that fulfils the contract \<open>job_rpc_builder\<close>.
\<close>

subsection \<open>Jobs\<close>

datatype job = Job (job_proto: activated_job)

definition job_new :: "activated_job \<Rightarrow> job" where
  "job_new proto = Job proto"

definition job_key :: "job \<Rightarrow> i64" where
  "job_key j = aj_key (job_proto j)"

definition job_type :: "job \<Rightarrow> string" where
  "job_type j = aj_type (job_proto j)"

definition job_process_instance_key :: "job \<Rightarrow> i64" where
  "job_process_instance_key j = aj_process_instance_key (job_proto j)"

definition job_bpmn_process_id :: "job \<Rightarrow> string" where
  "job_bpmn_process_id j = aj_bpmn_process_id (job_proto j)"

definition job_process_definition_version :: "job \<Rightarrow> i32" where
  "job_process_definition_version j = aj_process_definition_version (job_proto j)"

definition job_process_definition_key :: "job \<Rightarrow> i64" where
  "job_process_definition_key j = aj_process_definition_key (job_proto j)"

definition job_element_id :: "job \<Rightarrow> string" where
  "job_element_id j = aj_element_id (job_proto j)"

definition job_element_instance_key :: "job \<Rightarrow> i64" where
  "job_element_instance_key j = aj_element_instance_key (job_proto j)"

definition job_custom_headers :: "job \<Rightarrow> string" where
  "job_custom_headers j = aj_custom_headers (job_proto j)"

definition job_worker :: "job \<Rightarrow> string" where
  "job_worker j = aj_worker (job_proto j)"

definition job_retries :: "job \<Rightarrow> i32" where
  "job_retries j = aj_retries (job_proto j)"

definition job_deadline :: "job \<Rightarrow> i64" where
  "job_deadline j = aj_deadline (job_proto j)"

definition job_variables_str :: "job \<Rightarrow> string" where
  "job_variables_str j = aj_variables (job_proto j)"

definition job_variables :: "'j serde_json \<Rightarrow> job \<Rightarrow> 'j" where
  "job_variables sj j = variables_value sj (aj_variables (job_proto j))"

definition job_variables_as :: "(string \<Rightarrow> serde_error + 't) \<Rightarrow> job \<Rightarrow> 't option" where
  "job_variables_as from_str j = variables_typed from_str (aj_variables (job_proto j))"

subsection \<open>Completing a job\<close>

record ('v, 'j) complete_job_builder =
  cjb_client :: "'v client"
  cjb_job_key :: "i64 option"
  cjb_variables :: "'j option"

definition complete_job_builder_new :: "'v client \<Rightarrow> ('v, 'j) complete_job_builder" where
  "complete_job_builder_new c = \<lparr>cjb_client = c, cjb_job_key = None, cjb_variables = None\<rparr>"

definition cjb_with_job_key :: "i64 \<Rightarrow> ('v, 'j) complete_job_builder \<Rightarrow> ('v, 'j) complete_job_builder" where
  "cjb_with_job_key key b = b\<lparr>cjb_job_key := Some key\<rparr>"

definition cjb_with_variables :: "'j \<Rightarrow> ('v, 'j) complete_job_builder \<Rightarrow> ('v, 'j) complete_job_builder" where
  "cjb_with_variables variables b = b\<lparr>cjb_variables := Some variables\<rparr>"

definition complete_job_request_of :: "'j serde_json \<Rightarrow> ('v, 'j) complete_job_builder
    \<Rightarrow> (complete_job_request, error) outcome" where
  "complete_job_request_of sj b =
     (if cjb_job_key b = None \<and> cl_current_job_key (cjb_client b) = None
      then Err (InvalidParameters ''`job_key` must be set'')
      else bind_outcome
        (unwrap_option (option_or (cjb_job_key b) (cl_current_job_key (cjb_client b))) ''job_key'')
        (\<lambda>key. Ok \<lparr>cjr_job_key = key, cjr_variables = variables_string sj (cjb_variables b)\<rparr>))"

definition complete_job_send :: "'j serde_json \<Rightarrow> gateway \<Rightarrow> ('v, 'j) complete_job_builder \<Rightarrow> world
    \<Rightarrow> (complete_job_response, error) outcome \<times> world" where
  "complete_job_send sj gw b w =
     send_checked gw (gw_complete_job gw) CompleteJob (complete_job_request_of sj b) (cjb_client b) w"

subsection \<open>Failing a job\<close>

record 'v fail_job_builder =
  fjb_client :: "'v client"
  fjb_job_key :: "i64 option"
  fjb_retries :: "u32 option"
  fjb_error_message :: "string option"

definition fail_job_builder_new :: "'v client \<Rightarrow> 'v fail_job_builder" where
  "fail_job_builder_new c =
     \<lparr>fjb_client = c, fjb_job_key = None, fjb_retries = None, fjb_error_message = None\<rparr>"

definition fjb_with_job_key :: "i64 \<Rightarrow> 'v fail_job_builder \<Rightarrow> 'v fail_job_builder" where
  "fjb_with_job_key key b = b\<lparr>fjb_job_key := Some key\<rparr>"

definition fjb_with_retries :: "u32 \<Rightarrow> 'v fail_job_builder \<Rightarrow> 'v fail_job_builder" where
  "fjb_with_retries retries b = b\<lparr>fjb_retries := Some retries\<rparr>"

definition fjb_with_error_message :: "string \<Rightarrow> 'v fail_job_builder \<Rightarrow> 'v fail_job_builder" where
  "fjb_with_error_message error_message b = b\<lparr>fjb_error_message := Some error_message\<rparr>"

definition fail_job_request_of :: "'v fail_job_builder \<Rightarrow> (fail_job_request, error) outcome" where
  "fail_job_request_of b =
     (if fjb_job_key b = None \<and> cl_current_job_key (fjb_client b) = None
      then Err (InvalidParameters ''`job_key` must be set'')
      else bind_outcome
        (unwrap_option (option_or (fjb_job_key b) (cl_current_job_key (fjb_client b))) ''job_key'')
        (\<lambda>key. Ok \<lparr>fjr_job_key = key,
              fjr_retries = u32_as_i32 (option_unwrap_or (fjb_retries b) 0),
              fjr_error_message = option_unwrap_or (fjb_error_message b) []\<rparr>))"

definition fail_job_send :: "gateway \<Rightarrow> 'v fail_job_builder \<Rightarrow> world
    \<Rightarrow> (fail_job_response, error) outcome \<times> world" where
  "fail_job_send gw b w =
     send_checked gw (gw_fail_job gw) FailJob (fail_job_request_of b) (fjb_client b) w"

subsection \<open>Throwing an error\<close>

record 'v throw_error_builder =
  teb_client :: "'v client"
  teb_job_key :: "i64 option"
  teb_error_code :: "string option"
  teb_error_message :: "string option"

definition throw_error_builder_new :: "'v client \<Rightarrow> 'v throw_error_builder" where
  "throw_error_builder_new c =
     \<lparr>teb_client = c, teb_job_key = None, teb_error_code = None, teb_error_message = None\<rparr>"

definition teb_with_job_key :: "i64 \<Rightarrow> 'v throw_error_builder \<Rightarrow> 'v throw_error_builder" where
  "teb_with_job_key key b = b\<lparr>teb_job_key := Some key\<rparr>"

definition teb_with_error_code :: "string \<Rightarrow> 'v throw_error_builder \<Rightarrow> 'v throw_error_builder" where
  "teb_with_error_code error_code b = b\<lparr>teb_error_code := Some error_code\<rparr>"

definition teb_with_error_message :: "string \<Rightarrow> 'v throw_error_builder \<Rightarrow> 'v throw_error_builder" where
  "teb_with_error_message error_message b = b\<lparr>teb_error_message := Some error_message\<rparr>"

definition throw_error_request_of :: "'v throw_error_builder \<Rightarrow> (throw_error_request, error) outcome"
where
  "throw_error_request_of b =
     (if teb_job_key b = None \<and> cl_current_job_key (teb_client b) = None
      then Err (InvalidParameters ''`job_key` must be set'')
      else bind_outcome
        (unwrap_option (option_or (teb_job_key b) (cl_current_job_key (teb_client b))) ''job_key'')
        (\<lambda>key. Ok \<lparr>ter_job_key = key,
              ter_error_code = option_unwrap_or (teb_error_code b) [],
              ter_error_message = option_unwrap_or (teb_error_message b) []\<rparr>))"

definition throw_error_send :: "gateway \<Rightarrow> 'v throw_error_builder \<Rightarrow> world
    \<Rightarrow> (throw_error_response, error) outcome \<times> world" where
  "throw_error_send gw b w =
     send_checked gw (gw_throw_error gw) ThrowError (throw_error_request_of b) (teb_client b) w"

subsection \<open>Updating retries\<close>

record 'v update_job_retries_builder =
  ujb_client :: "'v client"
  ujb_job_key :: "i64 option"
  ujb_retries :: "u32 option"

definition update_job_retries_builder_new :: "'v client \<Rightarrow> 'v update_job_retries_builder" where
  "update_job_retries_builder_new c = \<lparr>ujb_client = c, ujb_job_key = None, ujb_retries = None\<rparr>"

definition ujb_with_job_key :: "i64 \<Rightarrow> 'v update_job_retries_builder \<Rightarrow> 'v update_job_retries_builder" where
  "ujb_with_job_key key b = b\<lparr>ujb_job_key := Some key\<rparr>"

definition ujb_with_retries :: "u32 \<Rightarrow> 'v update_job_retries_builder \<Rightarrow> 'v update_job_retries_builder" where
  "ujb_with_retries retries b = b\<lparr>ujb_retries := Some retries\<rparr>"

definition update_job_retries_request_of ::
    "'v update_job_retries_builder \<Rightarrow> (update_job_retries_request, error) outcome" where
  "update_job_retries_request_of b =
     (if ujb_job_key b = None \<and> cl_current_job_key (ujb_client b) = None \<or> ujb_retries b = None
      then Err (InvalidParameters ''`job_key` and `retries` must be set'')
      else bind_outcome
        (unwrap_option (option_or (ujb_job_key b) (cl_current_job_key (ujb_client b))) ''job_key'')
        (\<lambda>key. bind_outcome (unwrap_option (ujb_retries b) ''retries'')
          (\<lambda>retries. Ok \<lparr>ujr_job_key = key, ujr_retries = u32_as_i32 retries\<rparr>)))"

definition update_job_retries_send :: "gateway \<Rightarrow> 'v update_job_retries_builder \<Rightarrow> world
    \<Rightarrow> (update_job_retries_response, error) outcome \<times> world" where
  "update_job_retries_send gw b w =
     send_checked gw (gw_update_job_retries gw) UpdateJobRetries (update_job_retries_request_of b) (ujb_client b) w"

subsection \<open>The operations of the client\<close>

text \<open>Each starts a builder on a clone of the client, which is a value here.\<close>

definition client_complete_job :: "'v client \<Rightarrow> ('v, 'j) complete_job_builder" where
  "client_complete_job c = complete_job_builder_new c"

definition client_fail_job :: "'v client \<Rightarrow> 'v fail_job_builder" where
  "client_fail_job c = fail_job_builder_new c"

definition client_throw_error :: "'v client \<Rightarrow> 'v throw_error_builder" where
  "client_throw_error c = throw_error_builder_new c"

definition client_update_job_retries :: "'v client \<Rightarrow> 'v update_job_retries_builder" where
  "client_update_job_retries c = update_job_retries_builder_new c"

subsection \<open>The contract\<close>

lemmas job_request_defs =
  complete_job_request_of_def fail_job_request_of_def throw_error_request_of_def
  update_job_retries_request_of_def

lemma job_requests_no_panic:
  "complete_job_request_of sj cb \<noteq> Panic p"
  "fail_job_request_of fb \<noteq> Panic p"
  "throw_error_request_of tb \<noteq> Panic p"
  "update_job_retries_request_of ub \<noteq> Panic p"
  by (auto simp: job_request_defs bind_outcome_iffs)

lemma complete_job_request_of_eq_Ok_iff:
  "complete_job_request_of sj b = Ok r \<longleftrightarrow>
     option_or (cjb_job_key b) (cl_current_job_key (cjb_client b)) = Some (cjr_job_key r) \<and>
     r = \<lparr>cjr_job_key = cjr_job_key r, cjr_variables = variables_string sj (cjb_variables b)\<rparr>"
  by (cases r) (auto simp: complete_job_request_of_def bind_outcome_iffs)

lemma fail_job_request_of_eq_Ok_iff:
  "fail_job_request_of b = Ok r \<longleftrightarrow>
     option_or (fjb_job_key b) (cl_current_job_key (fjb_client b)) = Some (fjr_job_key r) \<and>
     r = \<lparr>fjr_job_key = fjr_job_key r, fjr_retries = u32_as_i32 (option_unwrap_or (fjb_retries b) 0),
          fjr_error_message = option_unwrap_or (fjb_error_message b) []\<rparr>"
  by (cases r) (auto simp: fail_job_request_of_def bind_outcome_iffs)

lemma throw_error_request_of_eq_Ok_iff:
  "throw_error_request_of b = Ok r \<longleftrightarrow>
     option_or (teb_job_key b) (cl_current_job_key (teb_client b)) = Some (ter_job_key r) \<and>
     r = \<lparr>ter_job_key = ter_job_key r, ter_error_code = option_unwrap_or (teb_error_code b) [],
          ter_error_message = option_unwrap_or (teb_error_message b) []\<rparr>"
  by (cases r) (auto simp: throw_error_request_of_def bind_outcome_iffs)

lemma update_job_retries_request_of_eq_Ok_iff:
  "update_job_retries_request_of b = Ok r \<longleftrightarrow>
     option_or (ujb_job_key b) (cl_current_job_key (ujb_client b)) = Some (ujr_job_key r) \<and>
     (\<exists>n. ujb_retries b = Some n \<and>
        r = \<lparr>ujr_job_key = ujr_job_key r, ujr_retries = u32_as_i32 n\<rparr>)"
  by (cases r) (auto simp: update_job_retries_request_of_def bind_outcome_iffs)

lemmas job_request_iffs =
  complete_job_request_of_eq_Ok_iff fail_job_request_of_eq_Ok_iff throw_error_request_of_eq_Ok_iff
  update_job_retries_request_of_eq_Ok_iff

lemma is_ok_eq: "is_ok x \<longleftrightarrow> (\<exists>r. x = Ok r)"
  by (cases x) simp_all

interpretation complete_job: job_rpc_builder gw "complete_job_send sj gw" cjb_client
    "\<lambda>b. message_of CompleteJob (complete_job_request_of sj b)"
    "\<lambda>b. answer_of (gw_complete_job gw) (complete_job_request_of sj b)"
    cjb_job_key cjb_with_job_key for sj gw
  by (intro job_rpc_builder.intro rpc_builder_checked job_rpc_builder_axioms.intro)
    (auto simp: complete_job_send_def job_requests_no_panic cjb_with_job_key_def is_ok_eq
      job_request_iffs)

interpretation fail_job: job_rpc_builder gw "fail_job_send gw" fjb_client
    "\<lambda>b. message_of FailJob (fail_job_request_of b)"
    "\<lambda>b. answer_of (gw_fail_job gw) (fail_job_request_of b)"
    fjb_job_key fjb_with_job_key for gw
  by (intro job_rpc_builder.intro rpc_builder_checked job_rpc_builder_axioms.intro)
    (auto simp: fail_job_send_def job_requests_no_panic fjb_with_job_key_def is_ok_eq
      job_request_iffs)

interpretation throw_error: job_rpc_builder gw "throw_error_send gw" teb_client
    "\<lambda>b. message_of ThrowError (throw_error_request_of b)"
    "\<lambda>b. answer_of (gw_throw_error gw) (throw_error_request_of b)"
    teb_job_key teb_with_job_key for gw
  by (intro job_rpc_builder.intro rpc_builder_checked job_rpc_builder_axioms.intro)
    (auto simp: throw_error_send_def job_requests_no_panic teb_with_job_key_def is_ok_eq
      job_request_iffs)

interpretation update_job_retries: job_rpc_builder gw "update_job_retries_send gw" ujb_client
    "\<lambda>b. message_of UpdateJobRetries (update_job_retries_request_of b)"
    "\<lambda>b. answer_of (gw_update_job_retries gw) (update_job_retries_request_of b)"
    ujb_job_key ujb_with_job_key for gw
  by (intro job_rpc_builder.intro rpc_builder_checked job_rpc_builder_axioms.intro)
    (auto simp: update_job_retries_send_def job_requests_no_panic ujb_with_job_key_def is_ok_eq
      job_request_iffs)

subsection \<open>What is sent\<close>

text \<open>
  Completing a job does not change its variables: if \<open>serde_json\<close> reads back what it writes, then
  the one request a completed job sends carries a text from which the receiver reads exactly the
  variables the builder was given.
\<close>

lemma complete_job_variables_roundtrip:
  assumes "\<And>v. sj_from_str sj (sj_to_string sj v) = Inr v"
    and "fst (complete_job_send sj gw (cjb_with_variables v b) w) = Ok resp"
  shows "\<exists>md r. wd_wire (snd (complete_job_send sj gw (cjb_with_variables v b) w)) =
      wd_wire w @ [(md, CompleteJob r)] \<and> variables_value sj (cjr_variables r) = v"
proof -
  obtain r md where r: "message_of CompleteJob (complete_job_request_of sj (cjb_with_variables v b)) = Ok r"
    and sent: "wd_wire (snd (complete_job_send sj gw (cjb_with_variables v b) w)) = wd_wire w @ [(md, r)]"
    using complete_job.send_Ok [OF assms(2)] by blast
  from r obtain req where "r = CompleteJob req" "cjr_variables req = sj_to_string sj v"
    by (auto simp: complete_job_request_of_eq_Ok_iff cjb_with_variables_def variables_string_def
        dest: arg_cong [where f = cjr_variables])
  with sent assms(1) [of v] show ?thesis
    by (auto simp: variables_value_def)
qed

text \<open>
  Retries keep their number only up to \<open>2 ^ 31 - 1\<close>: failing a job sends the configured number (zero
  if none is), and updating retries sends it too, while a larger number, which the builders accept
  as a \<open>u32\<close>, is sent as a negative one.
\<close>

lemma retries_on_the_wire:
  "(case fail_job_request_of b of
      Ok r \<Rightarrow> sint (fjr_retries r) =
        (let n = uint (option_unwrap_or (fjb_retries b) 0) in if n < 2 ^ 31 then n else n - 2 ^ 32)
    | _ \<Rightarrow> fjb_job_key b = None \<and> cl_current_job_key (fjb_client b) = None) \<and>
   (case update_job_retries_request_of u of
      Ok r \<Rightarrow> (\<exists>n. ujb_retries u = Some n \<and>
        sint (ujr_retries r) = (if uint n < 2 ^ 31 then uint n else uint n - 2 ^ 32))
    | _ \<Rightarrow> ujb_retries u = None \<or> ujb_job_key u = None \<and> cl_current_job_key (ujb_client u) = None)"
proof
  show "case fail_job_request_of b of
      Ok r \<Rightarrow> sint (fjr_retries r) =
        (let n = uint (option_unwrap_or (fjb_retries b) 0) in if n < 2 ^ 31 then n else n - 2 ^ 32)
    | _ \<Rightarrow> fjb_job_key b = None \<and> cl_current_job_key (fjb_client b) = None"
    by (cases "option_or (fjb_job_key b) (cl_current_job_key (fjb_client b))")
      (auto simp: fail_job_request_of_def sint_u32_as_i32 Let_def)
  show "case update_job_retries_request_of u of
      Ok r \<Rightarrow> (\<exists>n. ujb_retries u = Some n \<and>
        sint (ujr_retries r) = (if uint n < 2 ^ 31 then uint n else uint n - 2 ^ 32))
    | _ \<Rightarrow> ujb_retries u = None \<or> ujb_job_key u = None \<and> cl_current_job_key (ujb_client u) = None"
    by (cases "option_or (ujb_job_key u) (cl_current_job_key (ujb_client u))"; cases "ujb_retries u")
      (auto simp: update_job_retries_request_of_def sint_u32_as_i32)
qed

end
