(* ===== verification/Process_Commands.thy ===== *)
theory Process_Commands
  imports Client
begin

text \<open>
  The commands on processes (\<open>src/process.rs\<close>): deploying resource files, creating an instance (and
  waiting for its result), cancelling an instance and setting variables.
\<close>

subsection \<open>Deploying\<close>

text \<open>
  The file system: opening a file may fail, reading the opened file to its end may fail, or gives
  its bytes.
\<close>

type_synonym files = "string \<Rightarrow> io_error + (io_error + 8 word list)"

record 'v deploy_process_builder =
  dpb_client :: "'v client"
  dpb_resource_files :: "string list"

definition deploy_process_builder_new :: "'v client \<Rightarrow> 'v deploy_process_builder" where
  "deploy_process_builder_new c =
     \<lparr>dpb_client = c, dpb_resource_files = []\<rparr>"

definition dpb_with_resource_file :: "string \<Rightarrow> 'v deploy_process_builder \<Rightarrow> 'v deploy_process_builder"
where
  "dpb_with_resource_file resource_file b = b\<lparr>dpb_resource_files := [resource_file]\<rparr>"

definition dpb_with_resource_files :: "string list \<Rightarrow> 'v deploy_process_builder \<Rightarrow> 'v deploy_process_builder" where
  "dpb_with_resource_files resource_files b = b\<lparr>dpb_resource_files := resource_files\<rparr>"

definition read_process :: "files \<Rightarrow> string \<Rightarrow> (process_request_object, error) outcome" where
  "read_process fs path =
     (case fs path of
        Inl e \<Rightarrow> Err (FileIo path e)
      | Inr (Inl e) \<Rightarrow> Err (FileIo path e)
      | Inr (Inr definition) \<Rightarrow> Ok \<lparr>pro_name = path, pro_definition = definition\<rparr>)"

definition deploy_process_request_of ::
    "files \<Rightarrow> 'v deploy_process_builder \<Rightarrow> (deploy_process_request, error) outcome" where
  "deploy_process_request_of fs b =
     bind_outcome (traverse (read_process fs) (dpb_resource_files b))
       (\<lambda>processes. Ok \<lparr>dpr_processes = processes\<rparr>)"

definition deploy_process_send :: "files \<Rightarrow> gateway \<Rightarrow> 'v deploy_process_builder \<Rightarrow> world
    \<Rightarrow> (deploy_process_response, error) outcome \<times> world" where
  "deploy_process_send fs gw b w =
     send_checked gw (gw_deploy_process gw) DeployProcess (deploy_process_request_of fs b)
       (dpb_client b) w"

subsection \<open>Creating an instance\<close>

record ('v, 'j) create_process_instance_builder =
  cpb_client :: "'v client"
  cpb_process_definition_key :: "i64 option"
  cpb_bpmn_process_id :: "string option"
  cpb_version :: i32
  cpb_variables :: "'j option"

definition create_process_instance_builder_new :: "'v client \<Rightarrow> ('v, 'j) create_process_instance_builder" where
  "create_process_instance_builder_new c =
     \<lparr>cpb_client = c, cpb_process_definition_key = None, cpb_bpmn_process_id = None,
      cpb_version = - 1, cpb_variables = None\<rparr>"

definition cpb_with_process_definition_key :: "i64 \<Rightarrow> ('v, 'j) create_process_instance_builder \<Rightarrow> ('v, 'j) create_process_instance_builder" where
  "cpb_with_process_definition_key key b = b\<lparr>cpb_process_definition_key := Some key\<rparr>"

definition cpb_with_bpmn_process_id :: "string \<Rightarrow> ('v, 'j) create_process_instance_builder \<Rightarrow> ('v, 'j) create_process_instance_builder" where
  "cpb_with_bpmn_process_id bpmn_process_id b = b\<lparr>cpb_bpmn_process_id := Some bpmn_process_id\<rparr>"

definition cpb_with_version :: "i32 \<Rightarrow> ('v, 'j) create_process_instance_builder \<Rightarrow> ('v, 'j) create_process_instance_builder" where
  "cpb_with_version version b = b\<lparr>cpb_version := version\<rparr>"

definition cpb_with_latest_version :: "('v, 'j) create_process_instance_builder \<Rightarrow> ('v, 'j) create_process_instance_builder" where
  "cpb_with_latest_version b = b\<lparr>cpb_version := - 1\<rparr>"

definition cpb_with_variables :: "'j \<Rightarrow> ('v, 'j) create_process_instance_builder \<Rightarrow> ('v, 'j) create_process_instance_builder" where
  "cpb_with_variables variables b = b\<lparr>cpb_variables := Some variables\<rparr>"

definition create_process_instance_request_of ::
    "'j serde_json \<Rightarrow> ('v, 'j) create_process_instance_builder
      \<Rightarrow> (create_process_instance_request, error) outcome" where
  "create_process_instance_request_of sj b =
     (if cpb_process_definition_key b = None \<and> cpb_bpmn_process_id b = None
      then Err (InvalidParameters ''`process_definition_key` or `pbmn_process_id` must be set'')
      else Ok
        \<lparr>cpr_process_definition_key = option_unwrap_or (cpb_process_definition_key b) 0,
         cpr_bpmn_process_id = option_unwrap_or (cpb_bpmn_process_id b) [],
         cpr_version = cpb_version b,
         cpr_variables = variables_string sj (cpb_variables b)\<rparr>)"

definition create_process_instance_send ::
    "'j serde_json \<Rightarrow> gateway \<Rightarrow> ('v, 'j) create_process_instance_builder \<Rightarrow> world
      \<Rightarrow> (create_process_instance_response, error) outcome \<times> world" where
  "create_process_instance_send sj gw b w =
     send_checked gw (gw_create_process_instance gw) CreateProcessInstance
       (create_process_instance_request_of sj b) (cpb_client b) w"

subsection \<open>Creating an instance and waiting for its result\<close>

record ('v, 'j) create_process_instance_with_result_builder =
  cwb_client :: "'v client"
  cwb_process_definition_key :: "i64 option"
  cwb_bpmn_process_id :: "string option"
  cwb_version :: i32
  cwb_variables :: "'j option"
  cwb_request_timeout :: u64
  cwb_fetch_variables :: "string list"

definition create_process_instance_with_result_builder_new :: "'v client \<Rightarrow> ('v, 'j) create_process_instance_with_result_builder" where
  "create_process_instance_with_result_builder_new c =
     \<lparr>cwb_client = c, cwb_process_definition_key = None, cwb_bpmn_process_id = None,
      cwb_version = - 1, cwb_variables = None, cwb_request_timeout = 0, cwb_fetch_variables = []\<rparr>"

definition cwb_with_process_definition_key :: "i64 \<Rightarrow> ('v, 'j) create_process_instance_with_result_builder \<Rightarrow> ('v, 'j) create_process_instance_with_result_builder" where
  "cwb_with_process_definition_key key b = b\<lparr>cwb_process_definition_key := Some key\<rparr>"

definition cwb_with_bpmn_process_id :: "string \<Rightarrow> ('v, 'j) create_process_instance_with_result_builder \<Rightarrow> ('v, 'j) create_process_instance_with_result_builder" where
  "cwb_with_bpmn_process_id bpmn_process_id b = b\<lparr>cwb_bpmn_process_id := Some bpmn_process_id\<rparr>"

definition cwb_with_version :: "i32 \<Rightarrow> ('v, 'j) create_process_instance_with_result_builder \<Rightarrow> ('v, 'j) create_process_instance_with_result_builder" where
  "cwb_with_version version b = b\<lparr>cwb_version := version\<rparr>"

definition cwb_with_latest_version :: "('v, 'j) create_process_instance_with_result_builder \<Rightarrow> ('v, 'j) create_process_instance_with_result_builder" where
  "cwb_with_latest_version b = b\<lparr>cwb_version := - 1\<rparr>"

definition cwb_with_variables :: "'j \<Rightarrow> ('v, 'j) create_process_instance_with_result_builder \<Rightarrow> ('v, 'j) create_process_instance_with_result_builder" where
  "cwb_with_variables variables b = b\<lparr>cwb_variables := Some variables\<rparr>"

definition cwb_with_fetch_variables :: "string list \<Rightarrow> ('v, 'j) create_process_instance_with_result_builder \<Rightarrow> ('v, 'j) create_process_instance_with_result_builder" where
  "cwb_with_fetch_variables fetch_variables b = b\<lparr>cwb_fetch_variables := fetch_variables\<rparr>"

definition cwb_with_request_timeout :: "u64 \<Rightarrow> ('v, 'j) create_process_instance_with_result_builder \<Rightarrow> ('v, 'j) create_process_instance_with_result_builder" where
  "cwb_with_request_timeout request_timeout b = b\<lparr>cwb_request_timeout := request_timeout\<rparr>"

definition create_with_result_request_of ::
    "'j serde_json \<Rightarrow> ('v, 'j) create_process_instance_with_result_builder
      \<Rightarrow> (create_process_instance_with_result_request, error) outcome" where
  "create_with_result_request_of sj b =
     (if cwb_process_definition_key b = None \<and> cwb_bpmn_process_id b = None
      then Err (InvalidParameters ''`process_definition_key` or `pbmn_process_id` must be set'')
      else Ok
        \<lparr>cwr_request = Some
           \<lparr>cpr_process_definition_key = option_unwrap_or (cwb_process_definition_key b) 0,
            cpr_bpmn_process_id = option_unwrap_or (cwb_bpmn_process_id b) [],
            cpr_version = cwb_version b,
            cpr_variables = variables_string sj (cwb_variables b)\<rparr>,
         cwr_request_timeout = u64_as_i64 (cwb_request_timeout b),
         cwr_fetch_variables = cwb_fetch_variables b\<rparr>)"

definition create_with_result_send ::
    "'j serde_json \<Rightarrow> gateway \<Rightarrow> ('v, 'j) create_process_instance_with_result_builder \<Rightarrow> world
      \<Rightarrow> (create_process_instance_with_result_response, error) outcome \<times> world" where
  "create_with_result_send sj gw b w =
     send_checked gw (gw_create_process_instance_with_result gw) CreateProcessInstanceWithResult
       (create_with_result_request_of sj b) (cwb_client b) w"

definition cws_variables_value ::
    "'j serde_json \<Rightarrow> create_process_instance_with_result_response \<Rightarrow> 'j" where
  "cws_variables_value sj r = variables_value sj (cws_variables r)"

definition cws_variables_as ::
    "(string \<Rightarrow> serde_error + 't) \<Rightarrow> create_process_instance_with_result_response \<Rightarrow> 't option" where
  "cws_variables_as from_str r = variables_typed from_str (cws_variables r)"

subsection \<open>Cancelling an instance\<close>

record 'v cancel_process_instance_builder =
  xpb_client :: "'v client"
  xpb_process_instance_key :: "i64 option"

definition cancel_process_instance_builder_new :: "'v client \<Rightarrow> 'v cancel_process_instance_builder" where
  "cancel_process_instance_builder_new c =
     \<lparr>xpb_client = c, xpb_process_instance_key = None\<rparr>"

definition xpb_with_process_instance_key :: "i64 \<Rightarrow> 'v cancel_process_instance_builder \<Rightarrow> 'v cancel_process_instance_builder" where
  "xpb_with_process_instance_key key b = b\<lparr>xpb_process_instance_key := Some key\<rparr>"

definition cancel_process_instance_request_of ::
    "'v cancel_process_instance_builder \<Rightarrow> (cancel_process_instance_request, error) outcome" where
  "cancel_process_instance_request_of b =
     (if xpb_process_instance_key b = None
      then Err (InvalidParameters ''`process_instance_key` must be set'')
      else bind_outcome (unwrap_option (xpb_process_instance_key b) ''process_instance_key'')
        (\<lambda>key. Ok \<lparr>xpr_process_instance_key = key\<rparr>))"

definition cancel_process_instance_send ::
    "gateway \<Rightarrow> 'v cancel_process_instance_builder \<Rightarrow> world
      \<Rightarrow> (cancel_process_instance_response, error) outcome \<times> world" where
  "cancel_process_instance_send gw b w =
     send_checked gw (gw_cancel_process_instance gw) CancelProcessInstance
       (cancel_process_instance_request_of b) (xpb_client b) w"

subsection \<open>Setting variables\<close>

record ('v, 'j) set_variables_builder =
  svb_client :: "'v client"
  svb_element_instance_key :: "i64 option"
  svb_variables :: "'j option"
  svb_local :: bool

definition set_variables_builder_new :: "'v client \<Rightarrow> ('v, 'j) set_variables_builder" where
  "set_variables_builder_new c =
     \<lparr>svb_client = c, svb_element_instance_key = None, svb_variables = None, svb_local = False\<rparr>"

definition svb_with_element_instance_key :: "i64 \<Rightarrow> ('v, 'j) set_variables_builder \<Rightarrow> ('v, 'j) set_variables_builder" where
  "svb_with_element_instance_key key b = b\<lparr>svb_element_instance_key := Some key\<rparr>"

definition svb_with_variables :: "'j \<Rightarrow> ('v, 'j) set_variables_builder \<Rightarrow> ('v, 'j) set_variables_builder" where
  "svb_with_variables variables b = b\<lparr>svb_variables := Some variables\<rparr>"

definition svb_with_local :: "bool \<Rightarrow> ('v, 'j) set_variables_builder \<Rightarrow> ('v, 'j) set_variables_builder" where
  "svb_with_local is_local b = b\<lparr>svb_local := is_local\<rparr>"

definition set_variables_request_of ::
    "'j serde_json \<Rightarrow> ('v, 'j) set_variables_builder \<Rightarrow> (set_variables_request, error) outcome" where
  "set_variables_request_of sj b =
     (if svb_element_instance_key b = None
      then Err (InvalidParameters ''`element_instance_key` must be set'')
      else bind_outcome (unwrap_option (svb_element_instance_key b) ''element_instance_key'')
        (\<lambda>key. Ok
          \<lparr>svr_element_instance_key = key,
           svr_variables = variables_string sj (svb_variables b),
           svr_local = svb_local b\<rparr>))"

definition set_variables_send :: "'j serde_json \<Rightarrow> gateway \<Rightarrow> ('v, 'j) set_variables_builder \<Rightarrow> world
    \<Rightarrow> (set_variables_response, error) outcome \<times> world" where
  "set_variables_send sj gw b w =
     send_checked gw (gw_set_variables gw) SetVariables (set_variables_request_of sj b)
       (svb_client b) w"

subsection \<open>The operations of the client\<close>

text \<open>Each starts a builder on a clone of the client, which is a value here.\<close>

definition client_deploy_process :: "'v client \<Rightarrow> 'v deploy_process_builder" where
  "client_deploy_process c = deploy_process_builder_new c"

definition client_create_process_instance :: "'v client \<Rightarrow> ('v, 'j) create_process_instance_builder" where
  "client_create_process_instance c = create_process_instance_builder_new c"

definition client_create_process_instance_with_result :: "'v client \<Rightarrow> ('v, 'j) create_process_instance_with_result_builder" where
  "client_create_process_instance_with_result c = create_process_instance_with_result_builder_new c"

definition client_cancel_process_instance :: "'v client \<Rightarrow> 'v cancel_process_instance_builder" where
  "client_cancel_process_instance c = cancel_process_instance_builder_new c"

definition client_set_variables :: "'v client \<Rightarrow> ('v, 'j) set_variables_builder" where
  "client_set_variables c = set_variables_builder_new c"

subsection \<open>The contract\<close>

lemma read_process_eq_Ok_iff:
  "read_process fs path = Ok p \<longleftrightarrow>
     (\<exists>bytes. fs path = Inr (Inr bytes) \<and> p = \<lparr>pro_name = path, pro_definition = bytes\<rparr>)"
  by (auto simp: read_process_def split: sum.splits)

lemma read_process_no_panic: "read_process fs path \<noteq> Panic p"
  by (auto simp: read_process_def split: sum.splits)

lemma process_requests_no_panic:
  "deploy_process_request_of fs db \<noteq> Panic p"
  "create_process_instance_request_of sj cb \<noteq> Panic p"
  "create_with_result_request_of sj rb \<noteq> Panic p"
  "cancel_process_instance_request_of xb \<noteq> Panic p"
  "set_variables_request_of sj sb \<noteq> Panic p"
  by (auto simp: deploy_process_request_of_def create_process_instance_request_of_def
      create_with_result_request_of_def cancel_process_instance_request_of_def
      set_variables_request_of_def bind_outcome_iffs traverse_no_panic read_process_no_panic)

interpretation deploy_process: rpc_builder gw "deploy_process_send fs gw" dpb_client
    "\<lambda>b. message_of DeployProcess (deploy_process_request_of fs b)"
    "\<lambda>b. answer_of (gw_deploy_process gw) (deploy_process_request_of fs b)" for fs gw
  by (rule rpc_builder_checked) (simp_all add: deploy_process_send_def process_requests_no_panic)

interpretation create_process_instance: rpc_builder gw "create_process_instance_send sj gw" cpb_client
    "\<lambda>b. message_of CreateProcessInstance (create_process_instance_request_of sj b)"
    "\<lambda>b. answer_of (gw_create_process_instance gw) (create_process_instance_request_of sj b)" for sj gw
  by (rule rpc_builder_checked) (simp_all add: create_process_instance_send_def process_requests_no_panic)

interpretation create_with_result: rpc_builder gw "create_with_result_send sj gw" cwb_client
    "\<lambda>b. message_of CreateProcessInstanceWithResult (create_with_result_request_of sj b)"
    "\<lambda>b. answer_of (gw_create_process_instance_with_result gw) (create_with_result_request_of sj b)" for sj gw
  by (rule rpc_builder_checked) (simp_all add: create_with_result_send_def process_requests_no_panic)

interpretation cancel_process_instance: rpc_builder gw "cancel_process_instance_send gw" xpb_client
    "\<lambda>b. message_of CancelProcessInstance (cancel_process_instance_request_of b)"
    "\<lambda>b. answer_of (gw_cancel_process_instance gw) (cancel_process_instance_request_of b)" for gw
  by (rule rpc_builder_checked) (simp_all add: cancel_process_instance_send_def process_requests_no_panic)

interpretation set_variables: rpc_builder gw "set_variables_send sj gw" svb_client
    "\<lambda>b. message_of SetVariables (set_variables_request_of sj b)"
    "\<lambda>b. answer_of (gw_set_variables gw) (set_variables_request_of sj b)" for sj gw
  by (rule rpc_builder_checked) (simp_all add: set_variables_send_def process_requests_no_panic)

subsection \<open>Deploying is all or nothing\<close>

definition unreadable :: "files \<Rightarrow> string \<Rightarrow> bool" where
  "unreadable fs path \<longleftrightarrow> (\<forall>bytes. fs path \<noteq> Inr (Inr bytes))"

definition file_error :: "files \<Rightarrow> string \<Rightarrow> io_error" where
  "file_error fs path = (case fs path of Inl e \<Rightarrow> e | Inr (Inl e) \<Rightarrow> e | Inr (Inr _) \<Rightarrow> [])"

definition file_bytes :: "files \<Rightarrow> string \<Rightarrow> 8 word list" where
  "file_bytes fs path = (case fs path of Inr (Inr bytes) \<Rightarrow> bytes | _ \<Rightarrow> [])"

lemma read_process_eq:
  "read_process fs path =
     (if unreadable fs path then Err (FileIo path (file_error fs path))
      else Ok \<lparr>pro_name = path, pro_definition = file_bytes fs path\<rparr>)"
  by (auto simp: read_process_def unreadable_def file_error_def file_bytes_def split: sum.splits)

text \<open>
  Deploying is atomic on the client's side: if some resource file cannot be opened or read, the
  error names the first such file and nothing is sent; otherwise one request is sent with all the
  files, in the order given, each under its path and with its bytes.
\<close>

lemma deploy_all_or_nothing:
  assumes "bears_token gw (dpb_client b) w md"
  shows "case find (unreadable fs) (dpb_resource_files b) of
      Some path \<Rightarrow> deploy_process_send fs gw b w = (Err (FileIo path (file_error fs path)), w)
    | None \<Rightarrow> wd_wire (snd (deploy_process_send fs gw b w)) = wd_wire w @
        [(md, DeployProcess \<lparr>dpr_processes =
           map (\<lambda>path. \<lparr>pro_name = path, pro_definition = file_bytes fs path\<rparr>) (dpb_resource_files b)\<rparr>)]"
proof (cases "find (unreadable fs) (dpb_resource_files b)")
  case (Some path)
  then have "message_of DeployProcess (deploy_process_request_of fs b) =
      Err (FileIo path (file_error fs path))"
    by (simp add: deploy_process_request_of_def traverse_find [OF read_process_eq])
  from deploy_process.send_rejected [OF this] Some show ?thesis by simp
next
  case None
  then have "message_of DeployProcess (deploy_process_request_of fs b) = Ok (DeployProcess
      \<lparr>dpr_processes = map (\<lambda>path. \<lparr>pro_name = path, pro_definition = file_bytes fs path\<rparr>)
         (dpb_resource_files b)\<rparr>)"
    by (simp add: deploy_process_request_of_def traverse_find [OF read_process_eq])
  from deploy_process.send_sends [OF this assms] None show ?thesis by simp
qed

definition example_files :: files where
  "example_files path = (if path = ''a.bpmn'' then Inr (Inr [60, 63]) else Inl ''not found'')"

definition example_deploy :: "nat deploy_process_builder" where
  "example_deploy = dpb_with_resource_files [''a.bpmn'', ''b.bpmn''] (client_deploy_process
     (client_of_interceptor (BalanceList []) auth_interceptor_default))"

subsection \<open>The two ways of creating an instance\<close>

text \<open>The builder without the result, from the fields the two have in common.\<close>

definition without_result ::
    "('v, 'j) create_process_instance_with_result_builder \<Rightarrow> ('v, 'j) create_process_instance_builder"
where
  "without_result b =
     \<lparr>cpb_client = cwb_client b, cpb_process_definition_key = cwb_process_definition_key b,
      cpb_bpmn_process_id = cwb_bpmn_process_id b, cpb_version = cwb_version b,
      cpb_variables = cwb_variables b\<rparr>"

text \<open>
  The two ways of creating a process instance agree: creating one with its result is rejected
  exactly when creating one without is, with the same error, and otherwise the request contains
  the very request that the other operation sends, besides the fields for the result, of which
  the timeout is the configured number of milliseconds if it is below \<open>2 ^ 63\<close> and negative
  otherwise.
\<close>

lemma create_with_result_agrees:
  "(case create_process_instance_request_of sj (without_result b) of
      Ok inner \<Rightarrow>
        (\<exists>r. create_with_result_request_of sj b = Ok r \<and> cwr_request r = Some inner \<and>
           cwr_fetch_variables r = cwb_fetch_variables b \<and>
           sint (cwr_request_timeout r) =
             (if uint (cwb_request_timeout b) < 2 ^ 63 then uint (cwb_request_timeout b)
              else uint (cwb_request_timeout b) - 2 ^ 64))
    | Err e \<Rightarrow> create_with_result_request_of sj b = Err e
    | Panic p \<Rightarrow> False)"
  using sint_u64_as_i64 [of "cwb_request_timeout b"]
  by (simp add: create_process_instance_request_of_def create_with_result_request_of_def
      without_result_def)

end
