(* ===== verification/Message_Commands.thy ===== *)
theory Message_Commands
  imports Client
begin

text \<open>
  Publishing a message and resolving an incident (\<open>src/util.rs\<close>), and asking for the topology of the
  cluster (\<open>src/topology.rs\<close>).
\<close>

subsection \<open>Publishing a message\<close>

record ('v, 'j) publish_message_builder =
  pmb_client :: "'v client"
  pmb_name :: "string option"
  pmb_correlation_key :: "string option"
  pmb_time_to_live :: "u64 option"
  pmb_message_id :: "string option"
  pmb_variables :: "'j option"

definition publish_message_builder_new :: "'v client \<Rightarrow> ('v, 'j) publish_message_builder" where
  "publish_message_builder_new c =
     \<lparr>pmb_client = c, pmb_name = None, pmb_correlation_key = None, pmb_time_to_live = None,
      pmb_message_id = None, pmb_variables = None\<rparr>"

definition pmb_with_name :: "string \<Rightarrow> ('v, 'j) publish_message_builder \<Rightarrow> ('v, 'j) publish_message_builder" where
  "pmb_with_name name b = b\<lparr>pmb_name := Some name\<rparr>"

definition pmb_with_correlation_key :: "string \<Rightarrow> ('v, 'j) publish_message_builder \<Rightarrow> ('v, 'j) publish_message_builder" where
  "pmb_with_correlation_key correlation_key b = b\<lparr>pmb_correlation_key := Some correlation_key\<rparr>"

definition pmb_with_time_to_live :: "u64 \<Rightarrow> ('v, 'j) publish_message_builder \<Rightarrow> ('v, 'j) publish_message_builder" where
  "pmb_with_time_to_live ttl b = b\<lparr>pmb_time_to_live := Some ttl\<rparr>"

definition pmb_with_message_id :: "string \<Rightarrow> ('v, 'j) publish_message_builder \<Rightarrow> ('v, 'j) publish_message_builder" where
  "pmb_with_message_id message_id b = b\<lparr>pmb_message_id := Some message_id\<rparr>"

definition pmb_with_variables :: "'j \<Rightarrow> ('v, 'j) publish_message_builder \<Rightarrow> ('v, 'j) publish_message_builder" where
  "pmb_with_variables variables b = b\<lparr>pmb_variables := Some variables\<rparr>"

definition publish_message_request_of ::
    "'j serde_json \<Rightarrow> ('v, 'j) publish_message_builder \<Rightarrow> (publish_message_request, error) outcome"
where
  "publish_message_request_of sj b =
     (if pmb_name b = None then Err (InvalidParameters ''`name` must be set'')
      else bind_outcome (unwrap_option (pmb_name b) ''name'')
        (\<lambda>name. Ok
          \<lparr>pmr_name = name,
           pmr_correlation_key = option_unwrap_or (pmb_correlation_key b) [],
           pmr_time_to_live = u64_as_i64 (option_unwrap_or (pmb_time_to_live b) 0),
           pmr_message_id = option_unwrap_or (pmb_message_id b) [],
           pmr_variables = variables_string sj (pmb_variables b)\<rparr>))"

definition publish_message_send :: "'j serde_json \<Rightarrow> gateway \<Rightarrow> ('v, 'j) publish_message_builder \<Rightarrow> world
    \<Rightarrow> (publish_message_response, error) outcome \<times> world" where
  "publish_message_send sj gw b w =
     send_checked gw (gw_publish_message gw) PublishMessage (publish_message_request_of sj b)
       (pmb_client b) w"

subsection \<open>Resolving an incident\<close>

record 'v resolve_incident_builder =
  rib_client :: "'v client"
  rib_incident_key :: "i64 option"

definition resolve_incident_builder_new :: "'v client \<Rightarrow> 'v resolve_incident_builder" where
  "resolve_incident_builder_new c =
     \<lparr>rib_client = c, rib_incident_key = None\<rparr>"

definition rib_with_incident_key :: "i64 \<Rightarrow> 'v resolve_incident_builder \<Rightarrow> 'v resolve_incident_builder" where
  "rib_with_incident_key key b = b\<lparr>rib_incident_key := Some key\<rparr>"

definition resolve_incident_request_of ::
    "'v resolve_incident_builder \<Rightarrow> (resolve_incident_request, error) outcome" where
  "resolve_incident_request_of b =
     (if rib_incident_key b = None then Err (InvalidParameters ''`incident_key` must be set'')
      else bind_outcome (unwrap_option (rib_incident_key b) ''incident_key'')
        (\<lambda>key. Ok \<lparr>rir_incident_key = key\<rparr>))"

definition resolve_incident_send :: "gateway \<Rightarrow> 'v resolve_incident_builder \<Rightarrow> world
    \<Rightarrow> (resolve_incident_response, error) outcome \<times> world" where
  "resolve_incident_send gw b w =
     send_checked gw (gw_resolve_incident gw) ResolveIncident (resolve_incident_request_of b)
       (rib_client b) w"

subsection \<open>The topology\<close>

datatype 'v topology_builder = TopologyBuilder (tb_client: "'v client")

definition topology_builder_new :: "'v client \<Rightarrow> 'v topology_builder" where
  "topology_builder_new c = TopologyBuilder c"

definition topology_send :: "gateway \<Rightarrow> 'v topology_builder \<Rightarrow> world
    \<Rightarrow> (topology_response, error) outcome \<times> world" where
  "topology_send gw b w =
     send_checked gw (gw_topology gw) Topology (Ok TopologyRequest) (tb_client b) w"

text \<open>The accessors that change the sign of what the gateway sent.\<close>

definition topology_cluster_size :: "topology_response \<Rightarrow> u32" where
  "topology_cluster_size r = i32_as_u32 (ts_cluster_size r)"

definition topology_partitions_count :: "topology_response \<Rightarrow> u32" where
  "topology_partitions_count r = i32_as_u32 (ts_partitions_count r)"

definition topology_replication_factor :: "topology_response \<Rightarrow> u32" where
  "topology_replication_factor r = i32_as_u32 (ts_replication_factor r)"

definition broker_port :: "broker_info \<Rightarrow> u32" where
  "broker_port b = i32_as_u32 (bi_port b)"

subsection \<open>The operations of the client\<close>

text \<open>Each starts a builder on a clone of the client, which is a value here.\<close>

definition client_publish_message :: "'v client \<Rightarrow> ('v, 'j) publish_message_builder" where
  "client_publish_message c = publish_message_builder_new c"

definition client_resolve_incident :: "'v client \<Rightarrow> 'v resolve_incident_builder" where
  "client_resolve_incident c = resolve_incident_builder_new c"

definition client_topology :: "'v client \<Rightarrow> 'v topology_builder" where
  "client_topology c = topology_builder_new c"

subsection \<open>The contract\<close>

lemma message_requests_no_panic:
  "publish_message_request_of sj pb \<noteq> Panic p"
  "resolve_incident_request_of rb \<noteq> Panic p"
  by (auto simp: publish_message_request_of_def resolve_incident_request_of_def bind_outcome_iffs)

interpretation publish_message: rpc_builder gw "publish_message_send sj gw" pmb_client
    "\<lambda>b. message_of PublishMessage (publish_message_request_of sj b)"
    "\<lambda>b. answer_of (gw_publish_message gw) (publish_message_request_of sj b)" for sj gw
  by (rule rpc_builder_checked) (simp_all add: publish_message_send_def message_requests_no_panic)

interpretation resolve_incident: rpc_builder gw "resolve_incident_send gw" rib_client
    "\<lambda>b. message_of ResolveIncident (resolve_incident_request_of b)"
    "\<lambda>b. answer_of (gw_resolve_incident gw) (resolve_incident_request_of b)" for gw
  by (rule rpc_builder_checked) (simp_all add: resolve_incident_send_def message_requests_no_panic)

interpretation topology: rpc_builder gw "topology_send gw" tb_client
    "\<lambda>b. message_of Topology (Ok TopologyRequest)"
    "\<lambda>b. answer_of (gw_topology gw) (Ok TopologyRequest)" for gw
  by (rule rpc_builder_checked) (simp_all add: topology_send_def message_requests_no_panic)

subsection \<open>The time to live\<close>

text \<open>
  A published message lives as long as the builder says: an accepted request carries the name and
  the time to live of the builder (zero if none is set); the number of milliseconds is kept up to
  \<open>2 ^ 63 - 1\<close> and is negative beyond. A builder without a name is rejected and sends nothing.
\<close>

lemma publish_message_request:
  "(case pmb_name b of
      None \<Rightarrow> publish_message_send sj gw b w = (Err (InvalidParameters ''`name` must be set''), w)
    | Some name \<Rightarrow>
        (\<exists>r. publish_message_request_of sj b = Ok r \<and> pmr_name r = name \<and>
           sint (pmr_time_to_live r) =
             (let t = uint (option_unwrap_or (pmb_time_to_live b) 0)
              in if t < 2 ^ 63 then t else t - 2 ^ 64) \<and>
           (\<forall>md. bears_token gw (pmb_client b) w md \<longrightarrow>
              wd_wire (snd (publish_message_send sj gw b w)) = wd_wire w @ [(md, PublishMessage r)])))"
proof (cases "pmb_name b")
  case None
  then have "message_of PublishMessage (publish_message_request_of sj b) =
      Err (InvalidParameters ''`name` must be set'')"
    by (simp add: publish_message_request_of_def)
  from publish_message.send_rejected [OF this] None show ?thesis by simp
next
  case (Some name)
  then obtain r where r: "publish_message_request_of sj b = Ok r" "pmr_name r = name"
      "pmr_time_to_live r = u64_as_i64 (option_unwrap_or (pmb_time_to_live b) 0)"
    by (simp add: publish_message_request_of_def)
  then have "message_of PublishMessage (publish_message_request_of sj b) = Ok (PublishMessage r)"
    by simp
  from publish_message.send_sends [OF this] r Some show ?thesis
    by (simp add: sint_u64_as_i64 Let_def)
qed

end
