(* ===== verification/Client_Session.thy ===== *)
theory Client_Session
  imports Job_Commands Process_Commands Message_Commands "HOL-Library.Sublist"
begin

text \<open>
  A program that uses the client: a sequence of the client's operations, with the background task
  refreshing tokens in between. The operations together fulfil the contract \<open>rpc_builder\<close> again,
  and the properties say which requests reach the wire, and with which credentials.
\<close>

subsection \<open>All operations\<close>

datatype ('v, 'j) command =
    TopologyCommand "'v topology_builder"
  | DeployCommand "'v deploy_process_builder"
  | CreateCommand "('v, 'j) create_process_instance_builder"
  | CreateWithResultCommand "('v, 'j) create_process_instance_with_result_builder"
  | CancelCommand "'v cancel_process_instance_builder"
  | SetVariablesCommand "('v, 'j) set_variables_builder"
  | CompleteCommand "('v, 'j) complete_job_builder"
  | FailCommand "'v fail_job_builder"
  | ThrowCommand "'v throw_error_builder"
  | UpdateRetriesCommand "'v update_job_retries_builder"
  | PublishCommand "('v, 'j) publish_message_builder"
  | ResolveCommand "'v resolve_incident_builder"

fun command_client :: "('v, 'j) command \<Rightarrow> 'v client" where
  "command_client (TopologyCommand b) = tb_client b"
| "command_client (DeployCommand b) = dpb_client b"
| "command_client (CreateCommand b) = cpb_client b"
| "command_client (CreateWithResultCommand b) = cwb_client b"
| "command_client (CancelCommand b) = xpb_client b"
| "command_client (SetVariablesCommand b) = svb_client b"
| "command_client (CompleteCommand b) = cjb_client b"
| "command_client (FailCommand b) = fjb_client b"
| "command_client (ThrowCommand b) = teb_client b"
| "command_client (UpdateRetriesCommand b) = ujb_client b"
| "command_client (PublishCommand b) = pmb_client b"
| "command_client (ResolveCommand b) = rib_client b"

text \<open>The caller who is not interested in the response.\<close>

definition forget_response :: "('a, error) outcome \<times> world \<Rightarrow> (unit, error) outcome \<times> world" where
  "forget_response r = apfst (map_outcome (\<lambda>_. ()) (\<lambda>e. e)) r"

fun command_send :: "'j serde_json \<Rightarrow> files \<Rightarrow> gateway \<Rightarrow> ('v, 'j) command \<Rightarrow> world
    \<Rightarrow> (unit, error) outcome \<times> world" where
  "command_send sj fs gw (TopologyCommand b) w = forget_response (topology_send gw b w)"
| "command_send sj fs gw (DeployCommand b) w = forget_response (deploy_process_send fs gw b w)"
| "command_send sj fs gw (CreateCommand b) w =
     forget_response (create_process_instance_send sj gw b w)"
| "command_send sj fs gw (CreateWithResultCommand b) w =
     forget_response (create_with_result_send sj gw b w)"
| "command_send sj fs gw (CancelCommand b) w =
     forget_response (cancel_process_instance_send gw b w)"
| "command_send sj fs gw (SetVariablesCommand b) w = forget_response (set_variables_send sj gw b w)"
| "command_send sj fs gw (CompleteCommand b) w = forget_response (complete_job_send sj gw b w)"
| "command_send sj fs gw (FailCommand b) w = forget_response (fail_job_send gw b w)"
| "command_send sj fs gw (ThrowCommand b) w = forget_response (throw_error_send gw b w)"
| "command_send sj fs gw (UpdateRetriesCommand b) w =
     forget_response (update_job_retries_send gw b w)"
| "command_send sj fs gw (PublishCommand b) w = forget_response (publish_message_send sj gw b w)"
| "command_send sj fs gw (ResolveCommand b) w = forget_response (resolve_incident_send gw b w)"

text \<open>The request an operation makes, or the error its fields lead to.\<close>

fun command_request :: "'j serde_json \<Rightarrow> files \<Rightarrow> ('v, 'j) command \<Rightarrow> (grpc_request, error) outcome"
where
  "command_request sj fs (TopologyCommand b) = message_of Topology (Ok TopologyRequest)"
| "command_request sj fs (DeployCommand b) =
     message_of DeployProcess (deploy_process_request_of fs b)"
| "command_request sj fs (CreateCommand b) =
     message_of CreateProcessInstance (create_process_instance_request_of sj b)"
| "command_request sj fs (CreateWithResultCommand b) =
     message_of CreateProcessInstanceWithResult (create_with_result_request_of sj b)"
| "command_request sj fs (CancelCommand b) =
     message_of CancelProcessInstance (cancel_process_instance_request_of b)"
| "command_request sj fs (SetVariablesCommand b) =
     message_of SetVariables (set_variables_request_of sj b)"
| "command_request sj fs (CompleteCommand b) =
     message_of CompleteJob (complete_job_request_of sj b)"
| "command_request sj fs (FailCommand b) = message_of FailJob (fail_job_request_of b)"
| "command_request sj fs (ThrowCommand b) = message_of ThrowError (throw_error_request_of b)"
| "command_request sj fs (UpdateRetriesCommand b) =
     message_of UpdateJobRetries (update_job_retries_request_of b)"
| "command_request sj fs (PublishCommand b) =
     message_of PublishMessage (publish_message_request_of sj b)"
| "command_request sj fs (ResolveCommand b) =
     message_of ResolveIncident (resolve_incident_request_of b)"

definition forget_answer :: "status + 'a \<Rightarrow> status + unit" where
  "forget_answer r = map_sum (\<lambda>st. st) (\<lambda>_. ()) r"

fun command_answer :: "'j serde_json \<Rightarrow> files \<Rightarrow> gateway \<Rightarrow> ('v, 'j) command \<Rightarrow> wire list \<Rightarrow> metadata
    \<Rightarrow> status + unit" where
  "command_answer sj fs gw (TopologyCommand b) ws md =
     forget_answer (answer_of (gw_topology gw) (Ok TopologyRequest) ws md)"
| "command_answer sj fs gw (DeployCommand b) ws md =
     forget_answer (answer_of (gw_deploy_process gw) (deploy_process_request_of fs b) ws md)"
| "command_answer sj fs gw (CreateCommand b) ws md =
     forget_answer
       (answer_of (gw_create_process_instance gw) (create_process_instance_request_of sj b) ws md)"
| "command_answer sj fs gw (CreateWithResultCommand b) ws md =
     forget_answer
       (answer_of (gw_create_process_instance_with_result gw) (create_with_result_request_of sj b) ws md)"
| "command_answer sj fs gw (CancelCommand b) ws md =
     forget_answer
       (answer_of (gw_cancel_process_instance gw) (cancel_process_instance_request_of b) ws md)"
| "command_answer sj fs gw (SetVariablesCommand b) ws md =
     forget_answer (answer_of (gw_set_variables gw) (set_variables_request_of sj b) ws md)"
| "command_answer sj fs gw (CompleteCommand b) ws md =
     forget_answer (answer_of (gw_complete_job gw) (complete_job_request_of sj b) ws md)"
| "command_answer sj fs gw (FailCommand b) ws md =
     forget_answer (answer_of (gw_fail_job gw) (fail_job_request_of b) ws md)"
| "command_answer sj fs gw (ThrowCommand b) ws md =
     forget_answer (answer_of (gw_throw_error gw) (throw_error_request_of b) ws md)"
| "command_answer sj fs gw (UpdateRetriesCommand b) ws md =
     forget_answer (answer_of (gw_update_job_retries gw) (update_job_retries_request_of b) ws md)"
| "command_answer sj fs gw (PublishCommand b) ws md =
     forget_answer (answer_of (gw_publish_message gw) (publish_message_request_of sj b) ws md)"
| "command_answer sj fs gw (ResolveCommand b) ws md =
     forget_answer (answer_of (gw_resolve_incident gw) (resolve_incident_request_of b) ws md)"

lemma forget_send:
  assumes "rpc_builder gw send client_of request answer"
  shows "request b = Err e \<Longrightarrow> forget_response (send b w) = (Err e, w)"
    and "request b = Ok r \<Longrightarrow>
      forget_response (send b w) =
        (case call_metadata gw (client_of b) w of
           Inl st \<Rightarrow> (Err (GRPC st), w)
         | Inr md \<Rightarrow>
             ((case forget_answer (answer b (wd_wire w) md) of
                 Inl st \<Rightarrow> Err (GRPC st) | Inr resp \<Rightarrow> Ok resp),
              w\<lparr>wd_wire := wd_wire w @ [(md, r)]\<rparr>))"
  using rpc_builder.send_rejected [OF assms, of b e w] rpc_builder.send_accepted [OF assms, of b r w]
  by (auto simp: forget_response_def forget_answer_def split: sum.splits)

lemmas command_sends_rejected =
  forget_send(1) [OF topology.rpc_builder_axioms] forget_send(1) [OF deploy_process.rpc_builder_axioms]
  forget_send(1) [OF create_process_instance.rpc_builder_axioms]
  forget_send(1) [OF create_with_result.rpc_builder_axioms]
  forget_send(1) [OF cancel_process_instance.rpc_builder_axioms]
  forget_send(1) [OF set_variables.rpc_builder_axioms]
  forget_send(1) [OF complete_job.rpc_builder_axioms] forget_send(1) [OF fail_job.rpc_builder_axioms]
  forget_send(1) [OF throw_error.rpc_builder_axioms]
  forget_send(1) [OF update_job_retries.rpc_builder_axioms]
  forget_send(1) [OF publish_message.rpc_builder_axioms]
  forget_send(1) [OF resolve_incident.rpc_builder_axioms]

lemmas command_sends_accepted =
  forget_send(2) [OF topology.rpc_builder_axioms] forget_send(2) [OF deploy_process.rpc_builder_axioms]
  forget_send(2) [OF create_process_instance.rpc_builder_axioms]
  forget_send(2) [OF create_with_result.rpc_builder_axioms]
  forget_send(2) [OF cancel_process_instance.rpc_builder_axioms]
  forget_send(2) [OF set_variables.rpc_builder_axioms]
  forget_send(2) [OF complete_job.rpc_builder_axioms] forget_send(2) [OF fail_job.rpc_builder_axioms]
  forget_send(2) [OF throw_error.rpc_builder_axioms]
  forget_send(2) [OF update_job_retries.rpc_builder_axioms]
  forget_send(2) [OF publish_message.rpc_builder_axioms]
  forget_send(2) [OF resolve_incident.rpc_builder_axioms]

interpretation command: rpc_builder gw "command_send sj fs gw" command_client "command_request sj fs"
    "command_answer sj fs gw" for sj fs gw
proof unfold_locales
  show "command_request sj fs b \<noteq> Panic p" for b p
    by (cases b) (simp_all add: job_requests_no_panic process_requests_no_panic message_requests_no_panic)
  show "command_send sj fs gw b w = (Err e, w)" if "command_request sj fs b = Err e" for b e w
    using that by (cases b) (simp_all add: command_sends_rejected)
  show "command_send sj fs gw b w =
      (case call_metadata gw (command_client b) w of
         Inl st \<Rightarrow> (Err (GRPC st), w)
       | Inr md \<Rightarrow>
           ((case command_answer sj fs gw b (wd_wire w) md of
               Inl st \<Rightarrow> Err (GRPC st) | Inr resp \<Rightarrow> Ok resp),
            w\<lparr>wd_wire := wd_wire w @ [(md, r)]\<rparr>))" if "command_request sj fs b = Ok r" for b r w
    using that by (cases b) (simp_all only: command_send.simps command_request.simps
        command_client.simps command_answer.simps command_sends_accepted)
qed

subsection \<open>One operation\<close>

text \<open>A valid and an invalid operation, for concrete inputs.\<close>

definition example_fail :: "(nat, string) command" where
  "example_fail = FailCommand (fjb_with_job_key 5 (client_fail_job example_client))"

definition example_invalid :: "(nat, string) command" where
  "example_invalid = FailCommand (client_fail_job example_client)"

definition example_sent :: wire where
  "example_sent = (example_metadata,
     FailJob \<lparr>fjr_job_key = 5, fjr_retries = 0, fjr_error_message = []\<rparr>)"

lemmas example_fail_defs =
  example_fail_def example_invalid_def client_fail_job_def fail_job_builder_new_def
  fjb_with_job_key_def

lemma example_commands [simp]:
  "command_client example_fail = example_client"
  "command_client example_invalid = example_client"
  "command_request sj fs example_fail = Ok (snd example_sent)"
  "command_request sj fs example_invalid = Err (InvalidParameters ''`job_key` must be set'')"
  by (simp_all add: example_fail_defs example_sent_def fail_job_request_of_def u32_as_i32_def)

lemma example_fail_sent:
  "wd_wire (snd (command_send sj fs example_gateway example_fail example_authenticated_world)) =
     [example_sent]"
  using command.send_sends [of sj fs example_fail "snd example_sent" example_gateway
      example_authenticated_world example_metadata] example_bears_token [of example_client]
  by (simp add: example_sent_def example_authenticated_world_def)

lemma command_request_error:
  "command_request sj fs c = Err e \<Longrightarrow> \<exists>m path io. e = InvalidParameters m \<or> e = FileIo path io"
proof (cases c)
  case (DeployCommand b)
  assume "command_request sj fs c = Err e"
  with DeployCommand show ?thesis
    by (auto simp: deploy_process_request_of_def bind_outcome_iffs traverse_find [OF read_process_eq]
        split: option.splits)
qed (auto simp: job_request_defs create_process_instance_request_of_def
    create_with_result_request_of_def cancel_process_instance_request_of_def
    set_variables_request_of_def publish_message_request_of_def resolve_incident_request_of_def
    bind_outcome_iffs split: if_splits)

text \<open>
  C29: Every operation of the client makes at most one request, and its result says which: a
  response means that exactly the builder's request was sent, a status that it was sent or that
  the interceptor refused it, any other error that the builder was invalid and nothing was sent;
  no operation panics.
\<close>

theorem operation_result_tells_request:
  "case fst (command_send sj fs gw c w) of
      Ok u \<Rightarrow> (\<exists>r md. command_request sj fs c = Ok r \<and>
        snd (command_send sj fs gw c w) = w\<lparr>wd_wire := wd_wire w @ [(md, r)]\<rparr>)
    | Err (GRPC st) \<Rightarrow> (\<exists>r md. command_request sj fs c = Ok r \<and>
        (snd (command_send sj fs gw c w) = w \<or>
         snd (command_send sj fs gw c w) = w\<lparr>wd_wire := wd_wire w @ [(md, r)]\<rparr>))
    | Err e \<Rightarrow> command_request sj fs c = Err e \<and> snd (command_send sj fs gw c w) = w
    | Panic p \<Rightarrow> False"
proof (cases rule: command.send_cases [of sj fs c gw w])
  case (rejected e)
  then show ?thesis
    using command_request_error [OF rejected(1)] by (auto split: error.splits)
qed auto

text \<open>The key of the job that an operation on a job is about.\<close>

fun command_job_key :: "('v, 'j) command \<Rightarrow> i64 option" where
  "command_job_key (CompleteCommand b) = option_or (cjb_job_key b) (cl_current_job_key (cjb_client b))"
| "command_job_key (FailCommand b) = option_or (fjb_job_key b) (cl_current_job_key (fjb_client b))"
| "command_job_key (ThrowCommand b) = option_or (teb_job_key b) (cl_current_job_key (teb_client b))"
| "command_job_key (UpdateRetriesCommand b) =
     option_or (ujb_job_key b) (cl_current_job_key (ujb_client b))"
| "command_job_key _ = None"

text \<open>
  A request about a job is about the right job: whatever an operation sends names the job key set
  on its builder or, if none is, the key of the job the client was handed for, and an operation on
  a job that has neither sends nothing.
\<close>

lemma operation_names_its_job:
  "\<forall>(md, r) \<in> set (drop (length (wd_wire w)) (wd_wire (snd (command_send sj fs gw c w)))).
     job_key_of r = command_job_key c"
proof -
  have "job_key_of r = command_job_key c" if "command_request sj fs c = Ok r" for r
    using that by (cases c) (auto simp: job_request_iffs)
  then show ?thesis
    using command.send_wire [of sj fs gw c w] by auto
qed

subsection \<open>Sessions\<close>

datatype ('v, 'j) session_event = Issue "('v, 'j) command" | Refresh nat tick

inductive session_step :: "'j serde_json \<Rightarrow> files \<Rightarrow> gateway \<Rightarrow> world \<Rightarrow> ('v, 'j) session_event \<Rightarrow> world
    \<Rightarrow> bool" for sj fs gw where
  issue: "session_step sj fs gw w (Issue c) (snd (command_send sj fs gw c w))"
| refresh: "run_tick k (wd_providers w a) = Ok p \<Longrightarrow>
    session_step sj fs gw w (Refresh a k) (w\<lparr>wd_providers := (wd_providers w)(a := p)\<rparr>)"

inductive_cases session_step_IssueE: "session_step sj fs gw w (Issue c) t"
inductive_cases session_step_RefreshE: "session_step sj fs gw w (Refresh a k) t"

definition uses_provider :: "nat \<Rightarrow> ('v, 'j) session_event list \<Rightarrow> bool" where
  "uses_provider a es \<longleftrightarrow>
     (\<forall>c. Issue c \<in> set es \<longrightarrow>
        ai_token_provider (cl_gateway_interceptor (command_client c)) = Some a)"

text \<open>The requests of the operations of a session that are valid, in their order.\<close>

fun valid_requests :: "'j serde_json \<Rightarrow> files \<Rightarrow> ('v, 'j) session_event list \<Rightarrow> grpc_request list" where
  "valid_requests sj fs [] = []"
| "valid_requests sj fs (Refresh a k # es) = valid_requests sj fs es"
| "valid_requests sj fs (Issue c # es) =
     (case command_request sj fs c of
        Ok r \<Rightarrow> r # valid_requests sj fs es
      | _ \<Rightarrow> valid_requests sj fs es)"

definition bearer_metadata :: "gateway \<Rightarrow> metadata \<Rightarrow> bool" where
  "bearer_metadata gw md \<longleftrightarrow>
     (\<exists>token v. gw_metadata_value gw (''Bearer '' @ token) = Inr v \<and> md = [''authorization'' \<mapsto> v])"

lemma uses_provider_Cons [simp]:
  "uses_provider a (Issue c # es) \<longleftrightarrow>
     ai_token_provider (cl_gateway_interceptor (command_client c)) = Some a \<and> uses_provider a es"
  "uses_provider a (Refresh b k # es) \<longleftrightarrow> uses_provider a es"
  by (auto simp: uses_provider_def)

lemma bears_token_bearer:
  "bears_token gw c w md \<Longrightarrow> ai_token_provider (cl_gateway_interceptor c) = Some a \<Longrightarrow>
   bearer_metadata gw md"
  by (auto simp: bears_token_def bearer_metadata_def)

lemma session_step_wire:
  assumes "session_step sj fs gw w e t" "uses_provider a [e]"
  shows "\<exists>sent. wd_wire t = wd_wire w @ sent \<and> (\<forall>(md, r) \<in> set sent. bearer_metadata gw md) \<and>
    (map snd sent = [] \<or> map snd sent = valid_requests sj fs [e])"
  using assms(1)
proof cases
  case (issue c)
  show ?thesis
    using command.send_wire [of sj fs gw c w]
  proof
    assume "wd_wire (snd (command_send sj fs gw c w)) = wd_wire w"
    with issue show ?thesis by simp
  next
    assume "\<exists>r md. command_request sj fs c = Ok r \<and> bears_token gw (command_client c) w md \<and>
      wd_wire (snd (command_send sj fs gw c w)) = wd_wire w @ [(md, r)]"
    then obtain r md where "command_request sj fs c = Ok r" "bears_token gw (command_client c) w md"
        "wd_wire (snd (command_send sj fs gw c w)) = wd_wire w @ [(md, r)]"
      by blast
    with issue assms(2) show ?thesis
      by (intro exI [of _ "[(md, r)]"]) (simp add: bears_token_bearer)
  qed
qed simp

lemma valid_requests_Cons: "valid_requests sj fs (e # es) = valid_requests sj fs [e] @ valid_requests sj fs es"
  by (cases e) (simp_all split: outcome.splits)

text \<open>
  C22: Nothing leaves an OAuth client without credentials: in every session, however its operations and
  the token refreshes interleave, the wire only grows, each new request carries an authorization
  header made of a bearer token, and the requests are a subsequence, in order, of those the valid
  operations make.
\<close>

theorem session_requests_authenticated:
  assumes "run (session_step sj fs gw) w es w'" "uses_provider a es"
  shows "\<exists>sent. wd_wire w' = wd_wire w @ sent \<and> (\<forall>(md, r) \<in> set sent. bearer_metadata gw md) \<and>
    subseq (map snd sent) (valid_requests sj fs es)"
  using assms
proof (induction rule: run.induct)
  case (run_step w e t es u)
  have uses: "uses_provider a [e]" "uses_provider a es"
    using run_step.prems by (auto simp: uses_provider_def)
  obtain sent where s: "wd_wire t = wd_wire w @ sent" "\<forall>(md, r) \<in> set sent. bearer_metadata gw md"
      "map snd sent = [] \<or> map snd sent = valid_requests sj fs [e]"
    using session_step_wire [OF run_step.hyps(1) uses(1)] by blast
  obtain sents where ss: "wd_wire u = wd_wire t @ sents"
      "\<forall>(md, r) \<in> set sents. bearer_metadata gw md"
      "subseq (map snd sents) (valid_requests sj fs es)"
    using run_step.IH [OF uses(2)] by blast
  have "subseq (map snd sent @ map snd sents) (valid_requests sj fs [e] @ valid_requests sj fs es)"
    using s(3) ss(3) by (intro list_emb_append_mono) auto
  with s ss show ?case
    by (intro exI [of _ "sent @ sents"]) (auto simp: valid_requests_Cons [of sj fs e es])
qed simp

definition example_tick :: tick where
  "example_tick =
     \<lparr>tk_server = (\<lambda>_. ExchangeOk example_token_response), tk_checked = from_secs 100,
      tk_received = from_secs 101\<rparr>"

definition example_session :: "(nat, string) session_event list" where
  "example_session = [Issue example_fail, Refresh 0 example_tick, Issue example_invalid, Issue example_fail]"

lemma example_uses_provider: "uses_provider 0 example_session"
  by (simp add: example_session_def) (simp add: uses_provider_def)

text \<open>
  A session that starts without a token: the first operation is refused, then the token arrives,
  and the last operation is sent.
\<close>

lemma example_session_run:
  "run (session_step example_json example_files example_gateway) example_world example_session
     (example_authenticated_world\<lparr>wd_next_provider := 0,
        wd_providers := (\<lambda>_. example_provider)(0 := example_refreshed), wd_wire := [example_sent]\<rparr>)"
proof -
  let ?step = "session_step example_json example_files example_gateway"
  let ?w1 = "example_world\<lparr>wd_providers := (wd_providers example_world)(0 := example_refreshed)\<rparr>"
  have refused: "command_send example_json example_files example_gateway example_fail example_world =
      (Err (GRPC (permission_denied ''No valid token available'')), example_world)"
    using command.send_unauthenticated [of example_fail 0 example_world example_json example_files
        "snd example_sent" example_gateway]
    by (simp add: example_world_def example_provider_def new_token_provider_unauthenticated)
  have "bears_token example_gateway example_client ?w1 example_metadata"
    using example_bears_token [of example_client]
    by (simp add: bears_token_def example_world_def example_authenticated_world_def)
  then have sent: "snd (command_send example_json example_files example_gateway example_fail ?w1) =
      ?w1\<lparr>wd_wire := wd_wire ?w1 @ [example_sent]\<rparr>"
    using command.send_accepted [of example_json example_files example_fail "snd example_sent"
        example_gateway ?w1]
    by (simp add: call_metadata_bears_token [THEN iffD2] example_sent_def split: sum.splits)
  have "?step example_world (Issue example_fail) example_world"
    using session_step.issue [of example_json example_files example_gateway example_world example_fail]
    by (simp add: refused)
  moreover have "?step example_world (Refresh 0 example_tick) ?w1"
    by (rule session_step.refresh)
      (simp add: run_tick_def example_tick_def example_world_def example_refresh)
  moreover have "?step ?w1 (Issue example_invalid) ?w1"
    using session_step.issue [of example_json example_files example_gateway ?w1 example_invalid]
      command.send_rejected [of example_json example_files example_invalid _ example_gateway ?w1]
    by simp
  moreover have "?step ?w1 (Issue example_fail) (?w1\<lparr>wd_wire := wd_wire ?w1 @ [example_sent]\<rparr>)"
    using session_step.issue [of example_json example_files example_gateway ?w1 example_fail]
    by (simp add: sent)
  ultimately show ?thesis
    by (auto simp: example_session_def run_Cons_iff example_world_def example_authenticated_world_def)
qed

theorem session_requests_authenticated_witness:
  "bearer_metadata example_gateway example_metadata \<and>
   subseq [snd example_sent] (valid_requests example_json example_files example_session)"
  using session_requests_authenticated [OF example_session_run example_uses_provider]
  by (auto simp: example_world_def example_sent_def)

definition has_token :: "nat \<Rightarrow> world \<Rightarrow> bool" where
  "has_token a w \<longleftrightarrow> is_ok (access_token (wd_providers w a))"

text \<open>
  A token is legal if it can be put into a header; the header's syntax is tonic's. A provider is
  usable if it has a legal token, and then remains so through refreshes that issue legal tokens.
\<close>

definition legal_token :: "gateway \<Rightarrow> string \<Rightarrow> bool" where
  "legal_token gw token \<longleftrightarrow>
     (case gw_metadata_value gw (''Bearer '' @ token) of Inl err \<Rightarrow> False | Inr v \<Rightarrow> True)"

definition usable_provider :: "gateway \<Rightarrow> nat \<Rightarrow> world \<Rightarrow> bool" where
  "usable_provider gw a w \<longleftrightarrow>
     (case access_token (wd_providers w a) of Ok token \<Rightarrow> legal_token gw token | _ \<Rightarrow> False)"

lemma usable_provider_iff:
  "usable_provider gw a w \<longleftrightarrow> (\<exists>token. access_token (wd_providers w a) = Ok token \<and> legal_token gw token)"
  by (auto simp: usable_provider_def split: outcome.splits)

lemma usable_provider_refresh:
  assumes "usable_provider gw a w" "run_tick k (wd_providers w b) = Ok p"
    and "\<And>token. b = a \<Longrightarrow> issues k token \<Longrightarrow> legal_token gw token"
  shows "usable_provider gw a (w\<lparr>wd_providers := (wd_providers w)(b := p)\<rparr>)"
proof (cases "b = a")
  case True
  obtain token where "access_token (wd_providers w a) = Ok token" "legal_token gw token"
    using assms(1) by (auto simp: usable_provider_iff)
  then have "\<exists>token'. access_token p = Ok token' \<and> legal_token gw token'"
    using provider.tick_keeps [of _ token "legal_token gw" k p] assms(2,3) True by blast
  with True show ?thesis by (simp add: usable_provider_iff)
next
  case False
  with assms(1) show ?thesis by (simp add: usable_provider_iff)
qed

lemma usable_provider_wire [simp]:
  "usable_provider gw a (w\<lparr>wd_wire := ws\<rparr>) = usable_provider gw a w"
  by (simp add: usable_provider_iff)

fun legal_refresh :: "gateway \<Rightarrow> nat \<Rightarrow> ('v, 'j) session_event \<Rightarrow> bool" where
  "legal_refresh gw a (Refresh b k) \<longleftrightarrow> b = a \<longrightarrow> (\<forall>token. issues k token \<longrightarrow> legal_token gw token)"
| "legal_refresh gw a (Issue c) \<longleftrightarrow> True"

interpretation tokens: inductive_invariant "usable_provider gw a"
    "\<lambda>w e t. legal_refresh gw a e \<and> session_step sj fs gw w e t" "usable_provider gw a"
  for gw a sj fs
proof unfold_locales
  show "usable_provider gw a t"
    if "usable_provider gw a s" "legal_refresh gw a e \<and> session_step sj fs gw s e t" for s e t
    using that(2) [THEN conjunct2]
  proof cases
    case (issue c)
    with that(1) show ?thesis by (simp add: usable_provider_iff command.send_frame)
  next
    case (refresh k b p)
    with that usable_provider_refresh [of gw a s k b p] show ?thesis by auto
  qed
qed

lemma bears_token_exists:
  assumes "usable_provider gw a w" "ai_token_provider (cl_gateway_interceptor c) = Some a"
  shows "\<exists>md. bears_token gw c w md"
proof -
  obtain token where t: "access_token (wd_providers w a) = Ok token" "legal_token gw token"
    using assms(1) by (auto simp: usable_provider_iff)
  then obtain v where "gw_metadata_value gw (''Bearer '' @ token) = Inr v"
    unfolding legal_token_def by (cases "gw_metadata_value gw (''Bearer '' @ token)") simp_all
  with t(1) assms(2) show ?thesis by (auto simp: bears_token_def)
qed

text \<open>
  C23: From the first token on the client refuses nothing: if the client's provider has a token that is
  a legal header value, and its refreshes issue such tokens, then a session puts on the wire
  exactly the requests of its valid operations, each once and in order, whatever the token
  refreshes in between do.
\<close>

theorem authenticated_session_sends_all:
  assumes "run (session_step sj fs gw) w es w'" "uses_provider a es" "usable_provider gw a w"
    and "\<And>k token. Refresh a k \<in> set es \<Longrightarrow> issues k token \<Longrightarrow> legal_token gw token"
  shows "\<exists>sent. wd_wire w' = wd_wire w @ sent \<and> map snd sent = valid_requests sj fs es"
  using assms
proof (induction rule: run.induct)
  case (run_step w e t es u)
  have uses: "uses_provider a [e]" "uses_provider a es"
    using run_step.prems(1) by (auto simp: uses_provider_def)
  have "legal_refresh gw a e"
    using run_step.prems(3) by (cases e) auto
  then have "usable_provider gw a t"
    using tokens.inv_step run_step.prems(2) run_step.hyps(1) by blast
  then obtain sents where ss: "wd_wire u = wd_wire t @ sents" "map snd sents = valid_requests sj fs es"
    using run_step.IH uses(2) run_step.prems(3) by auto
  have "\<exists>sent. wd_wire t = wd_wire w @ sent \<and> map snd sent = valid_requests sj fs [e]"
    using run_step.hyps(1)
  proof cases
    case (issue c)
    obtain md where md: "bears_token gw (command_client c) w md"
      using bears_token_exists [OF run_step.prems(2)] uses(1) issue by auto
    show ?thesis
    proof (cases "command_request sj fs c")
      case (Ok r)
      from command.send_sends [OF this md] Ok issue show ?thesis
        by (intro exI [of _ "[(md, r)]"]) simp
    next
      case (Err e)
      from command.send_rejected [OF this, of gw w] Err issue show ?thesis by simp
    qed (simp add: command.request_no_panic)
  qed simp
  then obtain sent where "wd_wire t = wd_wire w @ sent" "map snd sent = valid_requests sj fs [e]"
    by blast
  with ss show ?case
    by (intro exI [of _ "sent @ sents"]) (simp add: valid_requests_Cons [of sj fs e es])
qed simp

lemma example_usable: "usable_provider example_gateway 0 example_authenticated_world"
  by (simp add: usable_provider_def legal_token_def example_gateway_def example_authenticated_world_def
      example_refreshed_def access_token_def notify_initialized_def store_token_def
      example_provider_defs)

lemma example_authenticated_run:
  "\<exists>w. run (session_step example_json example_files example_gateway) example_authenticated_world
     [Issue example_invalid, Issue example_fail] w"
  by (auto simp: run_Cons_iff intro: session_step.issue)

theorem authenticated_session_sends_all_witness:
  "\<exists>w sent. run (session_step example_json example_files example_gateway) example_authenticated_world
     [Issue example_invalid, Issue example_fail] w \<and>
   wd_wire w = sent \<and> map snd sent = [snd example_sent]"
proof -
  obtain w where w: "run (session_step example_json example_files example_gateway)
      example_authenticated_world [Issue example_invalid, Issue example_fail] w"
    using example_authenticated_run by blast
  from authenticated_session_sends_all [OF w _ example_usable] w show ?thesis
    by (auto simp: uses_provider_def example_authenticated_world_def)
qed

text \<open>
  Before the first token nothing is sent: in every session in which the client's own provider has
  no token and is not refreshed, the wire stays as it was, whatever operations are tried.
\<close>

lemma no_request_before_first_token:
  assumes "run (session_step sj fs gw) w es w'" "uses_provider a es" "\<not> has_token a w"
    and "\<And>k. Refresh a k \<notin> set es"
  shows "wd_wire w' = wd_wire w"
  using assms
proof (induction rule: run.induct)
  case (run_step w e t es u)
  have "wd_wire t = wd_wire w \<and> \<not> has_token a t"
    using run_step.hyps(1)
  proof cases
    case (issue c)
    have c: "ai_token_provider (cl_gateway_interceptor (command_client c)) = Some a"
      using run_step.prems(1) issue by (auto simp: uses_provider_def)
    have "\<not> is_ok (access_token (wd_providers w a))"
      using run_step.prems(2) by (simp add: has_token_def)
    note denied = command.send_unauthenticated [OF c this]
    show ?thesis
    proof (cases "command_request sj fs c")
      case (Ok r)
      from denied [OF this, of gw] issue run_step.prems(2) show ?thesis by simp
    next
      case (Err e)
      from command.send_rejected [OF this, of gw w] issue run_step.prems(2) show ?thesis by simp
    qed (simp add: command.request_no_panic)
  next
    case (refresh k b p)
    with run_step.prems(2,3) show ?thesis
      by (auto simp: has_token_def)
  qed
  with run_step.IH run_step.prems show ?case
    by (auto simp: uses_provider_def)
qed simp

end
