(* ===== verification/Error_Texts.thy ===== *)
theory Error_Texts
  imports Gateway_Protocol
begin

text \<open>
  The texts of an error (\<open>src/error.rs\<close>): its \<open>Display\<close> text, which the attributes of the enum give, and
  the derived \<open>Debug\<close> text, which an auto handler sends to the gateway when the parameters of a job
  cannot be extracted. A string in a \<open>Debug\<close> text is quoted and escaped, and can be read back.
\<close>

subsection \<open>Quoted strings\<close>

text \<open>
  \<open>Debug\<close> of \<open>str\<close>. The characters of the model are the code points below 256: of those, Rust escapes
  the control characters, the no-break space and the soft hyphen by their number in hexadecimal,
  and a few by a letter.
\<close>

definition BACKSLASH :: char where "BACKSLASH = CHR 0x5C"
definition QUOTE :: char where "QUOTE = CHR 0x22"

definition hex_digit :: "nat \<Rightarrow> char" where
  "hex_digit n = char_of (if n < 10 then 48 + n else 87 + n)"

definition hex_of :: "nat \<Rightarrow> string" where
  "hex_of n = (if n < 16 then [hex_digit n] else [hex_digit (n div 16), hex_digit (n mod 16)])"

definition is_printable :: "char \<Rightarrow> bool" where
  "is_printable c \<longleftrightarrow>
     (let n = of_char c :: nat in 32 \<le> n \<and> n < 127 \<or> 160 < n \<and> n \<noteq> 173)"

definition escape_debug :: "char \<Rightarrow> string" where
  "escape_debug c =
     (if c = CHR 0x00 then [BACKSLASH, CHR ''0'']
      else if c = CHR 0x09 then [BACKSLASH, CHR ''t'']
      else if c = CHR 0x0D then [BACKSLASH, CHR ''r'']
      else if c = CHR 0x0A then [BACKSLASH, CHR ''n'']
      else if c = BACKSLASH \<or> c = QUOTE then [BACKSLASH, c]
      else if is_printable c then [c]
      else [BACKSLASH, CHR ''u'', CHR ''{''] @ hex_of (of_char c) @ ''}'')"

definition str_debug :: "string \<Rightarrow> string" where
  "str_debug s = QUOTE # concat (map escape_debug s) @ [QUOTE]"

text \<open>Reading a quoted string back, and what follows it.\<close>

definition hex_value :: "char \<Rightarrow> nat option" where
  "hex_value c =
     (let n = of_char c :: nat
      in if 48 \<le> n \<and> n < 58 then Some (n - 48)
         else if 97 \<le> n \<and> n < 103 then Some (n - 87) else None)"

fun read_hex :: "nat \<Rightarrow> string \<Rightarrow> (char \<times> string) option" where
  "read_hex n [] = None"
| "read_hex n (c # s) =
     (if c = CHR ''}'' then Some (char_of n, s)
      else case hex_value c of None \<Rightarrow> None | Some d \<Rightarrow> read_hex (16 * n + d) s)"

fun read_escape :: "string \<Rightarrow> (char \<times> string) option" where
  "read_escape [] = None"
| "read_escape (c # s) =
     (if c = CHR ''0'' then Some (CHR 0x00, s)
      else if c = CHR ''t'' then Some (CHR 0x09, s)
      else if c = CHR ''r'' then Some (CHR 0x0D, s)
      else if c = CHR ''n'' then Some (CHR 0x0A, s)
      else if c = CHR ''u'' then read_hex 0 (tl s)
      else Some (c, s))"

fun read_char :: "string \<Rightarrow> (char \<times> string) option" where
  "read_char [] = None"
| "read_char (c # s) = (if c = BACKSLASH then read_escape s else Some (c, s))"

lemma read_hex_length: "read_hex n s = Some (c, r) \<Longrightarrow> length r < length s"
  by (induction n s rule: read_hex.induct) (auto split: if_splits option.splits)

lemma read_escape_length: "read_escape s = Some (c, r) \<Longrightarrow> length r < length s"
  by (cases s) (auto split: if_splits dest!: read_hex_length)

lemma read_char_length: "read_char s = Some (c, r) \<Longrightarrow> length r < length s"
  by (cases s) (auto split: if_splits dest!: read_escape_length)

function read_quoted :: "string \<Rightarrow> (string \<times> string) option" where
  "read_quoted s =
     (if s \<noteq> [] \<and> hd s = QUOTE then Some ([], tl s)
      else case read_char s of
             None \<Rightarrow> None
           | Some (c, r) \<Rightarrow> map_option (\<lambda>(t, r'). (c # t, r')) (read_quoted r))"
  by pat_completeness auto
termination
  by (relation "measure length") (auto dest: read_char_length)

declare read_quoted.simps [simp del]

lemma hex_value_digit: "n < 16 \<Longrightarrow> hex_value (hex_digit n) = Some n"
  by (simp add: hex_value_def hex_digit_def Let_def)

lemma hex_digit_not_brace: "n < 16 \<Longrightarrow> hex_digit n \<noteq> CHR ''}''"
  by (auto simp: hex_digit_def dest!: arg_cong [of _ _ "of_char :: char \<Rightarrow> nat"] split: if_splits)

lemma read_hex_of: "n < 256 \<Longrightarrow> read_hex 0 (hex_of n @ CHR ''}'' # s) = Some (char_of n, s)"
  by (simp add: hex_of_def hex_value_digit hex_digit_not_brace)

lemma read_char_escaped: "read_char (escape_debug c @ s) = Some (c, s)"
proof (cases "c = CHR 0x00 \<or> c = CHR 0x09 \<or> c = CHR 0x0D \<or> c = CHR 0x0A \<or> c = BACKSLASH \<or>
    c = QUOTE \<or> is_printable c")
  case True
  then show ?thesis
    by (auto simp: escape_debug_def BACKSLASH_def QUOTE_def)
next
  case False
  then have "read_char (escape_debug c @ s) = read_hex 0 (hex_of (of_char c) @ CHR ''}'' # s)"
    by (simp add: escape_debug_def BACKSLASH_def)
  then show ?thesis
    by (simp add: read_hex_of)
qed

lemma escape_debug_hd: "\<exists>d r. escape_debug c = d # r \<and> d \<noteq> QUOTE"
  by (auto simp: escape_debug_def BACKSLASH_def QUOTE_def)

lemma read_quoted_str:
  "read_quoted (concat (map escape_debug s) @ QUOTE # r) = Some (s, r)"
proof (induction s)
  case (Cons c s)
  obtain d q where "escape_debug c = d # q" "d \<noteq> QUOTE"
    using escape_debug_hd by blast
  then show ?case
    using read_char_escaped [of c "concat (map escape_debug s) @ QUOTE # r"] Cons.IH
    by (subst read_quoted.simps) simp
qed (simp add: read_quoted.simps)

text \<open>The contract of the \<open>Debug\<close> text of a string: it starts with a quote, and can be read back.\<close>

fun read_str :: "string \<Rightarrow> (string \<times> string) option" where
  "read_str [] = None"
| "read_str (c # s) = (if c = QUOTE then read_quoted s else None)"

lemma read_str_debug [simp]: "read_str (str_debug s @ r) = Some (s, r)"
  by (simp add: str_debug_def read_quoted_str)

subsection \<open>The texts of an error\<close>

text \<open>
  What other crates contribute: the \<open>Display\<close> text of a status, and the \<open>Debug\<close> texts of their error
  types (the \<open>Display\<close> text of those is what the model keeps of them).
\<close>

record error_formats =
  ef_display_status :: "status \<Rightarrow> string"
  ef_debug_status :: "status \<Rightarrow> string"
  ef_debug_transport :: "transport_error \<Rightarrow> string"
  ef_debug_io :: "io_error \<Rightarrow> string"
  ef_debug_serde :: "serde_error \<Rightarrow> string"

fun error_display :: "error_formats \<Rightarrow> error \<Rightarrow> string" where
  "error_display ef (InvalidGatewayUri message uri) =
     ''invalid gateway uri '' @ [CHR 0x27] @ str_debug uri @ [CHR 0x27] @ '': '' @ str_debug message"
| "error_display ef (Transport e) = e"
| "error_display ef (GRPC st) = ef_display_status ef st"
| "error_display ef (FileIo resource_file source) =
     ''Invalid resource file '' @ str_debug resource_file @ '': '' @ ef_debug_io ef source"
| "error_display ef (InvalidParameters m) = ''Invalid parameters: '' @ m"
| "error_display ef (DeserializationError e) =
     ''Cannot deserialize variables to expected type: '' @ e"
| "error_display ef MissingWorkerStateConfig =
     ''Worker state is not configured, use `JobWorkerBuilder::with_state` while building worker for this job''"
| "error_display ef (Auth m) = ''Could not authenticate: '' @ m"

fun error_debug :: "error_formats \<Rightarrow> error \<Rightarrow> string" where
  "error_debug ef (InvalidGatewayUri message uri) =
     ''InvalidGatewayUri { message: '' @ str_debug message @ '', uri: '' @ str_debug uri @ '' }''"
| "error_debug ef (Transport e) = ''Transport('' @ ef_debug_transport ef e @ '')''"
| "error_debug ef (GRPC st) = ''GRPC('' @ ef_debug_status ef st @ '')''"
| "error_debug ef (FileIo resource_file source) =
     ''FileIo { resource_file: '' @ str_debug resource_file @ '', source: '' @
       ef_debug_io ef source @ '' }''"
| "error_debug ef (InvalidParameters m) = ''InvalidParameters('' @ str_debug m @ '')''"
| "error_debug ef (DeserializationError e) =
     ''DeserializationError('' @ ef_debug_serde ef e @ '')''"
| "error_debug ef MissingWorkerStateConfig = ''MissingWorkerStateConfig''"
| "error_debug ef (Auth m) = ''Auth('' @ str_debug m @ '')''"

subsection \<open>Reading an error's text back\<close>

fun strip_prefix :: "string \<Rightarrow> string \<Rightarrow> string option" where
  "strip_prefix [] s = Some s"
| "strip_prefix (p # ps) [] = None"
| "strip_prefix (p # ps) (c # s) = (if p = c then strip_prefix ps s else None)"

lemma strip_prefix_append [simp]: "strip_prefix p (p @ s) = Some s"
  by (induction p) simp_all

text \<open>
  What a text tells: the error, with the foreign error in it replaced by that one's text. Texts of a
  transport error or a status are not the client's own.
\<close>

datatype error_report =
    UriReport string string
  | FileReport string string
  | ParametersReport string
  | DeserializationReport string
  | StateReport
  | AuthReport string

fun display_report :: "error_formats \<Rightarrow> error \<Rightarrow> error_report option" where
  "display_report ef (InvalidGatewayUri message uri) = Some (UriReport message uri)"
| "display_report ef (FileIo f e) = Some (FileReport f (ef_debug_io ef e))"
| "display_report ef (InvalidParameters m) = Some (ParametersReport m)"
| "display_report ef (DeserializationError e) = Some (DeserializationReport e)"
| "display_report ef MissingWorkerStateConfig = Some StateReport"
| "display_report ef (Auth m) = Some (AuthReport m)"
| "display_report ef _ = None"

definition read_uri_report :: "string \<Rightarrow> error_report option" where
  "read_uri_report s =
     Option.bind (strip_prefix (''invalid gateway uri '' @ [CHR 0x27]) s) (\<lambda>s.
     Option.bind (read_str s) (\<lambda>(uri, s).
     Option.bind (strip_prefix ([CHR 0x27] @ '': '') s) (\<lambda>s.
     map_option (\<lambda>(message, _). UriReport message uri) (read_str s))))"

definition read_file_report :: "string \<Rightarrow> error_report option" where
  "read_file_report s =
     Option.bind (strip_prefix ''Invalid resource file '' s) (\<lambda>s.
     Option.bind (read_str s) (\<lambda>(f, s). map_option (FileReport f) (strip_prefix '': '' s)))"

definition read_report :: "string \<Rightarrow> error_report option" where
  "read_report s =
     option_or (read_uri_report s)
    (option_or (read_file_report s)
    (option_or (map_option ParametersReport (strip_prefix ''Invalid parameters: '' s))
    (option_or (map_option DeserializationReport
        (strip_prefix ''Cannot deserialize variables to expected type: '' s))
    (option_or (map_option AuthReport (strip_prefix ''Could not authenticate: '' s))
       (map_option (\<lambda>_. StateReport) (strip_prefix ''Worker state is not configured'' s))))))"

lemma read_str_debug_end [simp]: "read_str (str_debug s) = Some (s, [])"
  using read_str_debug [of s "[]"] by simp

text \<open>
  C38: The text of an error of the client's own kinds (all but transport errors and statuses, whose texts
  other crates make and which may look like any of these) tells what went wrong: from the text it
  displays, the kind of the error can be read back among these kinds, and with it the invalid
  address and the message about it, the resource file, or the message, whichever of the characters
  below code point 256 the strings in it contain, quotes and control characters included.
\<close>

theorem error_text_read_back:
  assumes "display_report ef e = Some r"
  shows "read_report (error_display ef e) = Some r"
  using assms
  by (cases e) (auto simp: read_report_def read_uri_report_def read_file_report_def)

definition example_error_formats :: error_formats where
  "example_error_formats =
     \<lparr>ef_display_status = status_message, ef_debug_status = (\<lambda>st. str_debug (status_message st)),
      ef_debug_transport = str_debug, ef_debug_io = str_debug, ef_debug_serde = str_debug\<rparr>"

theorem error_text_read_back_witness:
  "read_report (error_display example_error_formats
      (FileIo [CHR ''a'', CHR 0x22, CHR 0x0A, CHR 0x7F] ''not found'')) =
     Some (FileReport [CHR ''a'', CHR 0x22, CHR 0x0A, CHR 0x7F] (str_debug ''not found''))"
  by (rule error_text_read_back) (simp add: example_error_formats_def)

lemma example_error_texts:
  "error_display ef (FileIo ''a b'' e) =
     ''Invalid resource file '' @ [CHR 0x22] @ ''a b'' @ [CHR 0x22] @ '': '' @ ef_debug_io ef e"
  "str_debug [CHR 0x7F, CHR 0x0A] =
     [QUOTE, BACKSLASH, CHR ''u''] @ ''{7f}'' @ [BACKSLASH, CHR ''n'', QUOTE]"
  by (simp_all add: str_debug_def escape_debug_def is_printable_def BACKSLASH_def QUOTE_def
      hex_of_def hex_digit_def char_of_def bit_iff_odd)

end
