(* ===== verification/Auto_Handler.thy ===== *)
theory Auto_Handler
  imports Client_Session Error_Texts
begin

text \<open>
  How a job reaches the user's handler and how its result is reported: the extractors of
  \<open>src/worker/auto_handler\<close>, the handlers that \<open>with_handler\<close> and \<open>with_auto_handler\<close> of
  \<open>src/worker/builder.rs\<close> make, and the task that the dispatcher runs for a job
  (\<open>src/worker/job_dispatcher.rs\<close>).
\<close>

subsection \<open>Extractors\<close>

text \<open>
  A parameter of an auto handler is the client, the job, the deserialized variables (with the
  \<open>Deserialize\<close> implementation of their type) or a shared state. A \<open>State<T>\<close> is an \<open>Arc<T>\<close>: the
  value \<open>'v\<close> that stands for it is the shared address.
\<close>

datatype 'd extractor =
    FromClient
  | FromJobItself
  | FromData "string \<Rightarrow> serde_error + 'd"
  | FromState type_id

datatype ('v, 'd) extracted =
    ExtractedClient "'v client"
  | ExtractedJob job
  | ExtractedData 'd
  | ExtractedState 'v

fun from_job :: "'v client \<Rightarrow> job \<Rightarrow> 'd extractor \<Rightarrow> (('v, 'd) extracted, error) outcome" where
  "from_job client job FromClient = Ok (ExtractedClient client)"
| "from_job client job FromJobItself = Ok (ExtractedJob job)"
| "from_job client job (FromData from_str) =
     (case from_str (job_variables_str job) of
        Inl err \<Rightarrow> Err (DeserializationError err)
      | Inr data \<Rightarrow> Ok (ExtractedData data))"
| "from_job client job (FromState t) =
     (case Option.bind (cl_current_job_extensions client) (ext_get (StateOf t)) of
        Some state \<Rightarrow> Ok (ExtractedState state)
      | None \<Rightarrow> Err MissingWorkerStateConfig)"

text \<open>The \<open>FromJob\<close> implementation for tuples: each component in turn, up to the first error.\<close>

definition tuple_from_job ::
    "'d extractor list \<Rightarrow> 'v client \<Rightarrow> job \<Rightarrow> (('v, 'd) extracted list, error) outcome" where
  "tuple_from_job xs client job = traverse (from_job client job) xs"

subsection \<open>Handlers\<close>

text \<open>
  A handler may use the client before it is done, so it changes the world; it may panic. The
  user's function in an auto handler gets the extracted parameters and returns its result, or
  the text of its error.
\<close>

type_synonym 'v job_handler = "'v client \<Rightarrow> job \<Rightarrow> world \<Rightarrow> (unit, error) outcome \<times> world"
type_synonym ('v, 'd, 'o) user_handler =
  "('v, 'd) extracted list \<Rightarrow> world \<Rightarrow> ('o, string) outcome \<times> world"

definition debug_job_handler :: "'v job_handler \<Rightarrow> string" where
  "debug_job_handler h = ''JobHandler''"

definition job_handler_call ::
    "'v job_handler \<Rightarrow> 'v client \<Rightarrow> job \<Rightarrow> world \<Rightarrow> (unit, error) outcome \<times> world" where
  "job_handler_call h client job w = h client job w"

text \<open>
  \<open>HandlerFactory::call\<close>, which the macro implements for functions of one to ten parameters: the
  function applied to the components of the tuple.
\<close>

definition handler_factory_call ::
    "('v, 'd, 'o) user_handler \<Rightarrow> ('v, 'd) extracted list \<Rightarrow> world \<Rightarrow> ('o, string) outcome \<times> world"
where
  "handler_factory_call handler params w = handler params w"

definition plain_handler :: "'v job_handler \<Rightarrow> 'v job_handler" where
  "plain_handler handler client job w =
     handler (client\<lparr>cl_current_job_key := Some (job_key job)\<rparr>) job w"

text \<open>
  What \<open>serde\<close> and \<open>Debug\<close> do for types outside the repository: turning the handler's result into a
  JSON value (\<open>json!\<close> unwraps it) and the texts of other crates' errors.
\<close>

record ('j, 'o) handler_formats =
  hf_json :: "'j serde_json"
  hf_to_value :: "'o \<Rightarrow> serde_error + 'j"
  hf_errors :: error_formats

definition report_success ::
    "('j, 'o) handler_formats \<Rightarrow> gateway \<Rightarrow> 'v client \<Rightarrow> 'o \<Rightarrow> world \<Rightarrow> (unit, error) outcome \<times> world" where
  "report_success hf gw client variables w =
     (case unwrap_result (hf_to_value hf variables) ''json!'' of
        Ok v \<Rightarrow>
          (Ok (), snd (complete_job_send (hf_json hf) gw
             (cjb_with_variables v (client_complete_job client)) w))
      | Err e \<Rightarrow> (Err e, w)
      | Panic p \<Rightarrow> (Panic p, w))"

definition report_failure ::
    "gateway \<Rightarrow> 'v client \<Rightarrow> string \<Rightarrow> world \<Rightarrow> (unit, error) outcome \<times> world" where
  "report_failure gw client message w =
     (Ok (), snd (fail_job_send gw (fjb_with_error_message message (client_fail_job client)) w))"

definition extraction_error_message :: "('j, 'o) handler_formats \<Rightarrow> error \<Rightarrow> string" where
  "extraction_error_message hf err =
     ''variables do not deserialize to expected type: '' @ error_debug (hf_errors hf) err"

definition auto_handler_body ::
    "('j, 'o) handler_formats \<Rightarrow> gateway \<Rightarrow> 'd extractor list \<Rightarrow> ('v, 'd, 'o) user_handler
      \<Rightarrow> 'v job_handler" where
  "auto_handler_body hf gw xs handler client job w =
     (case tuple_from_job xs client job of
        Ok params \<Rightarrow>
          (case handler_factory_call handler params w of
             (Ok variables, w') \<Rightarrow> report_success hf gw client variables w'
           | (Err message, w') \<Rightarrow> report_failure gw client message w'
           | (Panic p, w') \<Rightarrow> (Panic p, w'))
      | Err err \<Rightarrow> report_failure gw client (extraction_error_message hf err) w
      | Panic p \<Rightarrow> (Panic p, w))"

definition auto_handler ::
    "('j, 'o) handler_formats \<Rightarrow> gateway \<Rightarrow> 'd extractor list \<Rightarrow> ('v, 'd, 'o) user_handler
      \<Rightarrow> 'v job_handler" where
  "auto_handler hf gw xs handler = plain_handler (auto_handler_body hf gw xs handler)"

text \<open>
  The task of the dispatcher for a job, up to the message to the poller: the worker's client is
  cloned, told the job's key and given the worker's extensions.
\<close>

definition job_client :: "'v extensions \<Rightarrow> 'v client \<Rightarrow> job \<Rightarrow> 'v client" where
  "job_client extensions client job =
     client\<lparr>cl_current_job_key := Some (job_key job),
            cl_current_job_extensions := Some extensions\<rparr>"

text \<open>\<open>JobTask\<close>, without the worker's name, which is only logged, and the sender of the message queue.\<close>

record 'v job_task =
  jt_job :: job
  jt_job_client :: "'v client"
  jt_handler :: "'v job_handler"
  jt_extensions :: "'v extensions"

definition job_task_run :: "'v job_task \<Rightarrow> world \<Rightarrow> (unit, error) outcome \<times> world" where
  "job_task_run task w =
     job_handler_call (jt_handler task)
       (job_client (jt_extensions task) (jt_job_client task) (jt_job task)) (jt_job task) w"

definition dispatch_job ::
    "'v job_handler \<Rightarrow> 'v extensions \<Rightarrow> 'v client \<Rightarrow> job \<Rightarrow> world \<Rightarrow> (unit, error) outcome \<times> world" where
  "dispatch_job handler extensions client job w =
     job_task_run
       \<lparr>jt_job = job, jt_job_client = client, jt_handler = handler, jt_extensions = extensions\<rparr> w"

lemmas handler_calls [simp] = job_handler_call_def handler_factory_call_def job_task_run_def

lemma job_client_simps [simp]:
  "cl_current_job_key (job_client extensions client job) = Some (job_key job)"
  "cl_current_job_extensions (job_client extensions client job) = Some extensions"
  "cl_gateway_interceptor (job_client extensions client job) = cl_gateway_interceptor client"
  "(job_client extensions client job)\<lparr>cl_current_job_key := Some (job_key job)\<rparr> =
     job_client extensions client job"
  by (cases client; simp add: job_client_def)+

subsection \<open>Extraction\<close>

lemma traverse_Ok_all: "traverse f xs = Ok ys \<Longrightarrow> y \<in> set xs \<Longrightarrow> is_ok (f y)"
  by (induction xs arbitrary: ys) (auto simp: bind_outcome_eq_Ok_iff)

lemma from_job_no_panic: "from_job client job x \<noteq> Panic p"
  by (cases x) (auto split: sum.splits option.splits)

lemma from_job_Err:
  assumes "from_job client job x = Err e"
  shows "e = MissingWorkerStateConfig \<or> (\<exists>err. e = DeserializationError err)"
proof (cases x)
  case (FromData f)
  with assms show ?thesis by (cases "f (job_variables_str job)") auto
next
  case (FromState t)
  with assms show ?thesis
    by (cases "Option.bind (cl_current_job_extensions client) (ext_get (StateOf t))") auto
qed (use assms in simp_all)

lemma tuple_from_job_no_panic: "tuple_from_job xs client job \<noteq> Panic p"
  by (simp add: tuple_from_job_def traverse_no_panic from_job_no_panic)

text \<open>
  An auto handler is called with all its parameters or not at all: extraction either gives one
  value per parameter, each as its extractor produces it, or stops at the first parameter that
  fails, with that parameter's error, which is a deserialization error or a missing state.
\<close>

lemma extraction_all_or_first_error:
  "case tuple_from_job xs client job of
      Ok params \<Rightarrow> list_all2 (\<lambda>x v. from_job client job x = Ok v) xs params
    | Err e \<Rightarrow>
        (\<exists>before x after. xs = before @ x # after \<and> from_job client job x = Err e \<and>
           (\<forall>y \<in> set before. is_ok (from_job client job y)) \<and>
           (e = MissingWorkerStateConfig \<or> (\<exists>err. e = DeserializationError err)))
    | Panic p \<Rightarrow> False"
proof (cases "tuple_from_job xs client job")
  case (Ok params)
  then have "list_all2 (\<lambda>x v. from_job client job x = Ok v) xs params"
    by (simp add: tuple_from_job_def traverse_eq_Ok_iff)
  with Ok show ?thesis by simp
next
  case (Err e)
  from traverse_first_Err [OF Err [unfolded tuple_from_job_def]] obtain before x after ys where
    split: "xs = before @ x # after" "traverse (from_job client job) before = Ok ys"
      "from_job client job x = Err e"
    by blast
  have "\<forall>y \<in> set before. is_ok (from_job client job y)"
    using traverse_Ok_all [OF split(2)] by blast
  moreover have "e = MissingWorkerStateConfig \<or> (\<exists>err. e = DeserializationError err)"
    by (rule from_job_Err [OF split(3)])
  ultimately have "xs = before @ x # after \<and> from_job client job x = Err e \<and>
      (\<forall>y \<in> set before. is_ok (from_job client job y)) \<and>
      (e = MissingWorkerStateConfig \<or> (\<exists>err. e = DeserializationError err))"
    using split by simp
  then have "\<exists>before x after. xs = before @ x # after \<and> from_job client job x = Err e \<and>
      (\<forall>y \<in> set before. is_ok (from_job client job y)) \<and>
      (e = MissingWorkerStateConfig \<or> (\<exists>err. e = DeserializationError err))"
    by (intro exI)
  with Err show ?thesis
    by (simp only: outcome.case)
qed (simp add: tuple_from_job_no_panic)

definition example_job_with :: "string \<Rightarrow> job" where
  "example_job_with variables = job_new
     \<lparr>aj_key = 11, aj_type = ''payment'', aj_process_instance_key = 7,
      aj_bpmn_process_id = ''order-process'', aj_process_definition_version = 1,
      aj_process_definition_key = 3, aj_element_id = ''task'', aj_element_instance_key = 9,
      aj_custom_headers = ''{}'', aj_worker = ''default'', aj_retries = 3, aj_deadline = 0,
      aj_variables = variables\<rparr>"

definition example_extractors :: "string extractor list" where
  "example_extractors =
     [FromClient, FromData (\<lambda>s. if s = [] then Inl ''EOF'' else Inr s),
      FromState (TypeName ''Counter'')]"

lemma example_extraction:
  "tuple_from_job example_extractors example_client (example_job_with []) =
     Err (DeserializationError ''EOF'')"
  by (simp add: tuple_from_job_def example_extractors_def example_job_with_def job_new_def
      job_variables_str_def)

text \<open>What a message about a failed extraction tells.\<close>

datatype extraction_failure = BadVariables string | StateMissing

definition read_extraction_failure :: "string \<Rightarrow> extraction_failure option" where
  "read_extraction_failure s =
     Option.bind (strip_prefix ''variables do not deserialize to expected type: '' s) (\<lambda>s.
       if s = ''MissingWorkerStateConfig'' then Some StateMissing
       else map_option (\<lambda>s. BadVariables (butlast s)) (strip_prefix ''DeserializationError('' s))"

fun failure_of :: "error_formats \<Rightarrow> job \<Rightarrow> 'd extractor \<Rightarrow> extraction_failure option" where
  "failure_of ef job (FromData from_str) =
     (case from_str (job_variables_str job) of
        Inl err \<Rightarrow> Some (BadVariables (ef_debug_serde ef err))
      | Inr data \<Rightarrow> None)"
| "failure_of ef job (FromState t) = Some StateMissing"
| "failure_of ef job _ = None"

lemma read_failure_of_extractor:
  assumes "from_job client job x = Err err"
  shows "\<exists>f. failure_of (hf_errors hf) job x = Some f \<and>
    read_extraction_failure (extraction_error_message hf err) = Some f"
proof (cases x)
  case (FromData from_str)
  with assms show ?thesis
    by (cases "from_str (job_variables_str job)")
      (auto simp: extraction_error_message_def read_extraction_failure_def butlast_append)
next
  case (FromState t)
  with assms show ?thesis
    by (auto simp: extraction_error_message_def read_extraction_failure_def split: option.splits)
qed (use assms in simp_all)

text \<open>
  State is shared by all jobs of a worker: whatever states were registered, an extractor for the
  type of one of them yields, for every job and every client of the worker, the value registered
  last for that type; a type without a registration is reported as missing.
\<close>

lemma state_extraction:
  "from_job (job_client (ext.insert_all states ext_new) client job) job (FromState t) =
     (case map_of (rev states) (StateOf t) of
        Some v \<Rightarrow> Ok (ExtractedState v)
      | None \<Rightarrow> Err MissingWorkerStateConfig)"
  by (auto simp: ext.get_insert_all ext.get_empty split: option.splits)

subsection \<open>Reporting\<close>

text \<open>
  The report an auto handler owes for a job, and the world in which it makes it: after the user's
  function, if that was called at all. There is none if the function panics or its result does
  not serialize.
\<close>

definition owed_report ::
    "('j, 'o) handler_formats \<Rightarrow> 'd extractor list \<Rightarrow> ('v, 'd, 'o) user_handler \<Rightarrow> 'v client \<Rightarrow> job
      \<Rightarrow> world \<Rightarrow> (grpc_request, error) outcome \<times> world" where
  "owed_report hf xs handler client job w =
     (let failure = (\<lambda>message. Ok (FailJob
            \<lparr>fjr_job_key = job_key job, fjr_retries = 0, fjr_error_message = message\<rparr>))
      in case tuple_from_job xs client job of
           Ok params \<Rightarrow>
             (case handler params w of
                (Ok variables, w') \<Rightarrow>
                  (bind_outcome (unwrap_result (hf_to_value hf variables) ''json!'') (\<lambda>v.
                     Ok (CompleteJob
                       \<lparr>cjr_job_key = job_key job,
                        cjr_variables = sj_to_string (hf_json hf) v\<rparr>)), w')
              | (Err message, w') \<Rightarrow> (failure message, w')
              | (Panic p, w') \<Rightarrow> (Panic p, w'))
         | Err err \<Rightarrow> (failure (extraction_error_message hf err), w)
         | Panic p \<Rightarrow> (Panic p, w))"

lemma fail_report_request:
  "cl_current_job_key c = Some k \<Longrightarrow>
   message_of FailJob (fail_job_request_of (fjb_with_error_message m (client_fail_job c))) =
     Ok (FailJob \<lparr>fjr_job_key = k, fjr_retries = 0, fjr_error_message = m\<rparr>)"
  by (simp add: fail_job_request_of_def fjb_with_error_message_def client_fail_job_def
      fail_job_builder_new_def u32_as_i32_def)

lemma complete_report_request:
  "cl_current_job_key c = Some k \<Longrightarrow>
   message_of CompleteJob (complete_job_request_of sj (cjb_with_variables v (client_complete_job c))) =
     Ok (CompleteJob \<lparr>cjr_job_key = k, cjr_variables = sj_to_string sj v\<rparr>)"
  by (simp add: complete_job_request_of_def cjb_with_variables_def client_complete_job_def
      complete_job_builder_new_def variables_string_def)

lemma report_clients [simp]:
  "fjb_client (fjb_with_error_message m (client_fail_job c)) = c"
  "cjb_client (cjb_with_variables v (client_complete_job c)) = c"
  by (simp_all add: fjb_with_error_message_def client_fail_job_def fail_job_builder_new_def
      cjb_with_variables_def client_complete_job_def complete_job_builder_new_def)

text \<open>Making a report: one request with it, if the interceptor lets it pass, and no panic.\<close>

definition report_sent ::
    "gateway \<Rightarrow> 'v client \<Rightarrow> grpc_request \<Rightarrow> world \<Rightarrow> (unit, error) outcome \<times> world" where
  "report_sent gw c r w =
     (Ok (), case call_metadata gw c w of
               Inl st \<Rightarrow> w
             | Inr md \<Rightarrow> w\<lparr>wd_wire := wd_wire w @ [(md, r)]\<rparr>)"

lemma report_failure_eq:
  "cl_current_job_key c = Some k \<Longrightarrow>
   report_failure gw c m w =
     report_sent gw c (FailJob \<lparr>fjr_job_key = k, fjr_retries = 0, fjr_error_message = m\<rparr>) w"
  using fail_job.send_accepted [OF fail_report_request, of c k gw m w]
  by (simp add: report_failure_def report_sent_def split: sum.splits)

lemma complete_report_sent:
  assumes "cl_current_job_key c = Some k"
  shows "snd (complete_job_send sj gw (cjb_with_variables v (client_complete_job c)) w) =
    snd (report_sent gw c (CompleteJob \<lparr>cjr_job_key = k, cjr_variables = sj_to_string sj v\<rparr>) w)"
  using complete_job.send_accepted [OF complete_report_request [OF assms, of sj v], of gw w]
  by (simp add: report_sent_def split: sum.splits)

lemma report_success_eq:
  "cl_current_job_key c = Some k \<Longrightarrow>
   report_success hf gw c variables w =
     (case unwrap_result (hf_to_value hf variables) ''json!'' of
        Ok v \<Rightarrow> report_sent gw c (CompleteJob
          \<lparr>cjr_job_key = k, cjr_variables = sj_to_string (hf_json hf) v\<rparr>) w
      | Err e \<Rightarrow> (Err e, w)
      | Panic p \<Rightarrow> (Panic p, w))"
  by (simp add: report_success_def complete_report_sent split: outcome.splits)
    (simp add: report_sent_def)

lemma dispatch_auto_handler:
  "dispatch_job (auto_handler hf gw xs handler) extensions client job w =
     auto_handler_body hf gw xs handler (job_client extensions client job) job w"
  by (simp add: dispatch_job_def auto_handler_def plain_handler_def)

text \<open>
  An auto handler reports every job exactly once, with the job's own key and the result of the
  user's function: a job is completed with the serialized result, or failed with the error's text
  and no retries left, also when its parameters cannot be extracted. The report is the last
  request of the task, it is lost only if the interceptor refuses it, and the task panics only if
  the user's function does or its result does not serialize, and then reports nothing.
\<close>

lemma auto_handler_reports_once:
  "dispatch_job (auto_handler hf gw xs handler) extensions client job w =
     (case owed_report hf xs handler (job_client extensions client job) job w of
        (Ok r, w') \<Rightarrow>
          (Ok (), case call_metadata gw (job_client extensions client job) w' of
                    Inl st \<Rightarrow> w'
                  | Inr md \<Rightarrow> w'\<lparr>wd_wire := wd_wire w' @ [(md, r)]\<rparr>)
      | (Err e, w') \<Rightarrow> (Err e, w')
      | (Panic p, w') \<Rightarrow> (Panic p, w'))"
proof -
  let ?c = "job_client extensions client job"
  have key: "cl_current_job_key ?c = Some (job_key job)"
    by simp
  show ?thesis
  proof (cases "tuple_from_job xs ?c job")
    case (Ok params)
    show ?thesis
    proof (cases "handler params w")
      case (Pair result w')
      show ?thesis
      proof (cases result)
        case (Ok variables)
        then show ?thesis
          using \<open>tuple_from_job xs ?c job = Ok params\<close> Pair
          by (cases "hf_to_value hf variables")
            (simp_all add: dispatch_auto_handler auto_handler_body_def owed_report_def Let_def
              report_success_eq [OF key] report_sent_def)
      qed (use \<open>tuple_from_job xs ?c job = Ok params\<close> Pair in
        \<open>simp_all add: dispatch_auto_handler auto_handler_body_def owed_report_def Let_def
          report_failure_eq [OF key] report_sent_def\<close>)
    qed
  qed (simp_all add: dispatch_auto_handler auto_handler_body_def owed_report_def Let_def
      report_failure_eq [OF key] report_sent_def)
qed

text \<open>
  The dispatched job's key reaches the handler: with either kind of handler, an operation on a job
  that the user makes with the client it was handed, without naming a key, is about the job that
  was dispatched, whatever key the worker's own client carried.
\<close>

lemma dispatched_client_knows_its_job:
  assumes "handler = plain_handler h"
  shows "\<exists>c. dispatch_job handler extensions client job w = h c job w \<and>
    cl_current_job_extensions c = Some extensions \<and>
    cl_gateway_interceptor c = cl_gateway_interceptor client \<and>
    command_job_key (CompleteCommand (client_complete_job c)) = Some (job_key job) \<and>
    command_job_key (FailCommand (client_fail_job c)) = Some (job_key job) \<and>
    command_job_key (ThrowCommand (client_throw_error c)) = Some (job_key job) \<and>
    command_job_key (UpdateRetriesCommand (client_update_job_retries c)) = Some (job_key job)"
  by (rule exI [of _ "job_client extensions client job"])
    (simp add: assms dispatch_job_def plain_handler_def client_complete_job_def
      complete_job_builder_new_def client_fail_job_def fail_job_builder_new_def
      client_throw_error_def throw_error_builder_new_def client_update_job_retries_def
      update_job_retries_builder_new_def)

lemma owed_report_cases:
  assumes "owed_report hf xs handler client job w = (Ok r, w')"
  obtains (completed) params variables v where "tuple_from_job xs client job = Ok params"
      "handler params w = (Ok variables, w')" "hf_to_value hf variables = Inr v"
      "r = CompleteJob \<lparr>cjr_job_key = job_key job, cjr_variables = sj_to_string (hf_json hf) v\<rparr>"
  | (failed) params message where "tuple_from_job xs client job = Ok params"
      "handler params w = (Err message, w')"
      "r = FailJob \<lparr>fjr_job_key = job_key job, fjr_retries = 0, fjr_error_message = message\<rparr>"
  | (not_called) err where "tuple_from_job xs client job = Err err" "w' = w"
      "r = FailJob \<lparr>fjr_job_key = job_key job, fjr_retries = 0,
         fjr_error_message = extraction_error_message hf err\<rparr>"
proof (cases "tuple_from_job xs client job")
  case (Ok params)
  obtain result w1 where h: "handler params w = (result, w1)"
    by (cases "handler params w")
  show thesis
  proof (cases result)
    case (Ok variables)
    with assms h \<open>tuple_from_job xs client job = Ok params\<close> show thesis
      by (cases "hf_to_value hf variables") (auto simp: owed_report_def intro: completed)
  qed (use assms h Ok failed in \<open>auto simp: owed_report_def\<close>)
qed (use assms not_called in \<open>auto simp: owed_report_def\<close>)

text \<open>
  C18: A job whose parameters cannot be extracted is failed with the reason: the user's function is not
  called, and where the client can make calls exactly one request goes out, which fails the job
  under its own key with no retries left, and from whose message it can be read back what the
  first parameter that failed was about: the deserializer's complaint or the missing state.
\<close>

theorem failed_extraction_names_cause:
  assumes "tuple_from_job xs (job_client extensions client job) job = Err err"
    and "bears_token gw client w md"
  shows "\<exists>before x after f message. xs = before @ x # after \<and>
    (\<forall>y \<in> set before. is_ok (from_job (job_client extensions client job) job y)) \<and>
    failure_of (hf_errors hf) job x = Some f \<and> read_extraction_failure message = Some f \<and>
    dispatch_job (auto_handler hf gw xs handler) extensions client job w =
      (Ok (), w\<lparr>wd_wire := wd_wire w @
        [(md, FailJob \<lparr>fjr_job_key = job_key job, fjr_retries = 0, fjr_error_message = message\<rparr>)]\<rparr>)"
proof -
  let ?c = "job_client extensions client job"
  obtain before x after where split: "xs = before @ x # after" "from_job ?c job x = Err err"
      "\<forall>y \<in> set before. is_ok (from_job ?c job y)"
    using extraction_all_or_first_error [of ?c job xs] assms(1) by auto
  obtain f where f: "failure_of (hf_errors hf) job x = Some f"
      "read_extraction_failure (extraction_error_message hf err) = Some f"
    using read_failure_of_extractor [OF split(2)] by blast
  have "call_metadata gw ?c w = Inr md"
    using assms(2) by (simp add: call_metadata_bears_token bears_token_def)
  then have "dispatch_job (auto_handler hf gw xs handler) extensions client job w =
      (Ok (), w\<lparr>wd_wire := wd_wire w @ [(md, FailJob \<lparr>fjr_job_key = job_key job, fjr_retries = 0,
        fjr_error_message = extraction_error_message hf err\<rparr>)]\<rparr>)"
    using assms(1) by (simp add: auto_handler_reports_once owed_report_def)
  with split f show ?thesis by blast
qed

theorem failed_extraction_names_cause_witness:
  "\<exists>message. read_extraction_failure message = Some (BadVariables (str_debug ''EOF'')) \<and>
    dispatch_job (auto_handler
        \<lparr>hf_json = example_json, hf_to_value = Inr, hf_errors = example_error_formats\<rparr>
        example_gateway example_extractors (\<lambda>_ w. (Ok ''{}'', w)))
      ext_new example_client (example_job_with []) example_authenticated_world =
    (Ok (), example_authenticated_world\<lparr>wd_wire := wd_wire example_authenticated_world @
      [(example_metadata, FailJob \<lparr>fjr_job_key = 11, fjr_retries = 0, fjr_error_message = message\<rparr>)]\<rparr>)"
proof -
  note key = example_job_with_def job_key_def job_new_def job_variables_str_def
  have "tuple_from_job example_extractors
      (job_client ext_new example_client (example_job_with [])) (example_job_with []) =
      Err (DeserializationError ''EOF'')"
    by (simp add: tuple_from_job_def example_extractors_def key)
  from failed_extraction_names_cause [OF this example_bears_token, where handler = "\<lambda>_ w. (Ok ''{}'', w)"
      and hf = "\<lparr>hf_json = example_json, hf_to_value = Inr, hf_errors = example_error_formats\<rparr>"]
  show ?thesis
    by (fastforce simp: example_extractors_def append_eq_Cons_conv Cons_eq_append_conv key
        example_error_formats_def)
qed

end
