(* ===== verification/Job_Worker.thy ===== *)
theory Job_Worker
  imports Worker_Liveness Auto_Handler
begin

text \<open>
  The builder of a worker and its start (\<open>src/worker/builder.rs\<close>): which parameters are checked,
  which panic, and what poller and which channels a started worker runs with. The properties of
  \<open>Worker_Safety\<close> and \<open>Worker_Liveness\<close> apply to every worker that starts.
\<close>

subsection \<open>Constants\<close>

definition DEFAULT_JOB_TIMEOUT :: duration where
  "DEFAULT_JOB_TIMEOUT = from_secs (5 * 60)"

definition DEFAULT_JOB_TIMEOUT_IN_MS :: i64 where
  "DEFAULT_JOB_TIMEOUT_IN_MS = u128_as_i64 (as_millis DEFAULT_JOB_TIMEOUT)"

definition DEFAULT_JOB_WORKER_MAX_JOB_ACTIVE :: u32 where
  "DEFAULT_JOB_WORKER_MAX_JOB_ACTIVE = 32"

definition DEFAULT_JOB_WORKER_CONCURRENCY :: u32 where
  "DEFAULT_JOB_WORKER_CONCURRENCY = 4"

definition DEFAULT_JOB_WORKER_POLL_INTERVAL :: duration where
  "DEFAULT_JOB_WORKER_POLL_INTERVAL = from_millis 100"

text \<open>The \<open>f32\<close> nearest to 0.3.\<close>

definition DEFAULT_JOB_WORKER_POLL_THRESHOLD :: rat where
  "DEFAULT_JOB_WORKER_POLL_THRESHOLD = 10066330 / 33554432"

definition REQUEST_TIMEOUT_OFFSET :: duration where
  "REQUEST_TIMEOUT_OFFSET = from_secs 10"

definition DEFAULT_WORKER_REQUEST_TIMEOUT :: duration where
  "DEFAULT_WORKER_REQUEST_TIMEOUT = from_secs 10"

subsection \<open>The builder\<close>

record 'v job_worker_builder =
  jwb_client :: "'v client"
  jwb_handler :: "'v job_handler option"
  jwb_data :: "'v extensions"
  jwb_concurrency :: u32
  jwb_poll_interval :: duration
  jwb_poll_threshold :: rat
  jwb_request :: activate_jobs_request
  jwb_request_timeout :: duration

text \<open>The addition of two constant durations does not overflow.\<close>

definition job_worker_builder_new :: "'v client \<Rightarrow> 'v job_worker_builder" where
  "job_worker_builder_new client =
     \<lparr>jwb_client = client, jwb_handler = None, jwb_data = ext_new,
      jwb_concurrency = DEFAULT_JOB_WORKER_CONCURRENCY,
      jwb_poll_interval = DEFAULT_JOB_WORKER_POLL_INTERVAL,
      jwb_poll_threshold = DEFAULT_JOB_WORKER_POLL_THRESHOLD,
      jwb_request =
        \<lparr>ajr_type = [], ajr_worker = ''default'', ajr_timeout = DEFAULT_JOB_TIMEOUT_IN_MS,
         ajr_max_jobs_to_activate = u32_as_i32 DEFAULT_JOB_WORKER_MAX_JOB_ACTIVE,
         ajr_fetch_variable = [],
         ajr_request_timeout = u128_as_i64 (as_millis DEFAULT_WORKER_REQUEST_TIMEOUT)\<rparr>,
      jwb_request_timeout = DEFAULT_WORKER_REQUEST_TIMEOUT + REQUEST_TIMEOUT_OFFSET\<rparr>"

definition client_job_worker :: "'v client \<Rightarrow> 'v job_worker_builder" where
  "client_job_worker client = job_worker_builder_new client"

definition with_job_type :: "string \<Rightarrow> 'v job_worker_builder \<Rightarrow> 'v job_worker_builder" where
  "with_job_type t b = b\<lparr>jwb_request := (jwb_request b)\<lparr>ajr_type := t\<rparr>\<rparr>"

definition with_worker_name :: "string \<Rightarrow> 'v job_worker_builder \<Rightarrow> 'v job_worker_builder" where
  "with_worker_name worker b = b\<lparr>jwb_request := (jwb_request b)\<lparr>ajr_worker := worker\<rparr>\<rparr>"

definition with_timeout :: "duration \<Rightarrow> 'v job_worker_builder \<Rightarrow> 'v job_worker_builder" where
  "with_timeout timeout b =
     b\<lparr>jwb_request := (jwb_request b)\<lparr>ajr_timeout := u128_as_i64 (as_millis timeout)\<rparr>\<rparr>"

text \<open>The sum of the timeout and the offset may overflow, which panics.\<close>

definition with_request_timeout ::
    "duration \<Rightarrow> 'v job_worker_builder \<Rightarrow> ('v job_worker_builder, error) outcome" where
  "with_request_timeout request_timeout b =
     (case duration_add request_timeout REQUEST_TIMEOUT_OFFSET of
        None \<Rightarrow> Panic ''overflow when adding durations''
      | Some t \<Rightarrow>
          Ok (b\<lparr>jwb_request :=
                  (jwb_request b)\<lparr>ajr_request_timeout := u128_as_i64 (as_millis request_timeout)\<rparr>,
                jwb_request_timeout := t\<rparr>))"

definition with_max_jobs_active :: "u32 \<Rightarrow> 'v job_worker_builder \<Rightarrow> 'v job_worker_builder" where
  "with_max_jobs_active max_jobs_active b =
     b\<lparr>jwb_request :=
         (jwb_request b)\<lparr>ajr_max_jobs_to_activate := u32_as_i32 max_jobs_active\<rparr>\<rparr>"

definition with_concurrency :: "u32 \<Rightarrow> 'v job_worker_builder \<Rightarrow> 'v job_worker_builder" where
  "with_concurrency concurrency b = b\<lparr>jwb_concurrency := concurrency\<rparr>"

definition with_handler :: "'v job_handler \<Rightarrow> 'v job_worker_builder \<Rightarrow> 'v job_worker_builder" where
  "with_handler handler b = b\<lparr>jwb_handler := Some (plain_handler handler)\<rparr>"

definition with_auto_handler ::
    "('j, 'o) handler_formats \<Rightarrow> gateway \<Rightarrow> 'd extractor list \<Rightarrow> ('v, 'd, 'o) user_handler
      \<Rightarrow> 'v job_worker_builder \<Rightarrow> 'v job_worker_builder" where
  "with_auto_handler hf gw xs handler b = with_handler (auto_handler_body hf gw xs handler) b"

definition with_state :: "type_id \<Rightarrow> 'v \<Rightarrow> 'v job_worker_builder \<Rightarrow> 'v job_worker_builder" where
  "with_state t v b = b\<lparr>jwb_data := ext_insert (StateOf t) v (jwb_data b)\<rparr>"

definition with_fetch_variables ::
    "string list \<Rightarrow> 'v job_worker_builder \<Rightarrow> 'v job_worker_builder" where
  "with_fetch_variables fetch_variables b =
     b\<lparr>jwb_request := (jwb_request b)\<lparr>ajr_fetch_variable := fetch_variables\<rparr>\<rparr>"

subsection \<open>Starting\<close>

text \<open>What the two halves of a started worker are given.\<close>

record 'v started_worker =
  sw_poller :: job_poller
  sw_poll_interval :: duration
  sw_job_queue_capacity :: nat
  sw_poll_queue_capacity :: nat
  sw_concurrency :: nat
  sw_handler :: "'v job_handler"
  sw_client :: "'v client"
  sw_worker_name :: string
  sw_data :: "'v extensions"

definition POLL_QUEUE_CAPACITY :: nat where
  "POLL_QUEUE_CAPACITY = 32"

text \<open>
  \<open>(max as f32 * threshold).floor() as u32\<close>; a product that is infinite would saturate.
\<close>

definition poll_threshold :: "i32 \<Rightarrow> rat \<Rightarrow> u32" where
  "poll_threshold max_jobs threshold =
     (case Option.bind (i32_as_f32 max_jobs) (\<lambda>m. f32_mul m threshold) of
        Some q \<Rightarrow> f32_as_u32 (of_int \<lfloor>q\<rfloor>)
      | None \<Rightarrow> 0xFFFFFFFF)"

text \<open>
  \<open>mpsc::channel\<close> and \<open>interval\<close> are tokio's and panic on arguments they do not accept: \<open>channel_ok\<close>
  says which capacities a channel accepts. \<open>run\<close> validates, makes the two channels and the poller,
  and then both halves run until the future is dropped (\<open>Worker_System\<close>).
\<close>

definition worker_run ::
    "(nat \<Rightarrow> bool) \<Rightarrow> 'v job_worker_builder \<Rightarrow> ('v started_worker, error) outcome" where
  "worker_run channel_ok b =
     (if ajr_type (jwb_request b) = [] \<or> jwb_handler b = None
      then Err (InvalidParameters ''`job_type` and `handler` must be set'')
      else
        let max_jobs = ajr_max_jobs_to_activate (jwb_request b);
            capacity = unat (i32_as_usize max_jobs)
        in if \<not> channel_ok capacity \<or> \<not> channel_ok POLL_QUEUE_CAPACITY then Panic ''mpsc::channel''
           else
             bind_outcome (unwrap_option (jwb_handler b) ''handler'') (\<lambda>handler.
               Ok \<lparr>sw_poller =
                     \<lparr>jp_request = jwb_request b,
                      jp_request_timeout = jwb_request_timeout b,
                      jp_request_in_progress = False,
                      jp_max_jobs_active = i32_as_u32 max_jobs,
                      jp_remaining = 0,
                      jp_threshold = poll_threshold max_jobs (jwb_poll_threshold b)\<rparr>,
                   sw_poll_interval = jwb_poll_interval b,
                   sw_job_queue_capacity = capacity,
                   sw_poll_queue_capacity = POLL_QUEUE_CAPACITY,
                   sw_concurrency = unat (jwb_concurrency b),
                   sw_handler = handler,
                   sw_client = jwb_client b,
                   sw_worker_name = ajr_worker (jwb_request b),
                   sw_data = jwb_data b\<rparr>))"

text \<open>The transition system of a started worker, with a gateway.\<close>

definition worker_config_of ::
    "'v started_worker \<Rightarrow> (activate_jobs_request \<Rightarrow> nat \<Rightarrow> activated_job list \<Rightarrow> bool) \<Rightarrow> worker_config"
where
  "worker_config_of sw g =
     \<lparr>wc_job_queue_capacity = sw_job_queue_capacity sw,
      wc_poll_queue_capacity = sw_poll_queue_capacity sw,
      wc_concurrency = sw_concurrency sw, wc_gateway = g\<rparr>"

subsection \<open>The threshold\<close>

lemma poll_threshold_is_three_tenths:
  "f32_round (3 / 10) = Some DEFAULT_JOB_WORKER_POLL_THRESHOLD"
  unfolding DEFAULT_JOB_WORKER_POLL_THRESHOLD_def
  by (rule f32_round_eqI [where e = "- 25" and n = 10066330]) (simp_all add: power_int_minus)

lemma poll_threshold_less:
  assumes "1 \<le> sint m"
  shows "poll_threshold m DEFAULT_JOB_WORKER_POLL_THRESHOLD < i32_as_u32 m"
proof -
  define k where "k = sint m"
  let ?m = "of_int k :: rat"
  have "1 \<le> k" "k < 2 ^ 31"
    using assms sint_lt [of m] by (simp_all add: k_def)
  then have m: "1 \<le> ?m" "k < 2 ^ 31" by simp_all
  then have "?m < of_int (2 ^ 31)"
    by (simp only: of_int_less_iff)
  then have hi: "?m < 2 ^ 31" by simp
  have lo: "1 / 2 ^ 100 \<le> ?m"
    by (rule order_trans [OF _ m(1)]) simp
  obtain x where x: "f32_round ?m = Some x" "7 / 8 * ?m \<le> x" "x \<le> 9 / 8 * ?m"
    using f32_round_bounds [OF lo] hi by fastforce
  let ?p = "x * DEFAULT_JOB_WORKER_POLL_THRESHOLD"
  have p: "1 / 4 * ?m \<le> ?p" "?p \<le> 1 / 2 * ?m"
    using x(2,3) m(1) by (simp_all add: DEFAULT_JOB_WORKER_POLL_THRESHOLD_def)
  have "1 / 2 ^ 100 \<le> ?p"
    by (rule order_trans [OF _ p(1)]) (use m(1) in simp)
  moreover have "?p < 2 ^ 127"
    by (rule le_less_trans [OF p(2)]) (use hi in simp)
  ultimately obtain q where q: "f32_round ?p = Some q" "7 / 8 * ?p \<le> q" "q \<le> 9 / 8 * ?p"
    using f32_round_bounds by blast
  have q0: "0 \<le> q" "q < ?m"
    using q(2,3) p m(1) by linarith+
  then have floor: "0 \<le> \<lfloor>q\<rfloor>" "\<lfloor>q\<rfloor> < k"
    by (simp_all add: floor_less_iff)
  have "q < 4294967296"
    using q0(2) hi by simp
  have "i32_as_f32 m = Some x"
    using x(1) by (simp only: i32_as_f32_def k_def)
  have "poll_threshold m DEFAULT_JOB_WORKER_POLL_THRESHOLD = word_of_int \<lfloor>q\<rfloor>"
    using \<open>i32_as_f32 m = Some x\<close> \<open>q < 4294967296\<close> floor m(2) q(1)
    by (simp add: poll_threshold_def f32_mul_def f32_as_u32_def)
  moreover have "uint (word_of_int z :: u32) = z" if "0 \<le> z" "z < k" for z
    using that m(2) by (simp add: unsigned_of_int take_bit_int_eq_self)
  note this [OF floor]
  moreover have "uint (i32_as_u32 m) = k"
    unfolding k_def using assms sint_of_same_bits [of m] uint_lt2p [of m]
    by (simp add: i32_as_u32_def split: if_splits)
  ultimately show ?thesis
    using floor by (simp add: word_less_def)
qed

subsection \<open>Configured workers\<close>

text \<open>The calls a user may chain on a builder, and the builder they make.\<close>

datatype 'v setting =
    JobType string
  | WorkerName string
  | Timeout duration
  | RequestTimeout duration
  | MaxJobsActive u32
  | Concurrency u32
  | Handler "'v job_handler"
  | SharedState type_id 'v
  | FetchVariables "string list"

fun apply_setting :: "'v setting \<Rightarrow> 'v job_worker_builder \<Rightarrow> ('v job_worker_builder, error) outcome"
where
  "apply_setting (JobType t) b = Ok (with_job_type t b)"
| "apply_setting (WorkerName n) b = Ok (with_worker_name n b)"
| "apply_setting (Timeout d) b = Ok (with_timeout d b)"
| "apply_setting (RequestTimeout d) b = with_request_timeout d b"
| "apply_setting (MaxJobsActive n) b = Ok (with_max_jobs_active n b)"
| "apply_setting (Concurrency n) b = Ok (with_concurrency n b)"
| "apply_setting (Handler h) b = Ok (with_handler h b)"
| "apply_setting (SharedState t v) b = Ok (with_state t v b)"
| "apply_setting (FetchVariables vs) b = Ok (with_fetch_variables vs b)"

fun configure :: "'v setting list \<Rightarrow> 'v job_worker_builder \<Rightarrow> ('v job_worker_builder, error) outcome"
where
  "configure [] b = Ok b"
| "configure (s # ss) b = bind_outcome (apply_setting s b) (configure ss)"

lemma configure_append: "configure (ss @ ts) b = bind_outcome (configure ss b) (configure ts)"
proof (induction ss arbitrary: b)
  case (Cons s ss)
  then show ?case by (cases "apply_setting s b") simp_all
qed simp

lemmas setting_defs =
  with_job_type_def with_worker_name_def with_timeout_def with_request_timeout_def
  with_max_jobs_active_def with_concurrency_def with_handler_def with_state_def
  with_fetch_variables_def

text \<open>What every configured builder satisfies.\<close>

definition builder_ok :: "'v job_worker_builder \<Rightarrow> bool" where
  "builder_ok b \<longleftrightarrow>
     jwb_poll_threshold b = DEFAULT_JOB_WORKER_POLL_THRESHOLD \<and> jwb_request_timeout b \<le> duration_max"

lemma builder_ok_new: "builder_ok (client_job_worker c)"
  by (simp add: builder_ok_def client_job_worker_def job_worker_builder_new_def
      DEFAULT_WORKER_REQUEST_TIMEOUT_def REQUEST_TIMEOUT_OFFSET_def from_secs_def duration_max_def)

lemma builder_ok_setting:
  assumes "builder_ok b" "apply_setting s b = Ok b'"
  shows "builder_ok b'"
proof (cases s)
  case (RequestTimeout d)
  with assms show ?thesis
    by (cases "duration_add d REQUEST_TIMEOUT_OFFSET")
      (auto simp: builder_ok_def with_request_timeout_def duration_add_def split: if_splits)
qed (use assms in \<open>auto simp: builder_ok_def setting_defs\<close>)

lemma builder_ok_configure: "builder_ok b \<Longrightarrow> configure ss b = Ok b' \<Longrightarrow> builder_ok b'"
  by (induction ss arbitrary: b) (auto simp: bind_outcome_eq_Ok_iff dest: builder_ok_setting)

text \<open>
  The documented contract of tokio's bounded channel: it rejects the capacity 0, and capacities
  beyond the number of permits of a semaphore, which is less than \<open>2 ^ 63\<close>.
\<close>

definition channel_contract :: "(nat \<Rightarrow> bool) \<Rightarrow> bool" where
  "channel_contract channel_ok \<longleftrightarrow> (\<forall>n. channel_ok n \<longrightarrow> 0 < n \<and> n < 2 ^ 63)"

lemma i32_as_usize_cases:
  obtains "1 \<le> sint m" "unat (i32_as_usize m) = unat m" "unat m < 2 ^ 31"
  | "m = 0" "unat (i32_as_usize m) = 0"
  | "sint m < 0" "2 ^ 63 \<le> unat (i32_as_usize m)"
proof -
  have bounds: "- (2 ^ 31) \<le> sint m" "sint m < 2 ^ 31"
    using sint_ge [of m] sint_lt [of m] by simp_all
  have cast: "uint (i32_as_usize m) = sint m mod 2 ^ 64"
    by (simp only: i32_as_usize_def scast_eq uint_word_of_int) simp
  consider "1 \<le> sint m" | "sint m = 0" | "sint m < 0" by linarith
  then show thesis
  proof cases
    case 1
    then have eq: "uint m = sint m"
      using sint_of_same_bits [of m] unsigned_less [where w = m and 'a = int]
      by (simp split: if_splits)
    then have "uint (i32_as_usize m) = uint m" "uint m < 2 ^ 31"
      using cast bounds 1 by simp_all
    then have "unat (i32_as_usize m) = unat m" "unat m < 2 ^ 31"
      by (simp_all only: unat_eq_nat_uint nat_less_numeral_power_cancel_iff)
    with 1 that(1) show thesis by blast
  next
    case 2
    then have "m = 0"
      by (metis signed_eq_0_iff)
    then show thesis
      by (intro that(2)) (simp_all add: i32_as_usize_def)
  next
    case 3
    then have "(sint m + 2 ^ 64) mod 2 ^ 64 = sint m + 2 ^ 64"
      using bounds by (intro mod_pos_pos_trivial) simp_all
    then have "sint m mod 2 ^ 64 = sint m + 2 ^ 64"
      by (simp only: mod_add_self2)
    then have "2 ^ 63 \<le> uint (i32_as_usize m)"
      using cast bounds by simp
    then have "int (2 ^ 63) \<le> int (unat (i32_as_usize m))"
      by simp
    then have "2 ^ 63 \<le> unat (i32_as_usize m)"
      by (simp only: of_nat_le_iff)
    with 3 that(3) show thesis by blast
  qed
qed

subsection \<open>What starts\<close>

lemma worker_run_eq_Ok_iff:
  "worker_run channel_ok b = Ok sw \<longleftrightarrow>
     ajr_type (jwb_request b) \<noteq> [] \<and>
     channel_ok (unat (i32_as_usize (ajr_max_jobs_to_activate (jwb_request b)))) \<and>
     channel_ok POLL_QUEUE_CAPACITY \<and>
     (\<exists>handler. jwb_handler b = Some handler \<and>
        sw = \<lparr>sw_poller =
                \<lparr>jp_request = jwb_request b, jp_request_timeout = jwb_request_timeout b,
                 jp_request_in_progress = False,
                 jp_max_jobs_active = i32_as_u32 (ajr_max_jobs_to_activate (jwb_request b)),
                 jp_remaining = 0,
                 jp_threshold = poll_threshold (ajr_max_jobs_to_activate (jwb_request b))
                   (jwb_poll_threshold b)\<rparr>,
              sw_poll_interval = jwb_poll_interval b,
              sw_job_queue_capacity =
                unat (i32_as_usize (ajr_max_jobs_to_activate (jwb_request b))),
              sw_poll_queue_capacity = POLL_QUEUE_CAPACITY,
              sw_concurrency = unat (jwb_concurrency b), sw_handler = handler,
              sw_client = jwb_client b, sw_worker_name = ajr_worker (jwb_request b),
              sw_data = jwb_data b\<rparr>)"
  by (auto simp: worker_run_def Let_def)

lemma started_worker_initial:
  assumes "builder_ok b" "channel_contract channel_ok" "worker_run channel_ok b = Ok sw"
  shows "initial_poller (sw_poller sw)"
    and "sw_job_queue_capacity sw = unat (jp_max_jobs_active (sw_poller sw))"
    and "0 < sw_job_queue_capacity sw" "sw_poll_queue_capacity sw = 32"
    and "jp_request_timeout (sw_poller sw) = jwb_request_timeout b"
proof -
  let ?m = "ajr_max_jobs_to_activate (jwb_request b)"
  have sw: "sw_poller sw =
        \<lparr>jp_request = jwb_request b, jp_request_timeout = jwb_request_timeout b,
         jp_request_in_progress = False, jp_max_jobs_active = i32_as_u32 ?m, jp_remaining = 0,
         jp_threshold = poll_threshold ?m (jwb_poll_threshold b)\<rparr>"
      "sw_job_queue_capacity sw = unat (i32_as_usize ?m)" "sw_poll_queue_capacity sw = 32"
      "channel_ok (unat (i32_as_usize ?m))"
    using assms(3) by (auto simp: worker_run_eq_Ok_iff POLL_QUEUE_CAPACITY_def)
  then have cap: "0 < unat (i32_as_usize ?m)" "unat (i32_as_usize ?m) < 2 ^ 63"
    using assms(2) by (auto simp: channel_contract_def)
  have m: "1 \<le> sint ?m" "unat (i32_as_usize ?m) = unat ?m" "unat ?m < 2 ^ 31"
    by (cases rule: i32_as_usize_cases [of ?m]; use cap in linarith)+
  have thr: "jwb_poll_threshold b = DEFAULT_JOB_WORKER_POLL_THRESHOLD"
      "jwb_request_timeout b \<le> duration_max"
    using assms(1) by (simp_all add: builder_ok_def)
  show "initial_poller (sw_poller sw)"
    using poll_threshold_less [OF m(1)] m(3) thr
    by (simp add: initial_poller_def poller_ok_def sw(1) i32_as_u32_def)
  show "sw_job_queue_capacity sw = unat (jp_max_jobs_active (sw_poller sw))"
    using m(2) by (simp add: sw i32_as_u32_def)
  show "0 < sw_job_queue_capacity sw" "sw_poll_queue_capacity sw = 32"
    "jp_request_timeout (sw_poller sw) = jwb_request_timeout b"
    using cap sw by simp_all
qed

text \<open>
  C30: What \<open>run\<close> does with every configuration: without a job type or a handler it returns the
  documented error; with a limit that is zero, or not below \<open>2 ^ 31\<close>, it panics in the channel
  instead of returning one; otherwise (as far as tokio accepts the capacities) the worker starts
  with the limit as the capacity of its job queue and a threshold strictly below the limit.
\<close>

theorem run_outcome:
  assumes "configure ss (client_job_worker c) = Ok b" "channel_contract channel_ok"
    and "channel_ok POLL_QUEUE_CAPACITY"
  shows "let m = i32_as_u32 (ajr_max_jobs_to_activate (jwb_request b)) in
    if ajr_type (jwb_request b) = [] \<or> jwb_handler b = None
    then worker_run channel_ok b =
      Err (InvalidParameters ''`job_type` and `handler` must be set'')
    else if m = 0 \<or> 2 ^ 31 \<le> unat m \<or> \<not> channel_ok (unat m)
    then worker_run channel_ok b = Panic ''mpsc::channel''
    else \<exists>sw. worker_run channel_ok b = Ok sw \<and> sw_job_queue_capacity sw = unat m \<and>
      jp_max_jobs_active (sw_poller sw) = m \<and> jp_threshold (sw_poller sw) < m"
proof -
  let ?m = "ajr_max_jobs_to_activate (jwb_request b)"
  let ?cap = "unat (i32_as_usize ?m)"
  have ok: "builder_ok b"
    using builder_ok_configure [OF builder_ok_new assms(1)] .
  show ?thesis
  proof (cases "ajr_type (jwb_request b) = [] \<or> jwb_handler b = None")
    case True
    then show ?thesis by (auto simp: worker_run_def Let_def)
  next
    case False
    show ?thesis
    proof (cases "channel_ok ?cap")
      case True
      then obtain sw where sw: "worker_run channel_ok b = Ok sw"
        using False assms(3) by (auto simp: worker_run_eq_Ok_iff)
      note start = started_worker_initial [OF ok assms(2) sw]
      have m: "jp_max_jobs_active (sw_poller sw) = i32_as_u32 ?m" "sw_job_queue_capacity sw = ?cap"
        using sw by (auto simp: worker_run_eq_Ok_iff)
      have "unat (i32_as_u32 ?m) < 2 ^ 31" "0 < unat (i32_as_u32 ?m)" "?cap = unat (i32_as_u32 ?m)"
        "jp_threshold (sw_poller sw) < i32_as_u32 ?m"
        using start(1-3) m by (simp_all add: initial_poller_def poller_ok_def)
      with False sw m True show ?thesis
        by (auto simp: Let_def)
    next
      case no: False
      then have "worker_run channel_ok b = Panic ''mpsc::channel''"
        using False by (auto simp: worker_run_def Let_def)
      moreover have "i32_as_u32 ?m = 0 \<or> 2 ^ 31 \<le> unat (i32_as_u32 ?m) \<or>
          \<not> channel_ok (unat (i32_as_u32 ?m))"
      proof (cases rule: i32_as_usize_cases [of ?m])
        case 3
        then have "\<not> uint ?m < 2 ^ 31"
          using sint_of_same_bits [of ?m] by (auto split: if_splits)
        then have "\<not> int (unat ?m) < int (2 ^ 31)"
          by simp
        then have "2 ^ 31 \<le> unat (i32_as_u32 ?m)"
          by (simp only: of_nat_less_iff i32_as_u32_def not_less)
        then show ?thesis by blast
      qed (use no in \<open>simp_all add: i32_as_u32_def\<close>)
      ultimately show ?thesis
        using False by (auto simp: Let_def)
    qed
  qed
qed

definition example_handler :: "nat job_handler" where
  "example_handler c j w = (Ok (), w)"

definition example_channel_ok :: "nat \<Rightarrow> bool" where
  "example_channel_ok n \<longleftrightarrow> 0 < n \<and> n < 2 ^ 61"

lemma example_channel_contract:
  "channel_contract example_channel_ok" "example_channel_ok POLL_QUEUE_CAPACITY"
  by (auto simp: channel_contract_def example_channel_ok_def POLL_QUEUE_CAPACITY_def)

definition example_builder :: "nat job_worker_builder" where
  "example_builder =
     with_handler example_handler (with_job_type ''payment-service'' (client_job_worker example_client))"

lemma example_configure:
  "configure [JobType ''payment-service'', Handler example_handler] (client_job_worker example_client) =
     Ok example_builder"
  by (simp add: example_builder_def)

theorem run_outcome_witness:
  "worker_run example_channel_ok (with_max_jobs_active 0 example_builder) = Panic ''mpsc::channel''"
proof -
  have "configure [JobType ''payment-service'', Handler example_handler, MaxJobsActive 0]
      (client_job_worker example_client) = Ok (with_max_jobs_active 0 example_builder)"
    by (simp add: example_builder_def)
  from run_outcome [OF this example_channel_contract] show ?thesis
    by (simp add: with_max_jobs_active_def example_builder_def with_handler_def with_job_type_def)
qed

subsection \<open>The default worker\<close>

lemma default_threshold: "poll_threshold 32 DEFAULT_JOB_WORKER_POLL_THRESHOLD = 9"
proof -
  have "f32_round 32 = Some 32"
    by (rule f32_round_eqI [where e = "- 18" and n = 8388608]) (simp_all add: power_int_minus)
  moreover have "f32_mul 32 DEFAULT_JOB_WORKER_POLL_THRESHOLD = Some (10066330 / 1048576)"
    unfolding f32_mul_def DEFAULT_JOB_WORKER_POLL_THRESHOLD_def
    by (rule f32_round_eqI [where e = "- 20" and n = 10066330]) (simp_all add: power_int_minus)
  moreover have "\<lfloor>10066330 / 1048576 :: rat\<rfloor> = 9"
    by (simp add: floor_eq_iff)
  ultimately show ?thesis
    by (simp add: poll_threshold_def i32_as_f32_def f32_as_u32_def)
qed

definition default_poller :: "string \<Rightarrow> job_poller" where
  "default_poller kind = example_poller\<lparr>jp_request := (jp_request example_poller)\<lparr>ajr_type := kind\<rparr>\<rparr>"

lemma default_poller_example: "default_poller ''payment-service'' = example_poller"
  by (simp add: default_poller_def example_poller_def)

lemma default_worker_run_of_type:
  assumes "channel_ok 32" "kind \<noteq> []"
  obtains sw where "worker_run channel_ok
        (with_handler h (with_job_type kind (client_job_worker c))) = Ok sw"
    "sw_poller sw = default_poller kind" "sw_job_queue_capacity sw = 32"
    "sw_poll_queue_capacity sw = 32" "sw_concurrency sw = 4"
proof -
  have "u128_as_i64 (as_millis (from_secs 10)) = 10000" "u128_as_i64 (as_millis (from_secs (5 * 60))) = 300000"
    by (simp_all add: from_secs_def as_millis_def u128_as_i64_def)
  moreover have "from_secs 10 + from_secs 10 = from_secs 20"
    by (simp add: from_secs_def)
  moreover have "unat (i32_as_usize 32) = 32"
    by (simp add: i32_as_usize_def)
  ultimately show thesis
    using assms that
    by (simp add: worker_run_eq_Ok_iff with_handler_def with_job_type_def client_job_worker_def
        job_worker_builder_new_def DEFAULT_JOB_TIMEOUT_IN_MS_def DEFAULT_JOB_TIMEOUT_def
        DEFAULT_JOB_WORKER_MAX_JOB_ACTIVE_def DEFAULT_JOB_WORKER_CONCURRENCY_def
        DEFAULT_WORKER_REQUEST_TIMEOUT_def REQUEST_TIMEOUT_OFFSET_def POLL_QUEUE_CAPACITY_def
        default_threshold default_poller_def example_poller_def u32_as_i32_def i32_as_u32_def)
qed

lemma default_worker_run:
  assumes "channel_ok 32"
  obtains sw where "worker_run channel_ok
        (with_handler h (with_job_type ''payment-service'' (client_job_worker c))) = Ok sw"
    "sw_poller sw = example_poller" "sw_job_queue_capacity sw = 32" "sw_poll_queue_capacity sw = 32"
    "sw_concurrency sw = 4"
  using default_worker_run_of_type [of channel_ok "''payment-service''" h c] assms
  by (auto simp: default_poller_example)

text \<open>
  The worker that a client starts with nothing but a job type and a handler: it asks for at most
  32 jobs at a time, again once at most 9 are left, runs at most 4 handlers at once, and its first
  request asks for 32 jobs and lets the gateway wait for 18 seconds.
\<close>

lemma default_worker:
  assumes "channel_ok 32"
  shows "\<exists>sw. worker_run channel_ok
        (with_handler h (with_job_type ''payment-service'' (client_job_worker c))) = Ok sw \<and>
    sw_poller sw = example_poller \<and> sw_job_queue_capacity sw = 32 \<and>
    sw_poll_queue_capacity sw = 32 \<and> sw_concurrency sw = 4 \<and>
    on_message (sw_poller sw) FetchJobs =
      Some (example_polling, Some ((jp_request example_poller)\<lparr>ajr_request_timeout := 18000\<rparr>))"
  using default_worker_run [of channel_ok h c] assms example_request_sent
  unfolding example_request_def by metis

subsection \<open>The request timeout\<close>

text \<open>
  C31: The three timeouts of a request are nested: if a worker is configured with a request timeout
  (below \<open>2 ^ 62\<close> nanoseconds), then every request it makes lets the gateway wait at
  least that long, and strictly less than the client waits, which is ten seconds more.
\<close>

theorem request_timeouts_nested:
  assumes "builder_ok b" "channel_contract channel_ok"
    and "with_request_timeout d b = Ok b'" "worker_run channel_ok b' = Ok sw"
    and "d < 2 ^ 62" "on_message (sw_poller sw) FetchJobs = Some (p, Some r)"
  shows "jp_request_timeout (sw_poller sw) = d + from_secs 10 \<and>
    int (as_millis d) \<le> sint (ajr_request_timeout r) \<and>
    sint (ajr_request_timeout r) < int (as_millis (jp_request_timeout (sw_poller sw)))"
proof -
  have ok: "builder_ok b'"
    using builder_ok_setting [of b "RequestTimeout d" b'] assms(1,3) by simp
  note start = started_worker_initial [OF ok assms(2,4)]
  have t: "jp_request_timeout (sw_poller sw) = d + from_secs 10"
    using start(5) assms(3)
    by (auto simp: with_request_timeout_def duration_add_def REQUEST_TIMEOUT_OFFSET_def
        split: option.splits if_splits)
  have max: "d + from_secs 10 \<le> duration_max"
    using ok start(5) t by (simp add: builder_ok_def)
  obtain e where e: "get_long_polling_millis (d + from_secs 10) = Some (u128_as_i64 (as_millis e))"
      "e \<le> d + from_secs 10" "d + from_secs 10 \<le> e + LONG_POLLING_MAX_DURATION"
      "1000000000 \<le> d + from_secs 10 \<Longrightarrow> e + 1000000 \<le> d + from_secs 10"
    using get_long_polling_millis_returns [OF max] by blast
  have "activate_jobs ((sw_poller sw)\<lparr>jp_request_in_progress := True\<rparr>) = Some (p, r)"
    using assms(6) by (cases rule: on_message_cases) auto
  then have r: "ajr_request_timeout r = u128_as_i64 (as_millis e)"
    using e(1) t by (auto simp: activate_jobs_def Let_def split: if_splits)
  have bounds: "d \<le> e" "e + 1000000 \<le> d + from_secs 10"
    using e(3,4) by (simp_all add: LONG_POLLING_MAX_DURATION_def from_secs_def)
  have "as_millis e < 2 ^ 63"
    using bounds(2) assms(5) by (simp add: as_millis_def from_secs_def)
  then have "sint (ajr_request_timeout r) = int (as_millis e)"
    using r by (simp add: sint_u128_as_i64)
  moreover have "as_millis d \<le> as_millis e" "as_millis e < as_millis (d + from_secs 10)"
    using bounds by (simp_all add: as_millis_def from_secs_def div_le_mono)
  ultimately show ?thesis
    using t by simp
qed

lemma example_started:
  obtains sw where "worker_run example_channel_ok example_builder = Ok sw"
    "sw_poller sw = example_poller"
  using default_worker_run [of example_channel_ok example_handler example_client]
  by (auto simp: example_builder_def example_channel_ok_def)

theorem request_timeouts_nested_witness:
  "10000 \<le> sint (ajr_request_timeout example_request) \<and>
   sint (ajr_request_timeout example_request) < 20000"
proof -
  have ok: "builder_ok example_builder"
    by (rule builder_ok_configure [OF builder_ok_new example_configure])
  have "u128_as_i64 (as_millis (from_secs 10)) = 10000"
    by (simp add: u128_as_i64_def)
  then have same: "with_request_timeout (from_secs 10) example_builder = Ok example_builder"
    by (simp add: with_request_timeout_def duration_add_def example_builder_def with_handler_def
        with_job_type_def client_job_worker_def job_worker_builder_new_def from_secs_def
        DEFAULT_WORKER_REQUEST_TIMEOUT_def REQUEST_TIMEOUT_OFFSET_def duration_max_def)
  obtain sw where sw: "worker_run example_channel_ok example_builder = Ok sw"
      "sw_poller sw = example_poller"
    by (rule example_started)
  from request_timeouts_nested [OF ok example_channel_contract(1) same sw(1) _
      example_request_sent [folded sw(2)]]
  show ?thesis
    by (simp add: sw(2) example_poller_def) (simp add: from_secs_def)
qed

end
