(* ===== verification/Worker_Refinement.thy ===== *)
theory Worker_Refinement
  imports Worker_Safety "HOL-Library.Sublist"
begin

text \<open>
  What a worker promises, without its poller's counters, tasks and channels: it asks for jobs,
  one request at a time and never for more than the limit, takes at most as many as it asked for,
  starts them in the order they came, never more at once than configured, and finishes what it
  started. The specification is a transition system over the history of those four actions; the
  worker of \<open>Worker_System\<close> refines it.
\<close>

subsection \<open>The specification\<close>

text \<open>
  The request cell: no request, one that may still deliver so many jobs, or one that delivers no
  more and is not closed yet.
\<close>

datatype request_cell = NoRequest | Filling nat | Drained

record job_pool =
  pool_cell :: request_cell
  pool_asked :: "nat list" \<comment> \<open>how many jobs each request asked for\<close>
  pool_delivered :: "activated_job list"
  pool_started :: "activated_job list"
  pool_finished :: "activated_job list"

record pool_limits =
  pl_active :: nat
  pl_waiting :: nat
  pl_concurrency :: nat

datatype pool_action = Ask nat | Deliver activated_job | Drain | Close | Start activated_job
  | Finish activated_job

definition empty_pool :: job_pool where
  "empty_pool = \<lparr>pool_cell = NoRequest, pool_asked = [], pool_delivered = [], pool_started = [],
     pool_finished = []\<rparr>"

inductive pool_step :: "pool_limits \<Rightarrow> job_pool \<Rightarrow> pool_action \<Rightarrow> job_pool \<Rightarrow> bool"
  for l :: pool_limits where
  ask: "pool_cell s = NoRequest \<Longrightarrow> 1 \<le> n \<Longrightarrow> n \<le> pl_active l \<Longrightarrow>
    pool_step l s (Ask n) (s\<lparr>pool_cell := Filling n, pool_asked := pool_asked s @ [n]\<rparr>)"
| deliver: "pool_cell s = Filling (Suc n) \<Longrightarrow>
    length (pool_delivered s) < length (pool_started s) + pl_waiting l \<Longrightarrow>
    pool_step l s (Deliver j)
      (s\<lparr>pool_cell := Filling n, pool_delivered := pool_delivered s @ [j]\<rparr>)"
| drain: "pool_cell s = Filling n \<Longrightarrow> pool_step l s Drain (s\<lparr>pool_cell := Drained\<rparr>)"
| close: "pool_cell s = Drained \<Longrightarrow> pool_step l s Close (s\<lparr>pool_cell := NoRequest\<rparr>)"
| start: "pool_delivered s = pool_started s @ j # js \<Longrightarrow>
    pl_concurrency l = 0 \<or>
      length (pool_started s) < length (pool_finished s) + pl_concurrency l \<Longrightarrow>
    pool_step l s (Start j) (s\<lparr>pool_started := pool_started s @ [j]\<rparr>)"
| finish: "j \<in># mset (pool_started s) - mset (pool_finished s) \<Longrightarrow>
    pool_step l s (Finish j) (s\<lparr>pool_finished := pool_finished s @ [j]\<rparr>)"

text \<open>What follows from the specification alone.\<close>

fun cell_budget :: "request_cell \<Rightarrow> nat" where
  "cell_budget (Filling n) = n"
| "cell_budget _ = 0"

definition pool_inv :: "job_pool \<Rightarrow> bool" where
  "pool_inv s \<longleftrightarrow>
     length (pool_delivered s) + cell_budget (pool_cell s) \<le> sum_list (pool_asked s) \<and>
     prefix (pool_started s) (pool_delivered s) \<and>
     mset (pool_finished s) \<subseteq># mset (pool_started s)"

lemma add_mset_subset: "j \<in># A - B \<Longrightarrow> B \<subseteq># A \<Longrightarrow> add_mset j B \<subseteq># A"
  by (auto simp: subseteq_mset_def in_diff_count Suc_le_eq)

lemma pool_inv_step: "pool_inv s \<Longrightarrow> pool_step l s a t \<Longrightarrow> pool_inv t"
proof (erule pool_step.cases)
  fix s' j js
  assume "pool_inv s" "s = s'" "a = Start j" "t = s'\<lparr>pool_started := pool_started s' @ [j]\<rparr>"
    "pool_delivered s' = pool_started s' @ j # js"
  then show "pool_inv t"
    by (auto simp: pool_inv_def prefix_def intro: subset_mset.order_trans)
next
  fix j s'
  assume "pool_inv s" "s = s'" "t = s'\<lparr>pool_finished := pool_finished s' @ [j]\<rparr>"
    "j \<in># mset (pool_started s') - mset (pool_finished s')"
  then show "pool_inv t"
    by (simp add: pool_inv_def add_mset_subset)
qed (auto simp: pool_inv_def prefix_def)

interpretation pool: inductive_invariant "\<lambda>s. s = empty_pool" "pool_step l" pool_inv for l
  by unfold_locales (simp add: pool_inv_def empty_pool_def, rule pool_inv_step)

subsection \<open>The refinement map\<close>

fun task_cell :: "activation \<Rightarrow> request_cell" where
  "task_cell (Activation r Calling) = Filling (requested r)"
| "task_cell (Activation r (Streaming n)) = Filling (requested r - unat n)"
| "task_cell (Activation r (Sending n rest)) = Filling (requested r - (unat n - length rest))"
| "task_cell (Activation r (Announcing n)) = Drained"
| "task_cell (Activation r Completing) = Drained"

definition cell_of :: "worker_state \<Rightarrow> request_cell" where
  "cell_of s =
     (case ws_tasks s of
        a # _ \<Rightarrow> task_cell a
      | [] \<Rightarrow> if jp_request_in_progress (ws_poller s) then Drained else NoRequest)"

definition pool_of :: "worker_state \<Rightarrow> job_pool" where
  "pool_of s =
     \<lparr>pool_cell = cell_of s, pool_asked = map requested (ws_requests s),
      pool_delivered = ws_delivered s, pool_started = ws_started s, pool_finished = ws_finished s\<rparr>"

definition limits_of :: "worker_config \<Rightarrow> u32 \<Rightarrow> pool_limits" where
  "limits_of cfg max_jobs =
     \<lparr>pl_active = unat max_jobs, pl_waiting = wc_job_queue_capacity cfg,
      pl_concurrency = wc_concurrency cfg\<rparr>"

definition refined_inv :: "worker_config \<Rightarrow> u32 \<Rightarrow> worker_state \<Rightarrow> bool" where
  "refined_inv cfg max_jobs s \<longleftrightarrow>
     honest_gateway cfg \<and> worker_inv s \<and> flow_inv s \<and> jp_max_jobs_active (ws_poller s) = max_jobs"

lemma refined_invD:
  assumes "refined_inv cfg max_jobs s"
  shows "honest_gateway cfg" "worker_inv s" "ws_delivered s = ws_started s @ ws_job_queue s"
    "mset (ws_started s) = mset (ws_handling s) + mset (ws_reporting s) + mset (ws_finished s)"
    "jp_max_jobs_active (ws_poller s) = max_jobs"
  using assms by (simp_all add: refined_inv_def flow_inv_def)

lemma refined_inv_step: "refined_inv cfg max_jobs s \<Longrightarrow> worker_step cfg s e t \<Longrightarrow> refined_inv cfg max_jobs t"
  using run_max_jobs_active [OF run_one]
  by (auto simp: refined_inv_def intro: worker_inv_step flow_inv_step)

lemma refined_inv_start:
  "initial_poller p \<Longrightarrow> honest_gateway cfg \<Longrightarrow>
   refined_inv cfg (jp_max_jobs_active p) (worker_start p)"
  by (simp add: refined_inv_def flow_inv_def initial_poller_def worker_inv_start)

lemma pool_of_start: "initial_poller p \<Longrightarrow> pool_of (worker_start p) = empty_pool"
  by (simp add: pool_of_def empty_pool_def cell_of_def initial_poller_def)

text \<open>The two kinds of step that the specification sees: of the request's task, and of the rest.\<close>

abbreviation refines_step :: "worker_config \<Rightarrow> u32 \<Rightarrow> worker_state \<Rightarrow> worker_state \<Rightarrow> bool" where
  "refines_step cfg max_jobs s t \<equiv>
     pool_of t = pool_of s \<or> (\<exists>a. pool_step (limits_of cfg max_jobs) (pool_of s) a (pool_of t))"

lemma refines_drain:
  assumes "pool_cell (pool_of s) = Filling n" "pool_of t = (pool_of s)\<lparr>pool_cell := Drained\<rparr>"
  shows "refines_step cfg max_jobs s t"
  using pool_step.drain [OF assms(1), of "limits_of cfg max_jobs"] assms(2) by auto

lemma pool_of_eqI:
  assumes "cell_of t = c" "ws_requests t = ws_requests s" "ws_delivered t = ws_delivered s"
    "ws_started t = ws_started s" "ws_finished t = ws_finished s"
  shows "pool_of t = (pool_of s)\<lparr>pool_cell := c\<rparr>"
  using assms by (simp add: pool_of_def)

lemma pool_of_same: "pool_cell (pool_of s) = c \<Longrightarrow> (pool_of s)\<lparr>pool_cell := c\<rparr> = pool_of s"
  by auto

lemma refines_tick:
  assumes inv: "refined_inv cfg max_jobs s" and step: "receive FetchJobs s = Some t"
  shows "refines_step cfg max_jobs s t"
proof -
  note ok = worker_invD(1) [OF refined_invD(2) [OF inv]]
  obtain p spawned where m: "on_message (ws_poller s) FetchJobs = Some (p, spawned)"
    and t: "t = s\<lparr>ws_poller := p,
        ws_tasks := ws_tasks s @ (case spawned of None \<Rightarrow> [] | Some r \<Rightarrow> [Activation r Calling]),
        ws_requests := ws_requests s @ (case spawned of None \<Rightarrow> [] | Some r \<Rightarrow> [r])\<rparr>"
    using step by (auto simp: receive_eq_Some_iff)
  show ?thesis
  proof (cases spawned)
    case None
    with m have "p = ws_poller s"
      by (cases rule: on_message_cases) auto
    with None t show ?thesis by simp
  next
    case (Some r)
    note r = on_message_request [OF ok m [unfolded Some]]
    have idle: "ws_tasks s = []" "\<not> jp_request_in_progress (ws_poller s)"
      using worker_invD(2) [OF refined_invD(2) [OF inv]] r by simp_all
    have n: "1 \<le> requested r" "requested r \<le> unat max_jobs"
      using on_message_requested [OF ok m [unfolded Some]] refined_invD(5) [OF inv] by auto
    have "pool_step (limits_of cfg max_jobs) (pool_of s) (Ask (requested r))
        ((pool_of s)\<lparr>pool_cell := Filling (requested r),
          pool_asked := pool_asked (pool_of s) @ [requested r]\<rparr>)"
      by (rule pool_step.ask) (use idle n in \<open>simp_all add: pool_of_def cell_of_def limits_of_def\<close>)
    moreover have "(pool_of s)\<lparr>pool_cell := Filling (requested r),
          pool_asked := pool_asked (pool_of s) @ [requested r]\<rparr> = pool_of t"
      using idle Some t by (simp add: pool_of_def cell_of_def)
    ultimately show ?thesis by auto
  qed
qed

lemma refines_next_message:
  assumes inv: "refined_inv cfg max_jobs s" and queue: "ws_poll_queue s = m # ms"
    and step: "receive m (s\<lparr>ws_poll_queue := ms\<rparr>) = Some t"
  shows "refines_step cfg max_jobs s t"
proof -
  note shape = worker_invD(2) [OF refined_invD(2) [OF inv]]
  obtain p spawned where m: "on_message (ws_poller s) m = Some (p, spawned)"
    and t: "ws_poller t = p"
        "ws_tasks t = ws_tasks s @ (case spawned of None \<Rightarrow> [] | Some r \<Rightarrow> [Activation r Calling])"
        "ws_requests t = ws_requests s @ (case spawned of None \<Rightarrow> [] | Some r \<Rightarrow> [r])"
        "ws_delivered t = ws_delivered s" "ws_started t = ws_started s" "ws_finished t = ws_finished s"
    using step by (auto simp: receive_eq_Some_iff)
  from m show ?thesis
  proof (cases rule: on_message_cases)
    case (arrived n)
    with t show ?thesis by (simp add: pool_of_def cell_of_def)
  next
    case finished
    with t show ?thesis by (simp add: pool_of_def cell_of_def)
  next
    case complete
    then have "request_shape (jp_request_in_progress (ws_poller s)) (ws_tasks s)
        (FetchJobsComplete # control_messages ms)"
      using shape queue by simp
    then have closed: "jp_request_in_progress (ws_poller s)" "ws_tasks s = []"
      by (auto elim: request_shape_message)
    have "pool_step (limits_of cfg max_jobs) (pool_of s) Close ((pool_of s)\<lparr>pool_cell := NoRequest\<rparr>)"
      by (rule pool_step.close) (simp add: pool_of_def cell_of_def closed)
    moreover have "(pool_of s)\<lparr>pool_cell := NoRequest\<rparr> = pool_of t"
      using complete t closed by (simp add: pool_of_def cell_of_def)
    ultimately show ?thesis by auto
  next
    case ignored
    with shape queue show ?thesis by (simp add: request_shape_no_fetch)
  next
    case (activated r)
    with shape queue show ?thesis by (simp add: request_shape_no_fetch)
  qed
qed

lemma refines_phase:
  assumes "refined_inv cfg max_jobs s" "task_at s i r phase"
    and "ws_tasks t = (ws_tasks s)[i := Activation (at_request (ws_tasks s ! i)) phase']"
      "ws_requests t = ws_requests s" "ws_delivered t = ws_delivered s"
      "ws_started t = ws_started s" "ws_finished t = ws_finished s"
    and "task_cell (Activation r phase') = task_cell (Activation r phase) \<or>
      task_cell (Activation r phase') = Drained"
  shows "refines_step cfg max_jobs s t"
proof -
  note task = worker_inv_task [OF refined_invD(2) [OF assms(1)] assms(2)]
  have cell: "cell_of s = task_cell (Activation r phase)" "cell_of t = task_cell (Activation r phase')"
    using assms(3) task by (simp_all add: cell_of_def)
  have pool: "pool_of t = (pool_of s)\<lparr>pool_cell := task_cell (Activation r phase')\<rparr>"
    by (rule pool_of_eqI) (use cell assms in simp_all)
  show ?thesis
  proof (cases "task_cell (Activation r phase)")
    case (Filling n)
    show ?thesis
    proof (cases "task_cell (Activation r phase') = Drained")
      case True
      show ?thesis
        by (rule refines_drain) (use pool cell Filling True in \<open>simp_all add: pool_of_def\<close>)
    next
      case False
      with assms(8) pool cell show ?thesis by (simp add: pool_of_def)
    qed
  next
    case Drained
    with assms(8) pool cell show ?thesis by (simp add: pool_of_def)
  next
    case NoRequest
    then show ?thesis by (cases phase) simp_all
  qed
qed

lemma refines_send_job:
  assumes inv: "refined_inv cfg max_jobs s" and at: "task_at s i r (Sending n (j # js))"
    and room: "job_queue_has_room cfg s"
    and t: "t = set_phase i (Sending n js)
      (s\<lparr>ws_job_queue := ws_job_queue s @ [j], ws_delivered := ws_delivered s @ [j]\<rparr>)"
  shows "refines_step cfg max_jobs s t"
proof -
  note task = worker_inv_task [OF refined_invD(2) [OF inv] at]
  define k where "k = requested r - (unat n - length js)"
  have "unat n \<le> requested r" "Suc (length js) \<le> unat n"
    using task(5) by simp_all
  then have budget: "requested r - (unat n - Suc (length js)) = Suc k"
    by (simp add: k_def)
  have cell: "cell_of s = Filling (Suc k)" "cell_of t = Filling k"
    using task(1,2) budget t by (simp_all add: cell_of_def k_def)
  have "pool_step (limits_of cfg max_jobs) (pool_of s) (Deliver j)
      ((pool_of s)\<lparr>pool_cell := Filling k, pool_delivered := pool_delivered (pool_of s) @ [j]\<rparr>)"
    by (rule pool_step.deliver)
      (use cell room refined_invD(3) [OF inv] in
        \<open>simp_all add: pool_of_def limits_of_def job_queue_has_room_def\<close>)
  moreover have "(pool_of s)\<lparr>pool_cell := Filling k,
      pool_delivered := pool_delivered (pool_of s) @ [j]\<rparr> = pool_of t"
    using cell t by (simp add: pool_of_def)
  ultimately show ?thesis by auto
qed

lemma refines_dispatch:
  assumes inv: "refined_inv cfg max_jobs s" and queue: "ws_job_queue s = j # js"
    and room: "dispatcher_has_room cfg s"
    and t: "t = s\<lparr>ws_job_queue := js, ws_handling := ws_handling s @ [j],
      ws_started := ws_started s @ [j]\<rparr>"
  shows "refines_step cfg max_jobs s t"
proof -
  have "length (ws_started s) =
      length (ws_handling s) + length (ws_reporting s) + length (ws_finished s)"
    using arg_cong [OF refined_invD(4) [OF inv], of size] by simp
  then have "pool_step (limits_of cfg max_jobs) (pool_of s) (Start j)
      ((pool_of s)\<lparr>pool_started := pool_started (pool_of s) @ [j]\<rparr>)"
    using refined_invD(3) [OF inv] queue room
    by (intro pool_step.start [where js = js])
      (simp_all add: pool_of_def limits_of_def dispatcher_has_room_def)
  moreover have "(pool_of s)\<lparr>pool_started := pool_started (pool_of s) @ [j]\<rparr> = pool_of t"
    using t by (simp add: pool_of_def cell_of_def)
  ultimately show ?thesis by auto
qed

lemma refines_finish:
  assumes inv: "refined_inv cfg max_jobs s" and j: "j \<in> set (ws_reporting s)"
    and t: "t = s\<lparr>ws_reporting := remove1 j (ws_reporting s),
      ws_poll_queue := ws_poll_queue s @ [JobFinished], ws_finished := ws_finished s @ [j]\<rparr>"
  shows "refines_step cfg max_jobs s t"
proof -
  have "j \<in># mset (ws_started s) - mset (ws_finished s)"
    using j by (simp add: refined_invD(4) [OF inv])
  then have "pool_step (limits_of cfg max_jobs) (pool_of s) (Finish j)
      ((pool_of s)\<lparr>pool_finished := pool_finished (pool_of s) @ [j]\<rparr>)"
    by (intro pool_step.finish) (simp add: pool_of_def)
  moreover have "(pool_of s)\<lparr>pool_finished := pool_finished (pool_of s) @ [j]\<rparr> = pool_of t"
    using t by (simp add: pool_of_def cell_of_def)
  ultimately show ?thesis by auto
qed

lemma refines_complete:
  assumes inv: "refined_inv cfg max_jobs s" and at: "task_at s i r Completing"
    and t: "t = s\<lparr>ws_tasks := take i (ws_tasks s) @ drop (Suc i) (ws_tasks s),
      ws_poll_queue := ws_poll_queue s @ [FetchJobsComplete]\<rparr>"
  shows "refines_step cfg max_jobs s t"
proof -
  note task = worker_inv_task [OF refined_invD(2) [OF inv] at]
  have "pool_of t = pool_of s"
    using task(1-3) t by (simp add: pool_of_def cell_of_def)
  then show ?thesis by simp
qed

lemma refines_batch:
  assumes inv: "refined_inv cfg max_jobs s" and at: "task_at s i r (Streaming n)"
    and gw: "wc_gateway cfg r (unat n) jobs"
    and t: "t = set_phase i (Sending (n + usize_as_u32 (length jobs)) jobs) s"
  shows "refines_step cfg max_jobs s t"
  by (rule refines_phase [OF inv at, where phase' = "Sending (n + usize_as_u32 (length jobs)) jobs"])
    (simp_all add: t honest_batch [OF refined_invD(1) [OF inv] gw])

lemma worker_step_refines:
  assumes inv: "refined_inv cfg max_jobs s" and step: "worker_step cfg s e t"
  shows "refines_step cfg max_jobs s t"
  using step
proof cases
  case tick
  show ?thesis by (rule refines_tick [OF inv tick(2)])
next
  case (next_message m ms)
  show ?thesis by (rule refines_next_message [OF inv next_message(2,3)])
next
  case (call_returned i r)
  show ?thesis
    by (rule refines_phase [OF inv call_returned(3), where phase' = "Streaming 0"])
      (simp_all add: call_returned)
next
  case (call_failed i r)
  show ?thesis
    by (rule refines_phase [OF inv call_failed(3), where phase' = Completing])
      (simp_all add: call_failed)
next
  case (batch_arrived i r n jobs)
  show ?thesis by (rule refines_batch [OF inv batch_arrived(3,4,2)])
next
  case (send_job i r n j js)
  show ?thesis by (rule refines_send_job [OF inv send_job(3,4,2)])
next
  case (batch_done i r n)
  show ?thesis
    by (rule refines_phase [OF inv batch_done(3), where phase' = "Streaming n"])
      (simp_all add: batch_done)
next
  case (stream_ended i r n)
  show ?thesis
    by (rule refines_phase [OF inv stream_ended(3), where phase' = "Announcing n"])
      (simp_all add: stream_ended)
next
  case (announce i r n)
  show ?thesis
    by (rule refines_phase [OF inv announce(3), where phase' = Completing])
      (simp_all add: announce)
next
  case (time_out i r phase)
  show ?thesis
    by (rule refines_phase [OF inv time_out(3), where phase' = Completing])
      (simp_all add: time_out)
next
  case (complete i r)
  show ?thesis by (rule refines_complete [OF inv complete(3,2)])
next
  case (dispatch j js)
  show ?thesis by (rule refines_dispatch [OF inv dispatch(3,4,2)])
next
  case (handler_done j)
  then have "pool_of t = pool_of s" by (simp add: pool_of_def cell_of_def)
  then show ?thesis by simp
next
  case (report_finished j)
  show ?thesis by (rule refines_finish [OF inv report_finished(3,2)])
qed

interpretation worker_pool: refinement_map "worker_step cfg" "pool_step (limits_of cfg max_jobs)"
    "refined_inv cfg max_jobs" pool_of for cfg max_jobs
  by unfold_locales (rule refined_inv_step, assumption+, rule worker_step_refines)

subsection \<open>The properties\<close>

text \<open>
  C2: The worker refines its specification: every run of a worker whose gateway delivers at most what
  it is asked for (with its counters, its spawned task, the two channels, and every interleaving,
  failure and timeout) is a run of the specification with the configured limits, over the same
  history of requests, deliveries, starts and completions, in no more steps.
\<close>

theorem worker_refines_specification:
  assumes "initial_poller p" "honest_gateway cfg" "run (worker_step cfg) (worker_start p) es s"
  shows "\<exists>as. run (pool_step (limits_of cfg (jp_max_jobs_active p))) empty_pool as (pool_of s) \<and>
    length as \<le> length es"
  using worker_pool.run_refines [OF assms(3) refined_inv_start [OF assms(1,2)]]
  by (simp add: pool_of_start [OF assms(1)])

theorem worker_refines_specification_witness:
  "\<exists>as. run (pool_step \<lparr>pl_active = 32, pl_waiting = 32, pl_concurrency = 4\<rparr>) empty_pool as
      \<lparr>pool_cell = Filling 30, pool_asked = [32],
       pool_delivered = [example_job 1, example_job 2], pool_started = [example_job 1],
       pool_finished = [example_job 1]\<rparr> \<and>
    length as \<le> length example_events"
  using worker_refines_specification [OF example_initial example_honest example_run]
  by (simp add: pool_of_def cell_of_def limits_of_def example_state_def example_requested
      example_worker_config_def example_poller_def)

text \<open>
  The worker takes no more than it asked for, and starts jobs in the order they came: in every
  reachable state of a worker with such a gateway, the jobs put into the job queue are no more
  than its requests have asked for in sum, the jobs handed to the handler are a prefix of them,
  and each finished job is one of those, no more often than it was started.
\<close>

lemma delivered_within_requests:
  assumes "initial_poller p" "honest_gateway cfg" "run (worker_step cfg) (worker_start p) es s"
  shows "length (ws_delivered s) \<le> sum_list (map requested (ws_requests s)) \<and>
    prefix (ws_started s) (ws_delivered s) \<and>
    mset (ws_finished s) \<subseteq># mset (ws_started s)"
proof -
  have "pool_inv (pool_of s)"
    by (rule worker_pool.transports [OF assms(3) refined_inv_start [OF assms(1,2)]])
      (rule pool.inv_reachable [OF pool_of_start [OF assms(1)]])
  then show ?thesis by (simp add: pool_inv_def pool_of_def)
qed

end
