(* ===== verification/Worker_Reports.thy ===== *)
theory Worker_Reports
  imports Job_Worker Worker_Refinement Worker_Liveness
begin

text \<open>
  A started worker together with the world it acts on: the transition system of \<open>Worker_System\<close>,
  whose request task makes its call through the client's interceptor, whose dispatcher runs the
  configured handler on each job, and whose client has its token refreshed in the background. What
  the handler puts on the wire is seen in the step in which it is done. Forgetting the world gives
  back the worker, so that what holds of every worker holds here.
\<close>

subsection \<open>The system\<close>

text \<open>
  Whether the running request task has made its call, and if so, whether the interceptor let it
  pass. There is at most one such task (\<open>one_request_at_a_time\<close>).
\<close>

datatype call_state = NotMade | CallSent | CallRefused

record system =
  sy_worker :: worker_state
  sy_call :: call_state
  sy_world :: world

datatype system_event = Work worker_event | MakeCall nat | RefreshToken nat tick

fun touches_world :: "worker_event \<Rightarrow> bool" where
  "touches_world (CallReturned i) = True"
| "touches_world (CallFailed i) = True"
| "touches_world (HandlerDone j) = True"
| "touches_world _ = False"

definition send_activation ::
    "gateway \<Rightarrow> 'v client \<Rightarrow> activate_jobs_request \<Rightarrow> world \<Rightarrow> call_state \<times> world" where
  "send_activation gw client r w =
     (case call_metadata gw client w of
        Inl st \<Rightarrow> (CallRefused, w)
      | Inr md \<Rightarrow> (CallSent, w\<lparr>wd_wire := wd_wire w @ [(md, ActivateJobs r)]\<rparr>))"

definition make_call :: "gateway \<Rightarrow> 'v client \<Rightarrow> activate_jobs_request \<Rightarrow> system \<Rightarrow> system" where
  "make_call gw client r s =
     (let (c, w) = send_activation gw client r (sy_world s) in s\<lparr>sy_call := c, sy_world := w\<rparr>)"

lemma make_call_eq:
  "make_call gw client r s =
     (case call_metadata gw client (sy_world s) of
        Inl st \<Rightarrow> s\<lparr>sy_call := CallRefused\<rparr>
      | Inr md \<Rightarrow> s\<lparr>sy_call := CallSent,
          sy_world := (sy_world s)\<lparr>wd_wire := wd_wire (sy_world s) @ [(md, ActivateJobs r)]\<rparr>\<rparr>)"
  by (cases s) (simp add: make_call_def send_activation_def split: sum.splits)

inductive system_step :: "gateway \<Rightarrow> 'v started_worker \<Rightarrow> worker_config \<Rightarrow> system \<Rightarrow> system_event
    \<Rightarrow> system \<Rightarrow> bool" for gw :: gateway and sw :: "'v started_worker" and cfg :: worker_config where
  advance: "worker_step cfg (sy_worker s) e t \<Longrightarrow> \<not> touches_world e \<Longrightarrow>
    system_step gw sw cfg s (Work e)
      (s\<lparr>sy_worker := t,
         sy_call := (if ws_requests t = ws_requests (sy_worker s) then sy_call s else NotMade)\<rparr>)"
| call: "task_at (sy_worker s) i r Calling \<Longrightarrow> sy_call s = NotMade \<Longrightarrow>
    system_step gw sw cfg s (MakeCall i) (make_call gw (sw_client sw) r s)"
| returned: "worker_step cfg (sy_worker s) (CallReturned i) t \<Longrightarrow> sy_call s = CallSent \<Longrightarrow>
    system_step gw sw cfg s (Work (CallReturned i)) (s\<lparr>sy_worker := t\<rparr>)"
| failed: "worker_step cfg (sy_worker s) (CallFailed i) t \<Longrightarrow> sy_call s \<noteq> NotMade \<Longrightarrow>
    system_step gw sw cfg s (Work (CallFailed i)) (s\<lparr>sy_worker := t\<rparr>)"
| handled: "worker_step cfg (sy_worker s) (HandlerDone j) t \<Longrightarrow>
    dispatch_job (sw_handler sw) (sw_data sw) (sw_client sw) (job_new j) (sy_world s) = (Ok (), w) \<Longrightarrow>
    system_step gw sw cfg s (Work (HandlerDone j)) (s\<lparr>sy_worker := t, sy_world := w\<rparr>)"
| token: "run_tick k (wd_providers (sy_world s) a) = Ok p \<Longrightarrow>
    system_step gw sw cfg s (RefreshToken a k)
      (s\<lparr>sy_world := (sy_world s)\<lparr>wd_providers := (wd_providers (sy_world s))(a := p)\<rparr>\<rparr>)"

inductive_simps system_step_simps:
  "system_step gw sw cfg s (Work e) t"
  "system_step gw sw cfg s (MakeCall i) t"
  "system_step gw sw cfg s (RefreshToken a k) t"

definition system_start :: "'v started_worker \<Rightarrow> world \<Rightarrow> system" where
  "system_start sw w = \<lparr>sy_worker = worker_start (sw_poller sw), sy_call = NotMade, sy_world = w\<rparr>"

lemma make_call_worker [simp]: "sy_worker (make_call gw c r s) = sy_worker s"
  by (simp add: make_call_eq split: sum.splits)

lemma system_step_worker:
  "system_step gw sw cfg s e t \<Longrightarrow>
   sy_worker t = sy_worker s \<or> (\<exists>e'. worker_step cfg (sy_worker s) e' (sy_worker t))"
  by (erule system_step.cases) auto

interpretation system_worker: refinement_map "system_step gw sw cfg" "worker_step cfg" "\<lambda>_. True"
    sy_worker for gw sw cfg
  by unfold_locales (simp_all add: system_step_worker)

lemma system_run_worker:
  assumes "run (system_step gw sw cfg) (system_start sw w) es s"
  obtains es' where "run (worker_step cfg) (worker_start (sw_poller sw)) es' (sy_worker s)"
  using system_worker.run_refines [OF assms] by (auto simp: system_start_def)

subsection \<open>Credentials\<close>

text \<open>
  A client that can make calls: it has no provider, or its provider has a legal token. Refreshes
  that issue legal tokens keep it that way.
\<close>

definition ready :: "gateway \<Rightarrow> 'v client \<Rightarrow> world \<Rightarrow> bool" where
  "ready gw c w \<longleftrightarrow>
     (case ai_token_provider (cl_gateway_interceptor c) of
        None \<Rightarrow> True
      | Some a \<Rightarrow> usable_provider gw a w)"

fun legal_event :: "gateway \<Rightarrow> 'v client \<Rightarrow> system_event \<Rightarrow> bool" where
  "legal_event gw c (RefreshToken a k) \<longleftrightarrow>
     ai_token_provider (cl_gateway_interceptor c) = Some a \<longrightarrow>
     (\<forall>token. issues k token \<longrightarrow> legal_token gw token)"
| "legal_event gw c e \<longleftrightarrow> True"

text \<open>What a request of the client carries.\<close>

definition credentials :: "gateway \<Rightarrow> 'v client \<Rightarrow> metadata \<Rightarrow> bool" where
  "credentials gw c md \<longleftrightarrow>
     (case ai_token_provider (cl_gateway_interceptor c) of
        None \<Rightarrow> md = Map.empty
      | Some a \<Rightarrow> bearer_metadata gw md)"

lemma bears_token_credentials: "bears_token gw c w md \<Longrightarrow> credentials gw c md"
  by (auto simp: bears_token_def credentials_def bearer_metadata_def split: option.splits)

lemma ready_bears_token: "ready gw c w \<Longrightarrow> \<exists>md. bears_token gw c w md"
  using bears_token_exists [of gw _ w c]
  by (cases "ai_token_provider (cl_gateway_interceptor c)") (auto simp: ready_def bears_token_def)

lemma has_token_wire [simp]: "has_token a (w\<lparr>wd_wire := ws\<rparr>) = has_token a w"
  by (simp add: has_token_def)

lemma ready_wire [simp]: "ready gw c (w\<lparr>wd_wire := ws\<rparr>) = ready gw c w"
  by (simp add: ready_def split: option.splits)

lemma ready_refresh:
  assumes "ready gw c w" "run_tick k (wd_providers w b) = Ok p" "legal_event gw c (RefreshToken b k)"
  shows "ready gw c (w\<lparr>wd_providers := (wd_providers w)(b := p)\<rparr>)"
  using assms usable_provider_refresh [OF _ assms(2)]
  by (auto simp: ready_def split: option.splits)

lemma ready_job_client [simp]: "ready gw (job_client x c job) w = ready gw c w"
  by (simp add: ready_def)

lemma bears_token_job_client [simp]: "bears_token gw (job_client x c job) w md = bears_token gw c w md"
  by (simp add: bears_token_def)

subsection \<open>One report per job\<close>

text \<open>The job keys of the reports among these requests, in their order.\<close>

fun reported_keys :: "wire list \<Rightarrow> i64 list" where
  "reported_keys [] = []"
| "reported_keys ((md, r) # ws) =
     (case job_key_of r of None \<Rightarrow> reported_keys ws | Some k \<Rightarrow> k # reported_keys ws)"

lemma reported_keys_append [simp]: "reported_keys (ws @ ws') = reported_keys ws @ reported_keys ws'"
  by (induction ws rule: reported_keys.induct) (simp_all split: option.splits)

text \<open>A user's function that does not use the client itself (and does not refresh tokens).\<close>

definition keeps_world :: "('v, 'd, 'o) user_handler \<Rightarrow> bool" where
  "keeps_world handler \<longleftrightarrow> (\<forall>params w. snd (handler params w) = w)"

lemma owed_report_keeps_world:
  assumes "keeps_world handler" "owed_report hf xs handler c job w = (Ok r, w')"
  shows "w' = w \<and> job_key_of r = Some (job_key job)"
  using assms(2)
  by (rule owed_report_cases)
    (use assms(1) in \<open>auto simp: keeps_world_def dest: spec [of _ w] arg_cong [of "handler _ w" _ snd]\<close>)

lemma dispatch_reports:
  assumes "keeps_world handler" "ready gw c w"
    and "dispatch_job (auto_handler hf gw xs handler) x c job w = (Ok (), w')"
  shows "\<exists>md r. w' = w\<lparr>wd_wire := wd_wire w @ [(md, r)]\<rparr> \<and> job_key_of r = Some (job_key job) \<and>
    credentials gw c md"
proof -
  obtain md where md: "bears_token gw (job_client x c job) w md"
    using ready_bears_token [of gw "job_client x c job" w] assms(2) by auto
  obtain result w1 where owed: "owed_report hf xs handler (job_client x c job) job w = (result, w1)"
    by (cases "owed_report hf xs handler (job_client x c job) job w")
  then obtain r where r: "result = Ok r"
    using assms(3) by (cases result) (auto simp: auto_handler_reports_once)
  have w1: "w1 = w" "job_key_of r = Some (job_key job)"
    using owed_report_keeps_world [OF assms(1) owed [unfolded r]] by simp_all
  then have "w' = w\<lparr>wd_wire := wd_wire w @ [(md, r)]\<rparr>"
    using assms(3) owed r md
    by (simp add: auto_handler_reports_once call_metadata_bears_token [THEN iffD2])
  moreover have "credentials gw c md"
    using bears_token_credentials [OF md] by (simp add: credentials_def)
  ultimately show ?thesis using w1 by blast
qed

text \<open>A worker whose handler, when it is done, has made one request, a report on its job.\<close>

definition reports_jobs :: "gateway \<Rightarrow> 'v started_worker \<Rightarrow> bool" where
  "reports_jobs gw sw \<longleftrightarrow>
     (\<forall>job w w'. ready gw (sw_client sw) w \<longrightarrow>
        dispatch_job (sw_handler sw) (sw_data sw) (sw_client sw) job w = (Ok (), w') \<longrightarrow>
        (\<exists>md r. w' = w\<lparr>wd_wire := wd_wire w @ [(md, r)]\<rparr> \<and> job_key_of r = Some (job_key job) \<and>
           credentials gw (sw_client sw) md))"

definition report_inv :: "gateway \<Rightarrow> 'v started_worker \<Rightarrow> world \<Rightarrow> system \<Rightarrow> bool" where
  "report_inv gw sw w0 s \<longleftrightarrow>
     ready gw (sw_client sw) (sy_world s) \<and>
     (\<exists>sent. wd_wire (sy_world s) = wd_wire w0 @ sent \<and>
        (\<forall>(md, r) \<in> set sent. credentials gw (sw_client sw) md) \<and>
        mset (reported_keys sent) =
          mset (map aj_key (ws_reporting (sy_worker s))) +
          mset (map aj_key (ws_finished (sy_worker s))))"

lemma worker_step_reported:
  assumes "worker_step cfg s e t"
  shows "(case e of
      HandlerDone j \<Rightarrow> mset (ws_reporting t) + mset (ws_finished t) =
        mset (ws_reporting s) + mset (ws_finished s) + {#j#}
    | _ \<Rightarrow> mset (ws_reporting t) + mset (ws_finished t) = mset (ws_reporting s) + mset (ws_finished s))"
  using assms by cases (auto dest: receive_frame)

lemma reported_image:
  "mset (map f xs) + mset (map f ys) = image_mset f (mset xs + mset ys)"
  by simp

lemma job_key_new [simp]: "job_key (job_new j) = aj_key j"
  by (simp add: job_key_def job_new_def)

lemma report_invI:
  assumes "ready gw (sw_client sw) (sy_world t)"
    and "wd_wire (sy_world s) = wd_wire w0 @ sent" "wd_wire (sy_world t) = wd_wire (sy_world s) @ new"
    and "\<forall>(md, r) \<in> set sent. credentials gw (sw_client sw) md"
      "\<forall>(md, r) \<in> set new. credentials gw (sw_client sw) md"
    and "mset (reported_keys sent) =
        image_mset aj_key (mset (ws_reporting (sy_worker s)) + mset (ws_finished (sy_worker s)))"
    and "mset (ws_reporting (sy_worker t)) + mset (ws_finished (sy_worker t)) =
        mset (ws_reporting (sy_worker s)) + mset (ws_finished (sy_worker s)) + js"
      "mset (reported_keys new) = image_mset aj_key js"
  shows "report_inv gw sw w0 t"
  unfolding report_inv_def reported_image
  using assms by (intro conjI exI [of _ "sent @ new"]) auto

lemma report_inv_step:
  assumes inv: "report_inv gw sw w0 s" and step: "system_step gw sw cfg s e t"
    and reports: "reports_jobs gw sw" and legal: "legal_event gw (sw_client sw) e"
  shows "report_inv gw sw w0 t"
proof -
  obtain sent where sent: "wd_wire (sy_world s) = wd_wire w0 @ sent"
      "\<forall>(md, r) \<in> set sent. credentials gw (sw_client sw) md"
      "mset (reported_keys sent) =
        image_mset aj_key (mset (ws_reporting (sy_worker s)) + mset (ws_finished (sy_worker s)))"
    and auth: "ready gw (sw_client sw) (sy_world s)"
    using inv unfolding report_inv_def reported_image by blast
  note same = report_invI [OF _ sent(1) _ sent(2) _ sent(3)]
  show ?thesis
    using step
  proof cases
    case (advance e' u)
    show ?thesis
      by (rule same [where new = "[]" and js = "{#}"])
        (use auth advance worker_step_reported [OF advance(3)] in \<open>cases e'; simp\<close>)+
  next
    case (call i r)
    show ?thesis
    proof (cases "call_metadata gw (sw_client sw) (sy_world s)")
      case (Inl st)
      show ?thesis
        by (rule same [where new = "[]" and js = "{#}"]) (use auth call Inl in \<open>simp_all add: make_call_eq\<close>)
    next
      case (Inr md)
      then have "credentials gw (sw_client sw) md"
        using bears_token_credentials by (simp add: call_metadata_bears_token)
      then show ?thesis
        by (intro same [where new = "[(md, ActivateJobs r)]" and js = "{#}"])
          (use auth call Inr in \<open>simp_all add: make_call_eq\<close>)
    qed
  next
    case (returned i u)
    show ?thesis
      by (rule same [where new = "[]" and js = "{#}"])
        (use auth returned worker_step_reported [OF returned(3)] in simp_all)
  next
    case (failed i u)
    show ?thesis
      by (rule same [where new = "[]" and js = "{#}"])
        (use auth failed worker_step_reported [OF failed(3)] in simp_all)
  next
    case (handled j u w)
    obtain md r where r: "w = (sy_world s)\<lparr>wd_wire := wd_wire (sy_world s) @ [(md, r)]\<rparr>"
        "job_key_of r = Some (aj_key j)" "credentials gw (sw_client sw) md"
      using reports auth handled(4) unfolding reports_jobs_def by (metis job_key_new)
    show ?thesis
      by (rule same [where new = "[(md, r)]" and js = "{#j#}"])
        (use auth handled r worker_step_reported [OF handled(3)] in simp_all)
  next
    case (token k a p)
    show ?thesis
      by (rule same [where new = "[]" and js = "{#}"])
        (use auth token legal in \<open>simp_all add: ready_refresh\<close>)
  qed
qed

interpretation reports: inductive_invariant
    "\<lambda>s. s = system_start sw w0 \<and> ready gw (sw_client sw) w0"
    "\<lambda>s e t. legal_event gw (sw_client sw) e \<and> system_step gw sw cfg s e t"
    "\<lambda>s. reports_jobs gw sw \<longrightarrow> report_inv gw sw w0 s" for gw sw cfg w0
  by unfold_locales (simp add: report_inv_def system_start_def, blast intro: report_inv_step)

lemma auto_worker:
  assumes "worker_run channel_ok (with_auto_handler hf gw xs handler b) = Ok sw"
  shows "sw_handler sw = auto_handler hf gw xs handler" "jp_request (sw_poller sw) = jwb_request b"
    "jp_max_jobs_active (sw_poller sw) = i32_as_u32 (ajr_max_jobs_to_activate (jwb_request b))"
    "sw_client sw = jwb_client b"
  using assms
  by (auto simp: worker_run_eq_Ok_iff with_auto_handler_def with_handler_def auto_handler_def)

lemma auto_worker_reports_jobs:
  assumes "worker_run channel_ok (with_auto_handler hf gw xs handler b) = Ok sw" "keeps_world handler"
  shows "reports_jobs gw sw"
  unfolding reports_jobs_def auto_worker(1) [OF assms(1)]
  using dispatch_reports [OF assms(2)] by (intro allI impI)

lemma auto_reports:
  assumes "worker_run channel_ok (with_auto_handler hf gw xs handler b) = Ok sw"
    and "keeps_world handler" "ready gw (sw_client sw) w"
    and "run (system_step gw sw cfg) (system_start sw w) es s"
    and "\<And>e. e \<in> set es \<Longrightarrow> legal_event gw (sw_client sw) e"
  shows "\<exists>sent. wd_wire (sy_world s) = wd_wire w @ sent \<and>
    (\<forall>(md, r) \<in> set sent. credentials gw (sw_client sw) md) \<and>
    mset (reported_keys sent) =
      mset (map aj_key (ws_reporting (sy_worker s))) + mset (map aj_key (ws_finished (sy_worker s)))"
proof -
  have "reports_jobs gw sw"
    by (rule auto_worker_reports_jobs [OF assms(1,2)])
  moreover have "run (\<lambda>s e t. legal_event gw (sw_client sw) e \<and> system_step gw sw cfg s e t)
      (system_start sw w) es s"
    using run_restrict [OF assms(4)] assms(5) by blast
  ultimately show ?thesis
    using reports.inv_reachable [of "system_start sw w" sw w gw cfg es s] assms(3)
    by (simp add: report_inv_def)
qed

text \<open>
  C3: An auto handler's worker reports every job it was handed exactly once: in every reachable state
  of a started worker whose client can make calls (with an identity server that issues legal
  tokens), and whose user's function does not use the client itself, the requests made so far
  carry the client's credentials, and those about a job are, as a multiset of job keys, one for
  each job whose handler is done, and none for any other (whatever the gateway delivers and
  answers, the order in which handlers end, timeouts and token refreshes).
\<close>

theorem every_job_reported_once:
  assumes "worker_run channel_ok (with_auto_handler hf gw xs handler b) = Ok sw"
    and "keeps_world handler" "ready gw (sw_client sw) w"
    and "run (system_step gw sw cfg) (system_start sw w) es s"
    and "\<And>e. e \<in> set es \<Longrightarrow> legal_event gw (sw_client sw) e"
  shows "\<exists>sent. wd_wire (sy_world s) = wd_wire w @ sent \<and>
    (\<forall>(md, r) \<in> set sent. credentials gw (sw_client sw) md) \<and>
    mset (reported_keys sent) =
      mset (map aj_key (ws_reporting (sy_worker s))) + mset (map aj_key (ws_finished (sy_worker s)))"
  by (rule auto_reports [OF assms])

text \<open>
  The default worker with an auto handler that gets the job and returns an empty object: it makes
  its call, gets one job, handles and reports it.
\<close>

definition example_user_handler :: "(nat, string, string) user_handler" where
  "example_user_handler params w = (if length params = 1 then (Ok ''{}'', w) else (Err ''boom'', w))"

definition example_formats :: "(string, string) handler_formats" where
  "example_formats =
     \<lparr>hf_json = example_json, hf_to_value = Inr, hf_errors = example_error_formats\<rparr>"

definition example_auto_builder :: "nat job_worker_builder" where
  "example_auto_builder = with_auto_handler example_formats example_gateway [FromJobItself]
     example_user_handler (with_job_type ''payment-service'' (client_job_worker example_client))"

lemma example_auto_started:
  obtains sw where "worker_run example_channel_ok example_auto_builder = Ok sw"
    "sw_client sw = example_client" "sw_poller sw = example_poller"
    "sw_handler sw =
       auto_handler example_formats example_gateway [FromJobItself] example_user_handler"
proof -
  obtain sw where sw: "worker_run example_channel_ok example_auto_builder = Ok sw"
      "sw_poller sw = example_poller"
    using default_worker_run [of example_channel_ok
        "auto_handler_body example_formats example_gateway [FromJobItself] example_user_handler"
        example_client]
    by (auto simp: example_auto_builder_def with_auto_handler_def example_channel_ok_def)
  then show thesis
    by (intro that)
      (auto simp: worker_run_eq_Ok_iff example_auto_builder_def with_auto_handler_def auto_handler_def
        with_handler_def with_job_type_def client_job_worker_def job_worker_builder_new_def)
qed

lemma example_dispatch:
  "dispatch_job (auto_handler example_formats example_gateway [FromJobItself] example_user_handler) x
      example_client (job_new (example_job k)) (example_authenticated_world\<lparr>wd_wire := ws\<rparr>) =
    (Ok (), example_authenticated_world\<lparr>wd_wire := ws @
      [(example_metadata, CompleteJob \<lparr>cjr_job_key = k, cjr_variables = ''{}''\<rparr>)]\<rparr>)"
proof -
  have "bears_token example_gateway (job_client x example_client (job_new (example_job k)))
      (example_authenticated_world\<lparr>wd_wire := ws\<rparr>) example_metadata"
    using example_bears_token [of example_client] by (simp add: bears_token_def)
  moreover have "owed_report example_formats [FromJobItself] example_user_handler
      (job_client x example_client (job_new (example_job k))) (job_new (example_job k)) w =
    (Ok (CompleteJob \<lparr>cjr_job_key = k, cjr_variables = ''{}''\<rparr>), w)" for w
    by (simp add: owed_report_def tuple_from_job_def example_user_handler_def example_formats_def
        example_json_def Let_def) (simp add: example_job_def)
  ultimately show ?thesis
    by (simp add: auto_handler_reports_once call_metadata_bears_token [THEN iffD2])
qed

definition example_system_events :: "system_event list" where
  "example_system_events =
     [Work Tick, MakeCall 0, Work (CallReturned 0), Work (BatchArrived 0 [example_job 1]),
      Work (SendJob 0), Work Dispatch, Work (HandlerDone (example_job 1))]"

lemma example_system_run:
  assumes "sw_client sw = example_client" "sw_poller sw = example_poller"
    "sw_handler sw =
       auto_handler example_formats example_gateway [FromJobItself] example_user_handler"
  shows "\<exists>s. run (system_step example_gateway sw example_worker_config)
      (system_start sw (example_authenticated_world\<lparr>wd_wire := []\<rparr>)) example_system_events s \<and>
    sy_worker s = \<lparr>ws_poller = example_polling,
      ws_tasks = [Activation example_request (Sending 1 [])], ws_job_queue = [],
      ws_poll_queue = [], ws_handling = [], ws_reporting = [example_job 1],
      ws_requests = [example_request], ws_delivered = [example_job 1],
      ws_started = [example_job 1], ws_finished = [], ws_lost = 0, ws_clipped = 0\<rparr> \<and>
    wd_wire (sy_world s) =
      [(example_metadata, ActivateJobs example_request),
       (example_metadata, CompleteJob \<lparr>cjr_job_key = 1, cjr_variables = ''{}''\<rparr>)]"
proof -
  have "bears_token example_gateway example_client
      (example_authenticated_world\<lparr>wd_wire := []\<rparr>) example_metadata"
    using example_bears_token [of example_client] by (simp add: bears_token_def)
  then have "call_metadata example_gateway example_client
      (example_authenticated_world\<lparr>wd_wire := []\<rparr>) = Inr example_metadata"
    by (simp add: call_metadata_bears_token)
  then show ?thesis
    by (simp add: example_system_events_def run_Cons_iff system_step_simps worker_step_simps
        receive_eq_Some_iff system_start_def assms make_call_eq example_dispatch
        example_request_sent example_requested task_at_def set_phase_def worker_start_def
        example_worker_config_def job_queue_has_room_def dispatcher_has_room_def usize_as_u32_def
        del: on_message.simps)
qed

theorem every_job_reported_once_witness:
  "\<exists>(sw :: nat started_worker) s. run (system_step example_gateway sw example_worker_config)
      (system_start sw (example_authenticated_world\<lparr>wd_wire := []\<rparr>)) example_system_events s \<and>
    (\<exists>sent. wd_wire (sy_world s) = sent \<and> mset (reported_keys sent) = {#1#})"
proof -
  obtain sw :: "nat started_worker" where sw: "worker_run example_channel_ok example_auto_builder = Ok sw"
      "sw_client sw = example_client" "sw_poller sw = example_poller"
      "sw_handler sw =
         auto_handler example_formats example_gateway [FromJobItself] example_user_handler"
    by (rule example_auto_started)
  obtain s where s: "run (system_step example_gateway sw example_worker_config)
      (system_start sw (example_authenticated_world\<lparr>wd_wire := []\<rparr>)) example_system_events s"
      "ws_reporting (sy_worker s) = [example_job 1]" "ws_finished (sy_worker s) = []"
    using example_system_run [OF sw(2-4)] by fastforce
  have "keeps_world example_user_handler"
    by (simp add: keeps_world_def example_user_handler_def)
  moreover have "ready example_gateway (sw_client sw) (example_authenticated_world\<lparr>wd_wire := []\<rparr>)"
    by (simp add: ready_def sw example_usable)
  moreover have "legal_event example_gateway (sw_client sw) e" if "e \<in> set example_system_events" for e
    using that by (auto simp: example_system_events_def)
  ultimately show ?thesis
    using every_job_reported_once [OF sw(1) [unfolded example_auto_builder_def] _ _ s(1)] s
    by (intro exI [of _ sw] exI [of _ s]) (simp add: example_job_def)
qed

subsection \<open>A worker without a token\<close>

text \<open>A worker that has never been delivered a job.\<close>

definition starving :: "worker_state \<Rightarrow> bool" where
  "starving s \<longleftrightarrow>
     (\<forall>b \<in> set (ws_tasks s). at_phase b = Calling \<or> at_phase b = Completing) \<and>
     set (ws_poll_queue s) \<subseteq> {FetchJobsComplete} \<and> jp_remaining (ws_poller s) = 0 \<and>
     ws_job_queue s = [] \<and> ws_handling s = [] \<and> ws_reporting s = [] \<and> ws_delivered s = []"

definition starved :: "nat \<Rightarrow> world \<Rightarrow> system \<Rightarrow> bool" where
  "starved a w s \<longleftrightarrow>
     \<not> has_token a (sy_world s) \<and> wd_wire (sy_world s) = wd_wire w \<and> sy_call s \<noteq> CallSent \<and>
     starving (sy_worker s)"

lemma starving_task:
  "starving s \<Longrightarrow> task_at s i r phase \<Longrightarrow> phase = Calling \<or> phase = Completing"
  by (auto simp: starving_def task_at_def dest!: nth_mem bspec)

lemma call_without_token:
  assumes "ai_token_provider (cl_gateway_interceptor c) = Some a" "\<not> has_token a w"
  shows "\<exists>st. call_metadata gw c w = Inl st"
  using interceptor_call_unauthenticated [OF assms(1), of "wd_providers w"] assms(2)
  by (simp add: call_metadata_def has_token_def)

lemma starving_receive:
  assumes "starving s" "receive m s = Some t" "m = FetchJobs \<or> m = FetchJobsComplete"
  shows "starving t"
proof -
  obtain p spawned where m: "on_message (ws_poller s) m = Some (p, spawned)"
    and t: "t = s\<lparr>ws_poller := p,
        ws_tasks := ws_tasks s @ (case spawned of None \<Rightarrow> [] | Some r \<Rightarrow> [Activation r Calling]),
        ws_requests := ws_requests s @ (case spawned of None \<Rightarrow> [] | Some r \<Rightarrow> [r]),
        ws_clipped := ws_clipped s + of_bool (m = JobFinished \<and> jp_remaining (ws_poller s) = 0)\<rparr>"
    using assms(2) by (auto simp: receive_eq_Some_iff)
  have "jp_remaining p = jp_remaining (ws_poller s)"
    using m assms(3) by (cases rule: on_message_cases) (auto dest: activate_jobs_frame)
  with assms(1) t show ?thesis
    by (cases spawned) (auto simp: starving_def)
qed

lemma starving_set_phase:
  "starving s \<Longrightarrow> starving (set_phase i Completing (s\<lparr>ws_lost := k\<rparr>))"
  using set_update_subset_insert [of "ws_tasks s" i "Activation (at_request (ws_tasks s ! i)) Completing"]
  by (auto simp: starving_def)

lemma starving_step:
  assumes inv: "starving s" and step: "worker_step cfg s e t" and e: "\<And>i. e \<noteq> CallReturned i"
  shows "starving t"
  using step
proof cases
  case tick
  with starving_receive [OF inv] show ?thesis by blast
next
  case (next_message m ms)
  have "starving (s\<lparr>ws_poll_queue := ms\<rparr>)" "m = FetchJobsComplete"
    using inv next_message by (simp_all add: starving_def)
  with starving_receive next_message(3) show ?thesis by blast
next
  case (complete i r)
  with inv show ?thesis
    by (auto simp: starving_def dest: in_set_takeD in_set_dropD)
next
  case (call_failed i r)
  with starving_set_phase [OF inv, of i "ws_lost s"] show ?thesis by simp
next
  case (time_out i r phase)
  with starving_set_phase [OF inv] show ?thesis by simp
next
  case (batch_arrived i r n js)
  with starving_task [OF inv batch_arrived(3)] show ?thesis by simp
next
  case (send_job i r n j js)
  with starving_task [OF inv send_job(3)] show ?thesis by simp
next
  case (batch_done i r n)
  with starving_task [OF inv batch_done(3)] show ?thesis by simp
next
  case (stream_ended i r n)
  with starving_task [OF inv stream_ended(3)] show ?thesis by simp
next
  case (announce i r n)
  with starving_task [OF inv announce(3)] show ?thesis by simp
qed (use inv e in \<open>simp_all add: starving_def\<close>)

lemma starved_step:
  assumes inv: "starved a w s" and step: "system_step gw sw cfg s e t"
    and a: "ai_token_provider (cl_gateway_interceptor (sw_client sw)) = Some a"
    and e: "\<And>k. e \<noteq> RefreshToken a k"
  shows "starved a w t"
  using step
proof cases
  case (advance e' u)
  then have "e' \<noteq> CallReturned i" for i by auto
  then have "starving u"
    using inv starving_step [OF _ advance(3)] by (auto simp: starved_def)
  with inv advance show ?thesis by (simp add: starved_def)
next
  case (call i r)
  have "\<not> has_token a (sy_world s)"
    using inv by (simp add: starved_def)
  with call_without_token [OF a, of "sy_world s" gw] inv call show ?thesis
    by (auto simp: make_call_eq starved_def)
next
  case (returned i u)
  with inv show ?thesis by (simp add: starved_def)
next
  case (failed i u)
  then have "starving u"
    using inv starving_step [OF _ failed(3)] by (auto simp: starved_def)
  with inv failed show ?thesis by (simp add: starved_def)
next
  case (handled j u w')
  with inv show ?thesis by (auto simp: starved_def starving_def worker_step_simps)
next
  case (token k b p)
  with inv e show ?thesis by (auto simp: starved_def has_token_def)
qed

lemma starved_run:
  assumes "ai_token_provider (cl_gateway_interceptor (sw_client sw)) = Some a" "\<not> has_token a w"
    and "initial_poller (sw_poller sw)"
    and "run (system_step gw sw cfg) (system_start sw w) es s" "\<And>k. RefreshToken a k \<notin> set es"
  shows "starved a w s"
proof -
  have "starved a w (system_start sw w)"
    using assms(2,3) by (simp add: starved_def starving_def system_start_def initial_poller_def)
  with assms(4,5) show ?thesis
  proof (induction rule: run.induct)
    case (run_step s e t es u)
    have "starved a w t"
      by (rule starved_step [OF run_step.prems(2) run_step.hyps(1) assms(1)])
        (use run_step.prems(1) in auto)
    with run_step show ?case by simp
  qed
qed

text \<open>
  C24: A worker whose client never got a token gets no jobs and bothers nobody: while the client's own
  provider has no token and is not refreshed, in every state the worker reaches, nothing has been
  put on the wire and no job been delivered, whatever the poller, the timers and other clients'
  refreshes do.
\<close>

theorem worker_without_token_gets_no_jobs:
  assumes "ai_token_provider (cl_gateway_interceptor (sw_client sw)) = Some a" "\<not> has_token a w"
    and "initial_poller (sw_poller sw)" "run (system_step gw sw cfg) (system_start sw w) es s"
    and "\<And>k. RefreshToken a k \<notin> set es"
  shows "wd_wire (sy_world s) = wd_wire w \<and> ws_delivered (sy_worker s) = []"
  using starved_run [OF assms(1-4)] assms(5) by (simp add: starved_def starving_def)

definition example_starved_events :: "system_event list" where
  "example_starved_events =
     [Work Tick, MakeCall 0, Work (CallFailed 0), Work (Complete 0), Work NextMessage, Work Tick]"

lemma example_starved_run:
  assumes "sw_client sw = example_client" "sw_poller sw = example_poller"
  shows "\<exists>s. run (system_step example_gateway sw example_worker_config)
    (system_start sw example_world) example_starved_events s"
proof -
  have "\<not> has_token 0 example_world"
    by (simp add: has_token_def example_world_def example_provider_def new_token_provider_unauthenticated)
  then obtain st where st: "call_metadata example_gateway example_client example_world = Inl st"
    using call_without_token [of example_client 0 example_world example_gateway] by auto
  have "should_activate_jobs (example_polling\<lparr>jp_request_in_progress := False\<rparr>)"
    by (simp add: should_activate_jobs_def example_polling_def example_poller_def)
  moreover have "poller_ok (example_polling\<lparr>jp_request_in_progress := False\<rparr>)"
    using example_poller_ok by (simp add: poller_ok_def example_polling_def)
  then obtain p r where "on_message (example_polling\<lparr>jp_request_in_progress := False\<rparr>) FetchJobs = Some (p, r)"
    using on_message_returns by blast
  ultimately show ?thesis
    by (simp add: example_starved_events_def run_Cons_iff system_step_simps worker_step_simps
        receive_eq_Some_iff system_start_def assms make_call_eq st example_request_sent task_at_def
        set_phase_def worker_start_def example_worker_config_def poll_queue_has_room_def
        del: on_message.simps(3))
qed

theorem worker_without_token_gets_no_jobs_witness:
  "\<exists>(sw :: nat started_worker) s. run (system_step example_gateway sw example_worker_config)
      (system_start sw example_world) example_starved_events s \<and> wd_wire (sy_world s) = []"
proof -
  obtain sw :: "nat started_worker" where sw: "sw_client sw = example_client"
      "sw_poller sw = example_poller"
    using example_auto_started by metis
  obtain s where s: "run (system_step example_gateway sw example_worker_config)
      (system_start sw example_world) example_starved_events s"
    using example_starved_run [OF sw] by blast
  have "\<not> has_token 0 example_world"
    by (simp add: has_token_def example_world_def example_provider_def new_token_provider_unauthenticated)
  with worker_without_token_gets_no_jobs [of sw 0 example_world, OF _ _ _ s] example_initial sw s
  show ?thesis
    by (intro exI [of _ sw] exI [of _ s]) (simp add: example_starved_events_def example_world_def)
qed

subsection \<open>Once the token arrives\<close>

text \<open>A run of the worker that leaves the world alone is one of the system.\<close>

lemma run_advances:
  "run (worker_step cfg) u fs v \<Longrightarrow> sy_worker s = u \<Longrightarrow> \<forall>e \<in> set fs. \<not> touches_world e \<Longrightarrow>
   \<exists>t. run (system_step gw sw cfg) s (map Work fs) t \<and> sy_worker t = v \<and> sy_world t = sy_world s"
proof (induction arbitrary: s rule: run.induct)
  case (run_step u e v fs w)
  let ?s = "s\<lparr>sy_worker := v,
    sy_call := (if ws_requests v = ws_requests (sy_worker s) then sy_call s else NotMade)\<rparr>"
  have "system_step gw sw cfg s (Work e) ?s"
    by (rule system_step.advance) (use run_step in auto)
  moreover obtain t where "run (system_step gw sw cfg) ?s (map Work fs) t" "sy_worker t = w"
      "sy_world t = sy_world ?s"
    using run_step.IH [of ?s] run_step.prems by auto
  ultimately show ?case
    by (intro exI [of _ t]) (auto intro: run.run_step)
qed auto

lemma starving_run:
  "run (worker_step cfg) s fs t \<Longrightarrow> starving s \<Longrightarrow> \<forall>e \<in> set fs. \<not> touches_world e \<Longrightarrow> starving t"
proof (induction rule: run.induct)
  case (run_step s e t es u)
  have "e \<noteq> CallReturned i" for i
    using run_step.prems(2) by auto
  with starving_step [OF run_step.prems(1) run_step.hyps(1)] run_step show ?case by simp
qed simp

lemma idle_starving_asks:
  assumes "starving s" "request_inv s" "poller_ok (ws_poller s)"
    "\<not> jp_request_in_progress (ws_poller s)"
  obtains r t where "worker_step cfg s Tick t" "ws_requests t = ws_requests s @ [r]"
    "ws_tasks t = [Activation r Calling]" "1 \<le> requested r"
proof -
  have idle: "ws_tasks s = []" "should_activate_jobs (ws_poller s)"
    using assms(1,2,4) by (simp_all add: starving_def request_inv_def should_activate_jobs_def)
  obtain p' spawned where m: "on_message (ws_poller s) FetchJobs = Some (p', spawned)"
    using on_message_returns [OF assms(3)] by blast
  then obtain r where r: "spawned = Some r"
    using idle(2) by (cases rule: on_message_cases) auto
  show thesis
    using that [of _ r] m r idle on_message_requested [OF assms(3) m [unfolded r]]
    by (auto simp: worker_step_simps receive_eq_Some_iff simp del: on_message.simps)
qed

text \<open>
  C25: A worker recovers as soon as its client gets a token: from every state that a worker without a
  token has reached, a refresh that brings a legal one, followed by steps of the worker alone, leads to
  the first request on the wire, which asks for at least one job and carries the token.
\<close>

theorem worker_starts_once_token_arrives:
  assumes "ai_token_provider (cl_gateway_interceptor (sw_client sw)) = Some a" "\<not> has_token a w"
    and "initial_poller (sw_poller sw)" "0 < wc_poll_queue_capacity cfg"
    and "run (system_step gw sw cfg) (system_start sw w) es s" "\<And>k. RefreshToken a k \<notin> set es"
    and "run_tick k (wd_providers (sy_world s) a) = Ok p" "access_token p = Ok token"
      "legal_token gw token"
  shows "\<exists>fs t md r. run (system_step gw sw cfg) s (RefreshToken a k # fs) t \<and>
    wd_wire (sy_world t) = wd_wire w @ [(md, ActivateJobs r)] \<and> 1 \<le> requested r \<and>
    bearer_metadata gw md"
proof -
  let ?s = "s\<lparr>sy_world := (sy_world s)\<lparr>wd_providers := (wd_providers (sy_world s))(a := p)\<rparr>\<rparr>"
  have starved: "starving (sy_worker s)" "wd_wire (sy_world s) = wd_wire w"
    using starved_run [OF assms(1-3,5,6)] by (simp_all add: starved_def)
  obtain es' where reach: "run (worker_step cfg) (worker_start (sw_poller sw)) es' (sy_worker s)"
    using system_run_worker [OF assms(5)] by blast
  obtain fs u where u: "run (worker_step cfg) (sy_worker s) fs u"
      "set fs \<subseteq> {NextMessage, TimeOut 0, Complete 0}" "\<not> jp_request_in_progress (ws_poller u)"
    using request_ends [OF reachable_request_inv [OF assms(3) reach]
        reachable_poller_ok [OF assms(3) reach] assms(4)] by blast
  have quiet: "\<forall>e \<in> set fs. \<not> touches_world e"
    using u(2) by auto
  have reach_u: "run (worker_step cfg) (worker_start (sw_poller sw)) (es' @ fs) u"
    by (rule run_append [OF reach u(1)])
  obtain r v where v: "worker_step cfg u Tick v" "ws_requests v = ws_requests u @ [r]"
      "ws_tasks v = [Activation r Calling]" "1 \<le> requested r"
    using idle_starving_asks [OF starving_run [OF u(1) starved(1) quiet]
        reachable_request_inv [OF assms(3) reach_u] reachable_poller_ok [OF assms(3) reach_u] u(3)]
    by blast
  obtain t1 where t1: "run (system_step gw sw cfg) ?s (map Work fs) t1" "sy_worker t1 = u"
      "sy_world t1 = sy_world ?s"
    using run_advances [OF u(1), of ?s gw sw] quiet by auto
  let ?t2 = "t1\<lparr>sy_worker := v, sy_call := NotMade\<rparr>"
  have tick: "system_step gw sw cfg t1 (Work Tick) ?t2"
    using system_step.advance [of cfg t1 Tick v gw sw] v(1,2) t1(2) by simp
  have "usable_provider gw a (sy_world ?t2)"
    using assms(8,9) t1(3) by (simp add: usable_provider_iff)
  then obtain md where md: "bears_token gw (sw_client sw) (sy_world ?t2) md"
    using bears_token_exists [OF _ assms(1)] by blast
  define t3 where "t3 = make_call gw (sw_client sw) r ?t2"
  have wire: "wd_wire (sy_world t3) = wd_wire (sy_world ?t2) @ [(md, ActivateJobs r)]"
    using md by (simp add: t3_def make_call_eq call_metadata_bears_token [THEN iffD2])
  have call: "system_step gw sw cfg ?t2 (MakeCall 0) t3"
    unfolding t3_def by (rule system_step.call) (simp_all add: task_at_def v(3))
  have "run (system_step gw sw cfg) t1 [Work Tick, MakeCall 0] t3"
    using tick call by (simp only: run_Cons_iff run_Nil_iff) blast
  from run_append [OF t1(1) this] have "run (system_step gw sw cfg) s
      (RefreshToken a k # map Work fs @ [Work Tick, MakeCall 0]) t3"
    using system_step.token [OF assms(7), of gw sw cfg] by (subst run_Cons_iff) blast
  then show ?thesis
    using v(4) starved(2) t1(3) wire bears_token_bearer [OF md assms(1)]
    by (intro exI [of _ "map Work fs @ [Work Tick, MakeCall 0]"] exI [of _ t3] exI [of _ md]
        exI [of _ r]) simp
qed

theorem worker_starts_once_token_arrives_witness:
  "\<exists>(sw :: nat started_worker) fs t md r.
    run (system_step example_gateway sw example_worker_config) (system_start sw example_world) fs t \<and>
    wd_wire (sy_world t) = [(md, ActivateJobs r)] \<and> bearer_metadata example_gateway md"
proof -
  obtain sw :: "nat started_worker" where sw: "sw_client sw = example_client"
      "sw_poller sw = example_poller"
    using example_auto_started by metis
  have "\<not> has_token 0 example_world"
    by (simp add: has_token_def example_world_def example_provider_def new_token_provider_unauthenticated)
  moreover have "run_tick example_tick (wd_providers (sy_world (system_start sw example_world)) 0) =
      Ok example_refreshed"
    by (simp add: system_start_def run_tick_def example_tick_def example_world_def example_refresh)
  moreover have "access_token example_refreshed = Ok ''tok''" "legal_token example_gateway ''tok''"
    by (simp_all add: example_refreshed_def access_token_def notify_initialized_def store_token_def
        example_provider_defs legal_token_def example_gateway_def)
  ultimately obtain fs t md r where
    "run (system_step example_gateway sw example_worker_config) (system_start sw example_world)
       (RefreshToken 0 example_tick # fs) t"
    "wd_wire (sy_world t) = [(md, ActivateJobs r)]" "bearer_metadata example_gateway md"
    using worker_starts_once_token_arrives [of sw 0 example_world example_worker_config example_gateway
        "[]" "system_start sw example_world" example_tick example_refreshed "''tok''"] example_initial sw
    by (auto simp: example_worker_config_def example_world_def)
  then show ?thesis by blast
qed

end
