(* ===== verification/Worker_Requests.thy ===== *)
theory Worker_Requests
  imports Worker_Reports "HOL-Library.Sublist"
begin

text \<open>
  What the requests of a worker ask for, from the settings of its builder (\<open>src/worker/builder.rs\<close>)
  over the poller (\<open>src/worker/job_poller.rs\<close>) to the wire: only the number of jobs and the time of
  long polling change from request to request, each request goes out at most once and in the
  order in which the poller made them, and nothing else than reports goes out beside them.
\<close>

subsection \<open>What the poller keeps of the settings\<close>

definition same_settings :: "activate_jobs_request \<Rightarrow> activate_jobs_request \<Rightarrow> bool" where
  "same_settings r r' \<longleftrightarrow>
     ajr_type r' = ajr_type r \<and> ajr_worker r' = ajr_worker r \<and> ajr_timeout r' = ajr_timeout r \<and>
     ajr_fetch_variable r' = ajr_fetch_variable r"

definition settings_inv :: "activate_jobs_request \<Rightarrow> worker_state \<Rightarrow> bool" where
  "settings_inv r0 s \<longleftrightarrow>
     same_settings r0 (jp_request (ws_poller s)) \<and> (\<forall>r \<in> set (ws_requests s). same_settings r0 r)"

lemma activate_jobs_settings:
  assumes "activate_jobs p = Some (p', r)" "same_settings r0 (jp_request p)"
  shows "same_settings r0 r \<and> jp_request p' = r"
  using assms
  by (cases "get_long_polling_millis (jp_request_timeout p)")
    (auto simp: activate_jobs_def same_settings_def Let_def split: if_splits)

lemma on_message_settings:
  assumes "on_message p m = Some (p', spawned)" "same_settings r0 (jp_request p)"
  shows "same_settings r0 (jp_request p') \<and> (\<forall>r. spawned = Some r \<longrightarrow> same_settings r0 r)"
  using assms(1)
proof (cases rule: on_message_cases)
  case (activated r)
  with assms(2) activate_jobs_settings [of "p\<lparr>jp_request_in_progress := True\<rparr>" p' r r0] show ?thesis
    by auto
qed (use assms(2) in auto)

lemma settings_inv_receive:
  assumes "settings_inv r0 s" "receive m s = Some t"
  shows "settings_inv r0 t"
proof -
  obtain p spawned where m: "on_message (ws_poller s) m = Some (p, spawned)"
    and t: "ws_poller t = p"
      "ws_requests t = ws_requests s @ (case spawned of None \<Rightarrow> [] | Some r \<Rightarrow> [r])"
    using assms(2) by (auto simp: receive_eq_Some_iff)
  with assms(1) on_message_settings [OF m] show ?thesis
    by (cases spawned) (auto simp: settings_inv_def)
qed

lemma settings_inv_queue [simp]: "settings_inv r0 (s\<lparr>ws_poll_queue := q\<rparr>) = settings_inv r0 s"
  by (simp add: settings_inv_def)

lemma settings_inv_step: "settings_inv r0 s \<Longrightarrow> worker_step cfg s e t \<Longrightarrow> settings_inv r0 t"
proof (erule worker_step.cases)
  fix s' m ms t'
  assume "settings_inv r0 s" "s = s'" "t = t'" "receive m (s'\<lparr>ws_poll_queue := ms\<rparr>) = Some t'"
  then show "settings_inv r0 t"
    by (auto intro: settings_inv_receive [of r0 "s'\<lparr>ws_poll_queue := ms\<rparr>"])
qed (auto intro: settings_inv_receive, auto simp: settings_inv_def)

interpretation settings: inductive_invariant "\<lambda>s. \<exists>p. s = worker_start p \<and> same_settings r0 (jp_request p)"
    "worker_step cfg" "settings_inv r0" for r0 cfg
  by unfold_locales (auto simp: settings_inv_def [of r0 "worker_start p" for p], rule settings_inv_step)

subsection \<open>The running task performs the latest request\<close>

definition latest_inv :: "worker_state \<Rightarrow> bool" where
  "latest_inv s \<longleftrightarrow>
     request_inv s \<and> (\<forall>a \<in> set (ws_tasks s). \<exists>rs. ws_requests s = rs @ [at_request a])"

lemma latest_inv_task:
  assumes "latest_inv s" "task_at s i r phase"
  shows "\<exists>rs. ws_requests s = rs @ [r]"
  using assms by (auto simp: latest_inv_def task_at_def dest!: nth_mem)

lemma receive_latest:
  assumes "receive m s = Some t" "request_inv t"
    and "\<forall>a \<in> set (ws_tasks s). \<exists>rs. ws_requests s = rs @ [at_request a]"
  shows "\<forall>a \<in> set (ws_tasks t). \<exists>rs. ws_requests t = rs @ [at_request a]"
proof -
  obtain p spawned where t: "ws_tasks t = ws_tasks s @
        (case spawned of None \<Rightarrow> [] | Some r \<Rightarrow> [Activation r Calling])"
      "ws_requests t = ws_requests s @ (case spawned of None \<Rightarrow> [] | Some r \<Rightarrow> [r])"
    using assms(1) by (auto simp: receive_eq_Some_iff)
  have "length (ws_tasks t) \<le> 1"
    using assms(2) unfolding request_inv_def by (cases rule: request_shape.cases) auto
  with t assms(3) show ?thesis
    by (cases spawned; cases "ws_tasks s") auto
qed

lemma latest_inv_step:
  assumes "latest_inv s" "worker_step cfg s e t"
  shows "latest_inv t"
proof -
  note inv = request_inv_step [OF assms(1) [unfolded latest_inv_def, THEN conjunct1] assms(2)]
  have old: "\<forall>a \<in> set (ws_tasks s). \<exists>rs. ws_requests s = rs @ [at_request a]"
    using assms(1) by (simp add: latest_inv_def)
  have set_phase: "\<forall>a \<in> set (ws_tasks (set_phase i phase' u)). \<exists>rs. ws_requests s = rs @ [at_request a]"
    if "task_at s i r phase" "ws_tasks u = ws_tasks s" for i r phase phase' u
    using old that set_update_subset_insert [of "ws_tasks s" i "Activation r phase'"]
    by (auto simp: task_at_def set_phase_def dest!: subsetD)
      (metis activation.sel(1) nth_mem)
  from assms(2) have "\<forall>a \<in> set (ws_tasks t). \<exists>rs. ws_requests t = rs @ [at_request a]"
  proof cases
    case tick
    with receive_latest [OF tick(2) inv old] show ?thesis by simp
  next
    case (next_message m ms)
    with receive_latest [OF next_message(3) inv] old show ?thesis by simp
  next
    case (complete i r)
    with old show ?thesis by (auto dest: in_set_takeD in_set_dropD)
  qed (use old set_phase in auto)
  with inv show ?thesis by (simp add: latest_inv_def)
qed

interpretation latest: inductive_invariant worker_init "worker_step cfg" latest_inv for cfg
  by unfold_locales
    (simp add: latest_inv_def request_inv_def worker_init_simps, rule latest_inv_step)

subsection \<open>The requests on the wire\<close>

fun activations :: "wire list \<Rightarrow> activate_jobs_request list" where
  "activations [] = []"
| "activations ((md, ActivateJobs r) # ws) = r # activations ws"
| "activations ((md, _) # ws) = activations ws"

lemma activations_append [simp]: "activations (ws @ ws') = activations ws @ activations ws'"
  by (induction ws rule: activations.induct) simp_all

lemma activations_other [simp]: "job_key_of r = Some k \<Longrightarrow> activations ((md, r) # ws) = activations ws"
  by (cases r) simp_all

lemma set_activations: "(md, ActivateJobs r) \<in> set ws \<Longrightarrow> r \<in> set (activations ws)"
  by (induction ws rule: activations.induct) auto

text \<open>The requests whose call has been made, or given up.\<close>

definition called_requests :: "system \<Rightarrow> activate_jobs_request list" where
  "called_requests s =
     (if sy_call s = NotMade then butlast (ws_requests (sy_worker s)) else ws_requests (sy_worker s))"

text \<open>
  A request of the worker's own: one for jobs, or a report on a job, of which it may be known that its
  handler only makes reports of a kind \<open>Q\<close>.
\<close>

definition own_request :: "(grpc_request \<Rightarrow> bool) \<Rightarrow> grpc_request \<Rightarrow> bool" where
  "own_request Q m \<longleftrightarrow> (\<exists>r. m = ActivateJobs r) \<or> job_key_of m \<noteq> None \<and> Q m"

definition reports_are :: "(grpc_request \<Rightarrow> bool) \<Rightarrow> 'v started_worker \<Rightarrow> bool" where
  "reports_are Q sw \<longleftrightarrow>
     (\<forall>job w w' md r. dispatch_job (sw_handler sw) (sw_data sw) (sw_client sw) job w = (Ok (), w') \<longrightarrow>
        wd_wire w' = wd_wire w @ [(md, r)] \<longrightarrow> Q r)"

lemma reports_are_any [simp]: "reports_are (\<lambda>_. True) sw"
  by (simp add: reports_are_def)

definition wire_inv ::
    "(grpc_request \<Rightarrow> bool) \<Rightarrow> gateway \<Rightarrow> 'v started_worker \<Rightarrow> world \<Rightarrow> system \<Rightarrow> bool" where
  "wire_inv Q gw sw w0 s \<longleftrightarrow>
     latest_inv (sy_worker s) \<and> ready gw (sw_client sw) (sy_world s) \<and>
     (\<exists>sent. wd_wire (sy_world s) = wd_wire w0 @ sent \<and>
        subseq (activations sent) (called_requests s) \<and>
        (\<forall>(md, m) \<in> set sent. own_request Q m \<and> credentials gw (sw_client sw) md))"

lemma wire_invI:
  assumes "latest_inv (sy_worker t)" "ready gw (sw_client sw) (sy_world t)"
    and "wd_wire (sy_world s) = wd_wire w0 @ sent" "wd_wire (sy_world t) = wd_wire (sy_world s) @ new"
    and "subseq (activations (sent @ new)) (called_requests t)"
    and "\<forall>(md, m) \<in> set sent. own_request Q m \<and> credentials gw (sw_client sw) md"
      "\<forall>(md, m) \<in> set new. own_request Q m \<and> credentials gw (sw_client sw) md"
  shows "wire_inv Q gw sw w0 t"
  unfolding wire_inv_def using assms by (intro conjI exI [of _ "sent @ new"]) auto

lemma worker_step_requests:
  assumes "worker_step cfg s e t"
  shows "ws_requests t = ws_requests s \<or> (\<exists>r. ws_requests t = ws_requests s @ [r])"
  using assms by cases (auto simp: receive_eq_Some_iff split: option.splits)

lemma touches_world_requests:
  assumes "worker_step cfg s e t" "touches_world e"
  shows "ws_requests t = ws_requests s"
  using assms by cases auto

lemma subseq_butlast: "subseq xs (butlast ys) \<Longrightarrow> subseq xs ys"
  using prefix_imp_subseq [OF prefixeq_butlast] subseq_order.order_trans by blast

lemma called_requests_advance:
  assumes "worker_step cfg (sy_worker s) e u" "subseq xs (called_requests s)"
  shows "subseq xs (called_requests (s\<lparr>sy_worker := u,
    sy_call := (if ws_requests u = ws_requests (sy_worker s) then sy_call s else NotMade)\<rparr>))"
  using worker_step_requests [OF assms(1)] assms(2)
  by (auto simp: called_requests_def intro: subseq_butlast split: if_splits)

lemma subseq_set: "subseq xs ys \<Longrightarrow> x \<in> set xs \<Longrightarrow> x \<in> set ys"
  by (induction rule: list_emb.induct) auto

lemma wire_inv_step:
  assumes inv: "wire_inv Q gw sw w0 s" and step: "system_step gw sw cfg s e t"
    and reports: "reports_jobs gw sw" "reports_are Q sw" and legal: "legal_event gw (sw_client sw) e"
  shows "wire_inv Q gw sw w0 t"
proof -
  obtain sent where sent: "wd_wire (sy_world s) = wd_wire w0 @ sent"
      "subseq (activations sent) (called_requests s)"
      "\<forall>(md, m) \<in> set sent. own_request Q m \<and> credentials gw (sw_client sw) md"
    and auth: "ready gw (sw_client sw) (sy_world s)" and latest: "latest_inv (sy_worker s)"
    using inv unfolding wire_inv_def by blast
  note inv_t = wire_invI [OF _ _ sent(1) _ _ sent(3)]
  note quiet = inv_t [where new = "[]"]
  show ?thesis
    using step
  proof cases
    case (advance e' u)
    show ?thesis
      by (rule quiet)
        (use auth advance latest_inv_step [OF latest advance(3)]
          called_requests_advance [OF advance(3) sent(2)] in simp_all)
  next
    case (call i r)
    obtain rs where rs: "ws_requests (sy_worker s) = rs @ [r]"
      using latest_inv_task [OF latest call(3)] by blast
    show ?thesis
    proof (cases "call_metadata gw (sw_client sw) (sy_world s)")
      case (Inl st)
      show ?thesis
        by (rule quiet)
          (use auth call Inl latest sent(2) rs in \<open>auto simp: make_call_eq called_requests_def\<close>)
    next
      case (Inr md)
      then have "credentials gw (sw_client sw) md"
        using bears_token_credentials by (simp add: call_metadata_bears_token)
      then show ?thesis
        by (intro inv_t [where new = "[(md, ActivateJobs r)]"])
          (use auth call Inr latest sent(2) rs in
            \<open>simp_all add: make_call_eq called_requests_def own_request_def\<close>)
    qed
  next
    case (returned i u)
    show ?thesis
      by (rule quiet)
        (use auth returned latest_inv_step [OF latest returned(3)] sent(2)
          touches_world_requests [OF returned(3)] in \<open>simp_all add: called_requests_def\<close>)
  next
    case (failed i u)
    show ?thesis
      by (rule quiet)
        (use auth failed latest_inv_step [OF latest failed(3)] sent(2)
          touches_world_requests [OF failed(3)] in \<open>simp_all add: called_requests_def\<close>)
  next
    case (handled j u w)
    obtain md r where r: "w = (sy_world s)\<lparr>wd_wire := wd_wire (sy_world s) @ [(md, r)]\<rparr>"
        "job_key_of r = Some (aj_key j)" "credentials gw (sw_client sw) md"
      using reports(1) auth handled(4) unfolding reports_jobs_def by (metis job_key_new)
    have "wd_wire w = wd_wire (sy_world s) @ [(md, r)]"
      by (simp add: r)
    then have "Q r"
      using reports(2) handled(4) unfolding reports_are_def by blast
    with r show ?thesis
      by (intro inv_t [where new = "[(md, r)]"])
        (use auth handled r latest_inv_step [OF latest handled(3)] sent(2)
          touches_world_requests [OF handled(3)] in
            \<open>simp_all add: called_requests_def own_request_def split: if_splits\<close>)
  next
    case (token k a p)
    show ?thesis
      by (rule quiet)
        (use auth token legal latest sent(2) in
            \<open>simp_all add: ready_refresh called_requests_def split: if_splits\<close>)
  qed
qed

lemma wire_inv_start:
  "initial_poller (sw_poller sw) \<Longrightarrow> ready gw (sw_client sw) w0 \<Longrightarrow> wire_inv Q gw sw w0 (system_start sw w0)"
  by (simp add: wire_inv_def system_start_def latest_inv_def request_inv_def called_requests_def
      initial_poller_def)

interpretation wire: inductive_invariant
    "\<lambda>s. s = system_start sw w0 \<and> initial_poller (sw_poller sw) \<and> ready gw (sw_client sw) w0"
    "\<lambda>s e t. (reports_jobs gw sw \<and> reports_are Q sw \<and> legal_event gw (sw_client sw) e) \<and>
       system_step gw sw cfg s e t"
    "wire_inv Q gw sw w0" for Q gw sw cfg w0
  by unfold_locales (simp add: wire_inv_start, blast intro: wire_inv_step)

lemma reachable_wire_inv:
  assumes "run (system_step gw sw cfg) (system_start sw w) es s"
    and "initial_poller (sw_poller sw)" "ready gw (sw_client sw) w"
    and "reports_jobs gw sw" "reports_are Q sw"
    and "\<forall>e \<in> set es. legal_event gw (sw_client sw) e"
  shows "wire_inv Q gw sw w s"
  using wire.inv_reachable [OF _ run_restrict [OF assms(1), of "\<lambda>e. reports_jobs gw sw \<and>
      reports_are Q sw \<and> legal_event gw (sw_client sw) e"], of w] assms(2-6)
  by blast

lemma auto_worker_initial:
  assumes "configure ss (client_job_worker c) = Ok b" "channel_contract channel_ok"
    and "worker_run channel_ok (with_auto_handler hf gw xs handler b) = Ok sw"
  shows "initial_poller (sw_poller sw)"
proof -
  have "configure (ss @ [Handler (auto_handler_body hf gw xs handler)]) (client_job_worker c) =
      Ok (with_auto_handler hf gw xs handler b)"
    using assms(1) by (simp add: configure_append with_auto_handler_def)
  from started_worker_initial(1) [OF builder_ok_configure [OF builder_ok_new this] assms(2,3)]
  show ?thesis .
qed

lemma reachable_requests:
  assumes "run (system_step gw sw cfg) (system_start sw w) es s"
    and "initial_poller (sw_poller sw)" "ready gw (sw_client sw) w"
    and "reports_jobs gw sw" "reports_are Q sw"
    and "\<forall>e \<in> set es. legal_event gw (sw_client sw) e"
  obtains sent where "wd_wire (sy_world s) = wd_wire w @ sent"
    "subseq (activations sent) (ws_requests (sy_worker s))"
    "\<forall>(md, m) \<in> set sent. credentials gw (sw_client sw) md \<and>
       (job_key_of m \<noteq> None \<and> Q m \<or>
        (\<exists>r. m = ActivateJobs r \<and> same_settings (jp_request (sw_poller sw)) r \<and>
           1 \<le> sint (ajr_max_jobs_to_activate r) \<and>
           requested r \<le> unat (jp_max_jobs_active (sw_poller sw))))"
proof -
  obtain sent where sent: "wd_wire (sy_world s) = wd_wire w @ sent"
      "subseq (activations sent) (called_requests s)"
      "\<forall>(md, m) \<in> set sent. own_request Q m \<and> credentials gw (sw_client sw) md"
    using reachable_wire_inv [OF assms] unfolding wire_inv_def by blast
  obtain es' where reach: "run (worker_step cfg) (worker_start (sw_poller sw)) es' (sy_worker s)"
    using system_run_worker [OF assms(1)] by blast
  have made: "subseq (activations sent) (ws_requests (sy_worker s))"
    using sent(2) by (auto simp: called_requests_def intro: subseq_butlast split: if_splits)
  have settings: "settings_inv (jp_request (sw_poller sw)) (sy_worker s)"
    using settings.inv_reachable [OF _ reach] by (auto simp: same_settings_def)
  have asked: "same_settings (jp_request (sw_poller sw)) r \<and> 1 \<le> sint (ajr_max_jobs_to_activate r) \<and>
      requested r \<le> unat (jp_max_jobs_active (sw_poller sw))"
    if "(md, ActivateJobs r) \<in> set sent" for md r
  proof -
    have "r \<in> set (ws_requests (sy_worker s))"
      using subseq_set [OF made] set_activations [OF that] by blast
    with settings requests_within_limits [OF assms(2) reach] show ?thesis
      by (auto simp: settings_inv_def)
  qed
  show thesis
  proof (rule that [OF sent(1) made], clarify)
    fix md m
    assume m: "(md, m) \<in> set sent"
    then have "own_request Q m" "credentials gw (sw_client sw) md"
      using sent(3) by auto
    with asked [of md] m show "credentials gw (sw_client sw) md \<and>
       (job_key_of m \<noteq> None \<and> Q m \<or>
        (\<exists>r. m = ActivateJobs r \<and> same_settings (jp_request (sw_poller sw)) r \<and>
           1 \<le> sint (ajr_max_jobs_to_activate r) \<and>
           requested r \<le> unat (jp_max_jobs_active (sw_poller sw))))"
      by (auto simp: own_request_def)
  qed
qed

lemma reachable_reports:
  assumes "run (system_step gw sw cfg) (system_start sw w) es s" "ready gw (sw_client sw) w"
    and "reports_jobs gw sw" "\<forall>e \<in> set es. legal_event gw (sw_client sw) e"
    and "wd_wire (sy_world s) = wd_wire w @ sent"
  shows "mset (reported_keys sent) = mset (map aj_key (ws_reporting (sy_worker s))) +
    mset (map aj_key (ws_finished (sy_worker s)))"
proof -
  have "report_inv gw sw w s"
    using reports.inv_reachable [OF _ run_restrict [OF assms(1,4)], of w] assms(2,3) by blast
  with assms(5) show ?thesis
    by (auto simp: report_inv_def)
qed

lemma reported_keys_member:
  "(md, m) \<in> set ws \<Longrightarrow> job_key_of m = Some k \<Longrightarrow> k \<in> set (reported_keys ws)"
  by (induction ws rule: reported_keys.induct) (auto split: option.splits)

text \<open>The two reports an auto handler makes.\<close>

definition completes_or_fails :: "grpc_request \<Rightarrow> bool" where
  "completes_or_fails m \<longleftrightarrow> (\<exists>c. m = CompleteJob c) \<or> (\<exists>f. m = FailJob f \<and> fjr_retries f = 0)"

lemma auto_worker_reports_are:
  assumes "worker_run channel_ok (with_auto_handler hf gw xs handler b) = Ok sw" "keeps_world handler"
  shows "reports_are completes_or_fails sw"
  unfolding reports_are_def auto_worker(1) [OF assms(1)]
proof (intro allI impI)
  fix job w w' md r
  assume done_: "dispatch_job (auto_handler hf gw xs handler) (sw_data sw) (sw_client sw) job w = (Ok (), w')"
    and wire: "wd_wire w' = wd_wire w @ [(md, r)]"
  obtain q w1 where owed: "owed_report hf xs handler (job_client (sw_data sw) (sw_client sw) job) job w =
      (Ok q, w1)"
    using done_ by (auto simp: auto_handler_reports_once split: prod.splits outcome.splits)
  then have "w1 = w" "completes_or_fails q"
    using owed_report_keeps_world [OF assms(2) owed]
    by (auto simp: completes_or_fails_def elim: owed_report_cases)
  with owed done_ wire show "completes_or_fails r"
    by (auto simp: auto_handler_reports_once split: sum.splits)
qed

text \<open>
  C6: A worker asks for what was configured, in its user's name, and for nothing else: whatever settings
  a user has chained, in every reachable state of the worker with an auto handler that they make
  (whose function does not use the client itself, whose client can make calls, with an identity
  server that issues legal tokens), the requests that went out carry the client's credentials; each
  completes or fails (without retries) a job whose handler is done, or asks for jobs of the
  configured type under the configured worker name, with the configured job timeout and variables
  to fetch, at least one and at most the configured number; and those are the poller's requests in
  their order, none of them twice.
\<close>

theorem requests_as_configured:
  assumes "configure ss (client_job_worker c) = Ok b" "channel_contract channel_ok"
    and "worker_run channel_ok (with_auto_handler hf gw xs handler b) = Ok sw"
    and "keeps_world handler" "ready gw (sw_client sw) w"
    and "run (system_step gw sw cfg) (system_start sw w) es s"
    and "\<And>e. e \<in> set es \<Longrightarrow> legal_event gw (sw_client sw) e"
  shows "\<exists>sent. wd_wire (sy_world s) = wd_wire w @ sent \<and>
    subseq (activations sent) (ws_requests (sy_worker s)) \<and>
    (\<forall>(md, m) \<in> set sent. credentials gw (sw_client sw) md \<and>
       (completes_or_fails m \<and>
         (\<exists>j \<in> set (ws_reporting (sy_worker s)) \<union> set (ws_finished (sy_worker s)).
            job_key_of m = Some (aj_key j)) \<or>
        (\<exists>r. m = ActivateJobs r \<and> same_settings (jwb_request b) r \<and> 1 \<le> sint (ajr_max_jobs_to_activate r) \<and>
           requested r \<le> unat (i32_as_u32 (ajr_max_jobs_to_activate (jwb_request b))))))"
proof -
  have legal: "\<forall>e \<in> set es. legal_event gw (sw_client sw) e"
    using assms(7) by blast
  note reports = auto_worker_reports_jobs [OF assms(3,4)]
  obtain sent where sent: "wd_wire (sy_world s) = wd_wire w @ sent"
      "subseq (activations sent) (ws_requests (sy_worker s))"
      "\<forall>(md, m) \<in> set sent. credentials gw (sw_client sw) md \<and>
       (job_key_of m \<noteq> None \<and> completes_or_fails m \<or>
        (\<exists>r. m = ActivateJobs r \<and> same_settings (jp_request (sw_poller sw)) r \<and>
           1 \<le> sint (ajr_max_jobs_to_activate r) \<and>
           requested r \<le> unat (jp_max_jobs_active (sw_poller sw))))"
    by (rule reachable_requests [OF assms(6) auto_worker_initial [OF assms(1-3)] assms(5)
          reports auto_worker_reports_are [OF assms(3,4)] legal])
  have keys: "set (reported_keys sent) =
      aj_key ` (set (ws_reporting (sy_worker s)) \<union> set (ws_finished (sy_worker s)))"
    using arg_cong [OF reachable_reports [OF assms(6,5) reports legal sent(1)], of set_mset] by auto
  have done_: "\<exists>j \<in> set (ws_reporting (sy_worker s)) \<union> set (ws_finished (sy_worker s)).
      job_key_of m = Some (aj_key j)" if "(md, m) \<in> set sent" "job_key_of m \<noteq> None" for md m
    using reported_keys_member [OF that(1)] that(2) unfolding keys by auto
  show ?thesis
    by (intro exI [of _ sent] conjI sent(1,2))
      (use sent(3) done_ in \<open>fastforce simp: auto_worker(2,3) [OF assms(3)]\<close>)
qed

theorem requests_as_configured_witness:
  "\<exists>(sw :: nat started_worker) s. run (system_step example_gateway sw example_worker_config)
      (system_start sw (example_authenticated_world\<lparr>wd_wire := []\<rparr>)) example_system_events s \<and>
    (\<forall>(md, m) \<in> set (wd_wire (sy_world s)). job_key_of m \<noteq> None \<or>
       (\<exists>r. m = ActivateJobs r \<and> ajr_type r = ''payment-service'' \<and> ajr_worker r = ''default''))"
proof -
  obtain sw :: "nat started_worker" where sw: "worker_run example_channel_ok example_auto_builder = Ok sw"
      "sw_client sw = example_client" "sw_poller sw = example_poller"
      "sw_handler sw =
         auto_handler example_formats example_gateway [FromJobItself] example_user_handler"
    by (rule example_auto_started)
  obtain s where s: "run (system_step example_gateway sw example_worker_config)
      (system_start sw (example_authenticated_world\<lparr>wd_wire := []\<rparr>)) example_system_events s"
    using example_system_run [OF sw(2-4)] by blast
  have b: "configure [JobType ''payment-service''] (client_job_worker example_client) =
      Ok (with_job_type ''payment-service'' (client_job_worker example_client))"
    by simp
  have "keeps_world example_user_handler"
    by (simp add: keeps_world_def example_user_handler_def)
  moreover have "ready example_gateway (sw_client sw) (example_authenticated_world\<lparr>wd_wire := []\<rparr>)"
    by (simp add: ready_def sw example_usable)
  moreover have "legal_event example_gateway (sw_client sw) e" if "e \<in> set example_system_events" for e
    using that by (auto simp: example_system_events_def)
  ultimately show ?thesis
    using requests_as_configured [OF b example_channel_contract(1)
        sw(1) [unfolded example_auto_builder_def] _ _ s] s
    by (intro exI [of _ sw] exI [of _ s])
      (fastforce simp: same_settings_def with_job_type_def client_job_worker_def
        job_worker_builder_new_def)
qed

end
