(* ===== verification/Shared_State.thy ===== *)
theory Shared_State
  imports Job_Worker
begin

text \<open>
  The two wrappers a handler's parameters come in: \<open>Data<T>\<close>, the deserialized variables
  (\<open>src/worker/auto_handler/extractor/data.rs\<close>), and \<open>State<T>\<close>, a pointer to a value that all jobs
  of a worker share (\<open>state.rs\<close>). The values that states point to are in a heap, so that what one
  job writes through its pointer (a \<open>Cell\<close> or a lock inside \<open>T\<close>) is what the next one reads.
\<close>

subsection \<open>Data\<close>

datatype 'd data = Data (data_value: 'd)

definition data_into_inner :: "'d data \<Rightarrow> 'd" where
  "data_into_inner d = data_value d"

definition data_deref :: "'d data \<Rightarrow> 'd" where
  "data_deref d = data_value d"

text \<open>A mutable reference is what a function may change it to.\<close>

definition data_deref_mut :: "('d \<Rightarrow> 'd) \<Rightarrow> 'd data \<Rightarrow> 'd data" where
  "data_deref_mut f d = Data (f (data_value d))"

definition data_debug :: "('d \<Rightarrow> string) \<Rightarrow> 'd data \<Rightarrow> string" where
  "data_debug fmt d = ''Json: '' @ fmt (data_value d)"

definition data_display :: "('d \<Rightarrow> string) \<Rightarrow> 'd data \<Rightarrow> string" where
  "data_display fmt d = fmt (data_value d)"

subsection \<open>State\<close>

text \<open>
  \<open>Arc::new\<close> allocates; an \<open>Arc\<close> is the address, and cloning it copies the address. An allocation
  lives as long as something points to it, so reference counts are not observable.
\<close>

record 'x heap =
  hp_next :: nat
  hp_cells :: "nat \<rightharpoonup> 'x"

definition arc_new :: "'x \<Rightarrow> 'x heap \<Rightarrow> nat \<times> 'x heap" where
  "arc_new x h = (hp_next h, \<lparr>hp_next = Suc (hp_next h), hp_cells = (hp_cells h)(hp_next h \<mapsto> x)\<rparr>)"

datatype 'x shared_state = State (state_arc: nat)

definition state_new :: "'x \<Rightarrow> 'x heap \<Rightarrow> 'x shared_state \<times> 'x heap" where
  "state_new x h = (let (a, h') = arc_new x h in (State a, h'))"

definition state_get_ref :: "'x shared_state \<Rightarrow> 'x heap \<Rightarrow> 'x option" where
  "state_get_ref s h = hp_cells h (state_arc s)"

definition state_into_inner :: "'x shared_state \<Rightarrow> nat" where
  "state_into_inner s = state_arc s"

definition state_deref :: "'x shared_state \<Rightarrow> nat" where
  "state_deref s = state_arc s"

definition state_clone :: "'x shared_state \<Rightarrow> 'x shared_state" where
  "state_clone s = State (state_arc s)"

definition state_from_arc :: "nat \<Rightarrow> 'x shared_state" where
  "state_from_arc a = State a"

definition state_debug :: "('x \<Rightarrow> string) \<Rightarrow> 'x shared_state \<Rightarrow> 'x heap \<Rightarrow> string option" where
  "state_debug fmt s h = map_option (\<lambda>x. ''State: '' @ fmt x) (state_get_ref s h)"

definition state_display :: "('x \<Rightarrow> string) \<Rightarrow> 'x shared_state \<Rightarrow> 'x heap \<Rightarrow> string option" where
  "state_display fmt s h = map_option fmt (state_get_ref s h)"

text \<open>What the user's type does to itself through a shared reference.\<close>

definition state_update :: "('x \<Rightarrow> 'x) \<Rightarrow> 'x shared_state \<Rightarrow> 'x heap \<Rightarrow> 'x heap" where
  "state_update f s h =
     h\<lparr>hp_cells := (hp_cells h)(state_arc s := map_option f (hp_cells h (state_arc s)))\<rparr>"

lemma state_clone_id [simp]: "state_clone s = s"
  by (simp add: state_clone_def)

lemma state_get_ref_update [simp]:
  "state_get_ref s' (state_update f s h) =
     (if s' = s then map_option f (state_get_ref s h) else state_get_ref s' h)"
  by (cases s; cases s') (simp add: state_get_ref_def state_update_def)

subsection \<open>Configuring and using states\<close>

text \<open>The states that a chain of settings registers, the first call first.\<close>

fun registered_states :: "'v setting list \<Rightarrow> (type_id \<times> 'v) list" where
  "registered_states [] = []"
| "registered_states (SharedState t v # ss) = (StateOf t, v) # registered_states ss"
| "registered_states (_ # ss) = registered_states ss"

lemma configure_data:
  "configure ss b = Ok b' \<Longrightarrow> jwb_data b' = ext.insert_all (registered_states ss) (jwb_data b)"
proof (induction ss arbitrary: b)
  case (Cons s ss)
  then obtain b1 where b1: "apply_setting s b = Ok b1" "configure ss b1 = Ok b'"
    by (auto simp: bind_outcome_eq_Ok_iff)
  have "ext.insert_all (registered_states (s # ss)) (jwb_data b) =
      ext.insert_all (registered_states ss) (jwb_data b1)"
  proof (cases s)
    case (RequestTimeout d)
    with b1(1) show ?thesis
      by (cases "duration_add d REQUEST_TIMEOUT_OFFSET") (auto simp: with_request_timeout_def)
  qed (use b1(1) in \<open>auto simp: setting_defs\<close>)
  with Cons.IH [OF b1(2)] show ?case by simp
qed simp

text \<open>\<open>JobWorkerBuilder::with_state\<close>, which allocates the state it is given.\<close>

definition with_new_state ::
    "type_id \<Rightarrow> 'x \<Rightarrow> 'x shared_state job_worker_builder \<Rightarrow> 'x heap
      \<Rightarrow> 'x shared_state job_worker_builder \<times> 'x heap" where
  "with_new_state t x b h = (let (s, h') = state_new x h in (with_state t s b, h'))"

fun with_new_states ::
    "(type_id \<times> 'x) list \<Rightarrow> 'x shared_state job_worker_builder \<Rightarrow> 'x heap
      \<Rightarrow> 'x shared_state job_worker_builder \<times> 'x heap" where
  "with_new_states [] b h = (b, h)"
| "with_new_states ((t, x) # txs) b h =
     (let (b', h') = with_new_state t x b h in with_new_states txs b' h')"

text \<open>
  A job whose handler takes a \<open>State<T>\<close>: the state it is handed, what it reads there, and the heap
  after it has updated it.
\<close>

definition state_of_job ::
    "'x shared_state extensions \<Rightarrow> 'x shared_state client \<Rightarrow> job \<Rightarrow> type_id \<Rightarrow> 'x shared_state option"
where
  "state_of_job ext c job t =
     (case from_job (job_client ext c job) job (FromState t :: unit extractor) of
        Ok (ExtractedState s) \<Rightarrow> Some (state_clone s)
      | _ \<Rightarrow> None)"

definition job_reads ::
    "'x shared_state extensions \<Rightarrow> 'x shared_state client \<Rightarrow> type_id \<Rightarrow> job \<Rightarrow> 'x heap \<Rightarrow> 'x option" where
  "job_reads ext c t job h = Option.bind (state_of_job ext c job t) (\<lambda>s. state_get_ref s h)"

datatype 'x state_use = StateUse (use_type: type_id) (use_job: job) (use_update: "'x \<Rightarrow> 'x")

definition job_updates ::
    "'x shared_state extensions \<Rightarrow> 'x shared_state client \<Rightarrow> 'x state_use \<Rightarrow> 'x heap \<Rightarrow> 'x heap" where
  "job_updates ext c u h =
     (case state_of_job ext c (use_job u) (use_type u) of
        Some s \<Rightarrow> state_update (use_update u) s h
      | None \<Rightarrow> h)"

definition jobs_update ::
    "'x shared_state extensions \<Rightarrow> 'x shared_state client \<Rightarrow> 'x state_use list \<Rightarrow> 'x heap \<Rightarrow> 'x heap" where
  "jobs_update ext c us h = fold (job_updates ext c) us h"

lemma state_of_job_eq: "state_of_job ext c job t = ext_get (StateOf t) ext"
  by (simp add: state_of_job_def split: option.splits)

subsection \<open>Every type has its own live allocation\<close>

definition states_ok :: "'x shared_state extensions \<Rightarrow> 'x heap \<Rightarrow> bool" where
  "states_ok ext h \<longleftrightarrow>
     (\<forall>t s. ext_get (StateOf t) ext = Some s \<longrightarrow> state_arc s < hp_next h \<and> state_get_ref s h \<noteq> None) \<and>
     (\<forall>t u s. ext_get (StateOf t) ext = Some s \<longrightarrow> ext_get (StateOf u) ext = Some s \<longrightarrow> t = u)"

lemma states_okD:
  assumes "states_ok ext h" "ext_get (StateOf t) ext = Some s"
  shows "state_arc s < hp_next h" "\<exists>x. state_get_ref s h = Some x"
    "ext_get (StateOf u) ext = Some s \<Longrightarrow> t = u"
  using assms unfolding states_ok_def by blast+

lemma states_ok_new [simp]: "states_ok ext_new h"
  by (simp add: states_ok_def ext.get_empty)

lemma ext_get_with_new_state:
  assumes "with_new_state t x b h = (b', h')"
  shows "ext_get (StateOf u) (jwb_data b') =
      (if u = t then Some (State (hp_next h)) else ext_get (StateOf u) (jwb_data b))"
    and "hp_next h' = Suc (hp_next h)"
    and "state_get_ref s h' = (if state_arc s = hp_next h then Some x else state_get_ref s h)"
  using assms
  by (auto simp: with_new_state_def state_new_def arc_new_def with_state_def ext.get_insert
      state_get_ref_def)

lemma states_ok_with_new_state:
  assumes "with_new_state t x b h = (b', h')" "states_ok (jwb_data b) h"
  shows "states_ok (jwb_data b') h'"
proof -
  note new = ext_get_with_new_state [OF assms(1)] and old = states_okD [OF assms(2)]
  have fresh: "ext_get (StateOf u) (jwb_data b) \<noteq> Some (State (hp_next h))" for u
    using old(1) by fastforce
  have "state_arc s < hp_next h' \<and> state_get_ref s h' \<noteq> None"
    if "ext_get (StateOf u) (jwb_data b') = Some s" for u s
    using that old(1,2) by (auto simp: new split: if_splits) fastforce+
  moreover have "u = v"
    if "ext_get (StateOf u) (jwb_data b') = Some s" "ext_get (StateOf v) (jwb_data b') = Some s" for u v s
    using that old(3) fresh by (auto simp: new split: if_splits)
  ultimately show ?thesis by (simp add: states_ok_def)
qed

lemma states_ok_with_new_states:
  "with_new_states txs b h = (b', h') \<Longrightarrow> states_ok (jwb_data b) h \<Longrightarrow> states_ok (jwb_data b') h'"
proof (induction txs b h rule: with_new_states.induct)
  case (2 u x txs b h)
  obtain b1 h1 where new: "with_new_state u x b h = (b1, h1)"
    by (cases "with_new_state u x b h")
  from 2(1) [OF new [symmetric] refl _ states_ok_with_new_state [OF new 2(3)]] 2(2) new
  show ?case by simp
qed simp

subsection \<open>What a state holds\<close>

definition state_value :: "'x shared_state extensions \<Rightarrow> 'x heap \<Rightarrow> type_id \<Rightarrow> 'x option" where
  "state_value ext h t = Option.bind (ext_get (StateOf t) ext) (\<lambda>s. state_get_ref s h)"

lemma job_reads_eq: "job_reads ext c t job h = state_value ext h t"
  by (simp add: job_reads_def state_of_job_eq state_value_def)

lemma state_value_with_new_state:
  assumes "with_new_state u x b h = (b', h')" "states_ok (jwb_data b) h"
  shows "state_value (jwb_data b') h' t = (if t = u then Some x else state_value (jwb_data b) h t)"
proof -
  have "state_arc s \<noteq> hp_next h" if "ext_get (StateOf t) (jwb_data b) = Some s" for s
    using states_okD(1) [OF assms(2) that] by simp
  then show ?thesis
    by (cases "ext_get (StateOf t) (jwb_data b)")
      (auto simp: state_value_def ext_get_with_new_state [OF assms(1)])
qed

lemma state_value_with_new_states:
  "with_new_states txs b h = (b', h') \<Longrightarrow> states_ok (jwb_data b) h \<Longrightarrow>
   state_value (jwb_data b') h' t =
     (case map_of (rev txs) t of Some x \<Rightarrow> Some x | None \<Rightarrow> state_value (jwb_data b) h t)"
proof (induction txs b h rule: with_new_states.induct)
  case (2 u x txs b h)
  obtain b1 h1 where new: "with_new_state u x b h = (b1, h1)"
    by (cases "with_new_state u x b h")
  with 2(2) have rest: "with_new_states txs b1 h1 = (b', h')" by simp
  have "states_ok (jwb_data b1) h1"
    by (rule states_ok_with_new_state [OF new 2(3)])
  from 2(1) [OF new [symmetric] refl rest this] show ?case
    by (auto simp: state_value_with_new_state [OF new 2(3)] map_add_def split: option.splits)
qed simp

lemma job_updates_eq:
  "job_updates ext c u h =
     (case ext_get (StateOf (use_type u)) ext of
        Some s \<Rightarrow> state_update (use_update u) s h
      | None \<Rightarrow> h)"
  by (simp add: job_updates_def state_of_job_eq)

lemma states_ok_job_updates: "states_ok ext h \<Longrightarrow> states_ok ext (job_updates ext c u h)"
  by (auto simp: states_ok_def job_updates_eq state_update_def state_get_ref_def split: option.splits)

lemma state_value_job_updates:
  assumes "states_ok ext h"
  shows "state_value ext (job_updates ext c u h) t =
    (if use_type u = t then map_option (use_update u) (state_value ext h t)
     else state_value ext h t)"
proof (cases "ext_get (StateOf (use_type u)) ext")
  case (Some s)
  have "s' \<noteq> s" if "ext_get (StateOf t) ext = Some s'" "use_type u \<noteq> t" for s'
    using states_okD(3) [OF assms Some] that by auto
  with Some show ?thesis
    by (cases "ext_get (StateOf t) ext") (auto simp: state_value_def job_updates_eq)
qed (auto simp: state_value_def job_updates_eq)

lemma state_value_jobs_update:
  "states_ok ext h \<Longrightarrow>
   states_ok ext (jobs_update ext c us h) \<and>
   state_value ext (jobs_update ext c us h) t =
     map_option (fold use_update (filter (\<lambda>u. use_type u = t) us)) (state_value ext h t)"
proof (induction us arbitrary: h)
  case (Cons u us)
  have ok: "states_ok ext (job_updates ext c u h)"
    by (rule states_ok_job_updates [OF Cons.prems])
  from Cons.IH [OF this] show ?case
    by (simp add: jobs_update_def state_value_job_updates [OF Cons.prems] option.map_comp comp_def)
qed (simp add: jobs_update_def option.map_id0 option.map_ident)

lemma configured_states:
  assumes "with_new_states txs (client_job_worker c) h = (b, h')"
    and "configure ss b = Ok b'" "registered_states ss = []" "worker_run channel_ok b' = Ok sw"
  shows "states_ok (sw_data sw) h'" "state_value (sw_data sw) h' t = map_of (rev txs) t"
proof -
  have data: "sw_data sw = jwb_data b"
    using configure_data [OF assms(2)] assms(3,4) by (auto simp: worker_run_eq_Ok_iff)
  have new: "jwb_data (client_job_worker c) = ext_new"
    by (simp add: client_job_worker_def job_worker_builder_new_def)
  show "states_ok (sw_data sw) h'"
    using states_ok_with_new_states [OF assms(1)] by (simp add: new data)
  have "state_value ext_new h t = None"
    by (simp add: state_value_def ext.get_empty)
  then show "state_value (sw_data sw) h' t = map_of (rev txs) t"
    using state_value_with_new_states [OF assms(1), of t]
    by (cases "map_of (rev txs) t") (simp_all add: new data)
qed

subsection \<open>The properties\<close>

text \<open>
  C36: State persists across the jobs of a worker: when a worker is configured with states (the last
  one per type counts), a job whose handler takes the \<open>State<T>\<close> reads there the configured value
  with the updates that the handlers of all earlier jobs have made to their \<open>State<T>\<close>, each once and in
  order, and no others: neither those to states of other types nor to a state that a later one
  of the same type has replaced. Without a state for \<open>T\<close> it reads nothing.
\<close>

theorem state_persists_across_jobs:
  assumes "with_new_states txs (client_job_worker c) h = (b, h')"
    and "configure ss b = Ok b'" "registered_states ss = []" "worker_run channel_ok b' = Ok sw"
  shows "job_reads (sw_data sw) (sw_client sw) t job
      (jobs_update (sw_data sw) (sw_client sw) us h') =
    map_option (fold use_update (filter (\<lambda>u. use_type u = t) us)) (map_of (rev txs) t)"
  using state_value_jobs_update [OF configured_states(1) [OF assms]]
    configured_states(2) [OF assms]
  by (simp add: job_reads_eq)

text \<open>
  C37: A \<open>State<T>\<close> parameter is resolved by its type alone: for every chain of settings that starts a
  worker, whatever other settings and states it has, every value in the started worker's store is
  boxed at the type it is stored under, so that the downcast of a lookup never fails; and a
  handler's \<open>State<T>\<close> is what the last \<open>with_state\<close> for this very \<open>T\<close> was given, whatever was given
  for other types before or after, or else the parameter cannot be extracted and the error says that
  the state is missing.
\<close>

theorem states_resolved_by_type:
  assumes "configure ss (client_job_worker c) = Ok b" "worker_run channel_ok b = Ok sw"
  shows "(\<forall>u box. sw_data sw u = Some box \<longrightarrow> downcast_ref u box = Some (boxed_value box)) \<and>
    from_job (job_client (sw_data sw) (sw_client sw) job) job (FromState t :: 'd extractor) =
      (case map_of (rev (registered_states ss)) (StateOf t) of
         Some v \<Rightarrow> Ok (ExtractedState v)
       | None \<Rightarrow> Err MissingWorkerStateConfig)"
proof -
  have data: "sw_data sw = ext.insert_all (registered_states ss) ext_new"
    using configure_data [OF assms(1)] assms(2)
    by (auto simp: worker_run_eq_Ok_iff client_job_worker_def job_worker_builder_new_def)
  have "ext_well_typed (sw_data sw)"
    unfolding data by (rule ext.invar_insert_all [OF ext.invar_empty])
  moreover note state_extraction [of "registered_states ss" "sw_client sw" job t, folded data]
  ultimately show ?thesis
    by (simp add: ext_well_typed_def downcast_ref_def)
qed

theorem states_resolved_by_type_witness:
  "\<exists>sw :: nat started_worker.
     from_job (job_client (sw_data sw) (sw_client sw) (example_job_with [])) (example_job_with [])
       (FromState (TypeName ''Counter'') :: string extractor) = Ok (ExtractedState 0) \<and>
     from_job (job_client (sw_data sw) (sw_client sw) (example_job_with [])) (example_job_with [])
       (FromState (TypeName ''Queue'') :: string extractor) = Err MissingWorkerStateConfig"
proof -
  let ?ss = "[SharedState (TypeName ''Counter'') 9, JobType ''payment-service'',
    SharedState (TypeName ''Limit'') 5, Handler example_handler, SharedState (TypeName ''Counter'') 0]"
  obtain b where b: "configure ?ss (client_job_worker example_client) = Ok b"
      "jwb_handler b \<noteq> None" "ajr_type (jwb_request b) = ''payment-service''"
      "ajr_max_jobs_to_activate (jwb_request b) = 32"
    by (simp add: with_state_def with_job_type_def with_handler_def client_job_worker_def
        job_worker_builder_new_def DEFAULT_JOB_WORKER_MAX_JOB_ACTIVE_def u32_as_i32_def)
  have "example_channel_ok (unat (i32_as_usize 32))" "example_channel_ok POLL_QUEUE_CAPACITY"
    by (simp_all add: example_channel_ok_def i32_as_usize_def POLL_QUEUE_CAPACITY_def)
  with b(2-4) obtain sw where sw: "worker_run example_channel_ok b = Ok sw"
    by (auto simp: worker_run_eq_Ok_iff)
  show ?thesis
    using states_resolved_by_type [where 'd = string, OF b(1) sw, of "example_job_with []" "TypeName ''Counter''"]
      states_resolved_by_type [where 'd = string, OF b(1) sw, of "example_job_with []" "TypeName ''Queue''"]
    by (intro exI [of _ sw]) simp
qed

text \<open>A worker with a counter and a limit; two jobs count, one raises the limit.\<close>

definition example_states :: "(type_id \<times> nat) list" where
  "example_states =
     [(TypeName ''Counter'', 9), (TypeName ''Limit'', 5), (TypeName ''Counter'', 0)]"

definition example_state_client :: "nat shared_state client" where
  "example_state_client = client_of_interceptor (BalanceList []) auth_interceptor_default"

definition example_uses :: "nat state_use list" where
  "example_uses =
     [StateUse (TypeName ''Counter'') (example_job_with []) Suc,
      StateUse (TypeName ''Limit'') (example_job_with []) ((*) 2),
      StateUse (TypeName ''Counter'') (example_job_with []) ((+) 2)]"

lemma example_states_started:
  obtains b h b' sw where
    "with_new_states example_states (client_job_worker example_state_client)
       \<lparr>hp_next = 0, hp_cells = Map.empty\<rparr> = (b, h)"
    "configure [JobType ''payment'', Handler (\<lambda>c j w. (Ok (), w))] b = Ok b'"
    "worker_run example_channel_ok b' = Ok sw"
proof -
  obtain b h where b: "with_new_states example_states (client_job_worker example_state_client)
      \<lparr>hp_next = 0, hp_cells = Map.empty\<rparr> = (b, h)"
    by (cases "with_new_states example_states (client_job_worker example_state_client)
      \<lparr>hp_next = 0, hp_cells = Map.empty\<rparr>")
  then have "jwb_request b = jwb_request (client_job_worker example_state_client)"
    by (auto simp: example_states_def with_new_state_def state_new_def arc_new_def with_state_def)
  then have m: "ajr_max_jobs_to_activate (jwb_request b) = 32"
    by (simp add: client_job_worker_def job_worker_builder_new_def
        DEFAULT_JOB_WORKER_MAX_JOB_ACTIVE_def u32_as_i32_def)
  let ?b = "with_handler (\<lambda>c j w. (Ok (), w)) (with_job_type ''payment'' b)"
  have "example_channel_ok (unat (i32_as_usize 32))" "example_channel_ok POLL_QUEUE_CAPACITY"
    by (simp_all add: example_channel_ok_def i32_as_usize_def POLL_QUEUE_CAPACITY_def)
  then have "\<exists>sw. worker_run example_channel_ok ?b = Ok sw"
    by (simp add: worker_run_eq_Ok_iff with_handler_def with_job_type_def m)
  with b show thesis
    using that [of b h ?b] by auto
qed

theorem state_persists_across_jobs_witness:
  "\<exists>(sw :: nat shared_state started_worker) h.
     job_reads (sw_data sw) (sw_client sw) (TypeName ''Counter'') (example_job_with [])
       (jobs_update (sw_data sw) (sw_client sw) example_uses h) = Some 3"
proof -
  obtain b h b' and sw :: "nat shared_state started_worker" where
    "with_new_states example_states (client_job_worker example_state_client)
       \<lparr>hp_next = 0, hp_cells = Map.empty\<rparr> = (b, h)"
    "configure [JobType ''payment'', Handler (\<lambda>c j w. (Ok (), w))] b = Ok b'"
    "worker_run example_channel_ok b' = Ok sw"
    by (rule example_states_started)
  from state_persists_across_jobs [OF this(1,2) _ this(3), of "TypeName ''Counter''"
      "example_job_with []" example_uses]
  show ?thesis
    by (intro exI [of _ sw] exI [of _ h]) (simp add: example_states_def example_uses_def)
qed

end
