(* ===== verification/Shared_Handlers.thy ===== *)
theory Shared_Handlers
  imports Worker_Requests Shared_State
begin

text \<open>
  A running worker whose handlers share state (\<open>src/worker/auto_handler/extractor/state.rs\<close>,
  \<open>src/worker/job_dispatcher.rs\<close>). The closure that \<open>with_auto_handler\<close> makes reads the heap of the
  moment it is called. A user's function that awaits nothing between reading and writing runs in one
  poll of its future, so although jobs are handled concurrently, what they do to the shared state is
  that of one job after another. The locale \<open>atomic_handler\<close> says so for every handler that
  implements a sequential machine.
\<close>

subsection \<open>The system with a heap\<close>

fun handles :: "system_event \<Rightarrow> bool" where
  "handles (Work (HandlerDone j)) = True"
| "handles _ = False"

inductive shared_step ::
    "('h \<Rightarrow> 'v job_handler) \<Rightarrow> ('h \<Rightarrow> job \<Rightarrow> 'h) \<Rightarrow> gateway \<Rightarrow> 'v started_worker \<Rightarrow> worker_config
      \<Rightarrow> system \<times> 'h \<Rightarrow> system_event \<Rightarrow> system \<times> 'h \<Rightarrow> bool"
  for handler_at effect and gw :: gateway and sw :: "'v started_worker" and cfg :: worker_config where
  other: "system_step gw sw cfg s e t \<Longrightarrow> \<not> handles e \<Longrightarrow>
    shared_step handler_at effect gw sw cfg (s, h) e (t, h)"
| handled: "system_step gw (sw\<lparr>sw_handler := handler_at h\<rparr>) cfg s (Work (HandlerDone j)) t \<Longrightarrow>
    shared_step handler_at effect gw sw cfg (s, h) (Work (HandlerDone j)) (t, effect h (job_new j))"

inductive_simps shared_step_simps:
  "shared_step handler_at effect gw sw cfg (s, h) (Work e) x"
  "shared_step handler_at effect gw sw cfg (s, h) (MakeCall i) x"

inductive_cases shared_stepE: "shared_step handler_at effect gw sw cfg (s, h) e x"

text \<open>The jobs whose handlers have run in these events, in their order.\<close>

fun jobs_done :: "system_event list \<Rightarrow> activated_job list" where
  "jobs_done [] = []"
| "jobs_done (Work (HandlerDone j) # es) = j # jobs_done es"
| "jobs_done (_ # es) = jobs_done es"

lemma jobs_done_Cons: "jobs_done (e # es) = (case e of Work (HandlerDone j) \<Rightarrow> j # jobs_done es | _ \<Rightarrow> jobs_done es)"
  by (cases e; simp) (auto split: worker_event.splits)

lemma jobs_done_append: "jobs_done (es @ es') = jobs_done es @ jobs_done es'"
  by (induction es rule: jobs_done.induct) simp_all

text \<open>The reports on jobs among these requests.\<close>

definition reports_on_jobs :: "wire list \<Rightarrow> grpc_request list" where
  "reports_on_jobs ws = filter (\<lambda>r. job_key_of r \<noteq> None) (map snd ws)"

lemma reports_on_jobs_simps [simp]:
  "reports_on_jobs [] = []"
  "reports_on_jobs (ws @ ws') = reports_on_jobs ws @ reports_on_jobs ws'"
  "reports_on_jobs ((md, r) # ws) = (if job_key_of r = None then reports_on_jobs ws else r # reports_on_jobs ws)"
  by (simp_all add: reports_on_jobs_def)

text \<open>A step in which no handler is done makes at most requests for jobs.\<close>

lemma system_step_requests:
  assumes "system_step gw sw cfg s e t" "\<not> handles e" "ready gw (sw_client sw) (sy_world s)"
    and "legal_event gw (sw_client sw) e"
  shows "ready gw (sw_client sw) (sy_world t) \<and>
    (\<exists>new. wd_wire (sy_world t) = wd_wire (sy_world s) @ new \<and>
       (\<forall>(md, m) \<in> set new. (\<exists>r. m = ActivateJobs r) \<and> credentials gw (sw_client sw) md))"
  using assms(1)
proof cases
  case (call i r)
  show ?thesis
  proof (cases "call_metadata gw (sw_client sw) (sy_world s)")
    case (Inl st)
    with assms(3) call show ?thesis by (simp add: make_call_eq)
  next
    case (Inr md)
    then have "credentials gw (sw_client sw) md"
      using bears_token_credentials by (simp add: call_metadata_bears_token)
    with Inr show ?thesis
      by (intro conjI exI [of _ "[(md, ActivateJobs r)]"]) (use assms(3) call in \<open>simp_all add: make_call_eq\<close>)
  qed
next
  case (token k a p)
  with ready_refresh [OF assms(3) token(3)] assms(4) show ?thesis by simp
qed (use assms(2,3) in simp_all)

lemma no_reports_on_jobs:
  "\<forall>(md, m) \<in> set ws. (\<exists>r. m = ActivateJobs r) \<and> P md \<Longrightarrow> reports_on_jobs ws = []"
  by (induction ws) auto

lemma system_step_quiet:
  assumes "system_step gw sw cfg s e t" "\<not> handles e" "ready gw (sw_client sw) (sy_world s)"
    and "legal_event gw (sw_client sw) e"
  shows "ready gw (sw_client sw) (sy_world t) \<and>
    (\<exists>new. wd_wire (sy_world t) = wd_wire (sy_world s) @ new \<and> reports_on_jobs new = [])"
  using system_step_requests [OF assms] no_reports_on_jobs by blast

lemma system_step_done:
  assumes "system_step gw sw cfg s e t"
  shows "mset (ws_reporting (sy_worker t)) + mset (ws_finished (sy_worker t)) =
    mset (ws_reporting (sy_worker s)) + mset (ws_finished (sy_worker s)) + mset (jobs_done [e])"
  using assms
proof cases
  case (advance e' u)
  with worker_step_reported [OF advance(3)] show ?thesis by (cases e') simp_all
next
  case (returned i u)
  with worker_step_reported [OF returned(3)] show ?thesis by simp
next
  case (failed i u)
  with worker_step_reported [OF failed(3)] show ?thesis by simp
next
  case (handled j u w)
  with worker_step_reported [OF handled(3)] show ?thesis by simp
qed simp_all

lemma shared_step_done:
  assumes "shared_step handler_at effect gw sw cfg x e y"
  shows "mset (ws_reporting (sy_worker (fst y))) + mset (ws_finished (sy_worker (fst y))) =
    mset (ws_reporting (sy_worker (fst x))) + mset (ws_finished (sy_worker (fst x))) + mset (jobs_done [e])"
  using assms by cases (auto dest: system_step_done)

lemma shared_run_done:
  "run (shared_step handler_at effect gw sw cfg) x es y \<Longrightarrow>
   mset (ws_reporting (sy_worker (fst y))) + mset (ws_finished (sy_worker (fst y))) =
     mset (ws_reporting (sy_worker (fst x))) + mset (ws_finished (sy_worker (fst x))) + mset (jobs_done es)"
  by (induction rule: run.induct) (auto dest!: shared_step_done simp: jobs_done_Cons split: system_event.splits worker_event.splits)

lemma run_shared:
  "run (system_step gw sw cfg) s es t \<Longrightarrow> \<forall>e \<in> set es. \<not> handles e \<Longrightarrow>
   run (shared_step handler_at effect gw sw cfg) (s, h) es (t, h)"
  by (induction rule: run.induct) (auto intro: run_step shared_step.other)

text \<open>Forgetting the heap gives back a worker, whatever its handlers do.\<close>

lemma shared_step_worker:
  "shared_step handler_at effect gw sw cfg x e y \<Longrightarrow>
   sy_worker (fst y) = sy_worker (fst x) \<or> (\<exists>e'. worker_step cfg (sy_worker (fst x)) e' (sy_worker (fst y)))"
  by (erule shared_step.cases) (auto dest: system_step_worker)

interpretation shared_worker: refinement_map "shared_step handler_at effect gw sw cfg" "worker_step cfg"
    "\<lambda>_. True" "\<lambda>x. sy_worker (fst x)" for handler_at effect gw sw cfg
  by unfold_locales (simp_all add: shared_step_worker)

subsection \<open>Handlers that implement a sequential machine\<close>

text \<open>
  A sequential machine says for a state and a job what the next state and the report are, or that the
  job has none. Its reports on a list of jobs:
\<close>

fun outputs :: "('a \<Rightarrow> job \<Rightarrow> ('a \<times> grpc_request) option) \<Rightarrow> 'a \<Rightarrow> job list
    \<Rightarrow> ('a \<times> grpc_request list) option" where
  "outputs next a [] = Some (a, [])"
| "outputs next a (j # js) =
     (case next a j of
        None \<Rightarrow> None
      | Some (b, r) \<Rightarrow> map_option (\<lambda>(c, rs). (c, r # rs)) (outputs next b js))"

text \<open>
  The contract: if the heap represents a state of the machine, a handler that is done with a job has
  made the machine's report (under the client's credentials) and the machine's next state is in the
  heap; and where the machine has a next state, the handler gets done.
\<close>

locale atomic_handler =
  fixes handler_at :: "'h \<Rightarrow> 'v job_handler"
    and effect :: "'h \<Rightarrow> job \<Rightarrow> 'h"
    and gw :: gateway
    and sw :: "'v started_worker"
    and represents :: "'h \<Rightarrow> 'a \<Rightarrow> bool"
    and next_state :: "'a \<Rightarrow> job \<Rightarrow> ('a \<times> grpc_request) option"
  assumes handled_sound:
    "represents h a \<Longrightarrow> ready gw (sw_client sw) w \<Longrightarrow>
     dispatch_job (handler_at h) (sw_data sw) (sw_client sw) job w = (Ok (), w') \<Longrightarrow>
     \<exists>b r md. next_state a job = Some (b, r) \<and> represents (effect h job) b \<and>
       job_key_of r = Some (job_key job) \<and> credentials gw (sw_client sw) md \<and>
       w' = w\<lparr>wd_wire := wd_wire w @ [(md, r)]\<rparr>"
    and handled_complete:
    "represents h a \<Longrightarrow> ready gw (sw_client sw) w \<Longrightarrow> next_state a job = Some (b, r) \<Longrightarrow>
     \<exists>w'. dispatch_job (handler_at h) (sw_data sw) (sw_client sw) job w = (Ok (), w')"
begin

lemma step_sequential:
  assumes "shared_step handler_at effect gw sw cfg (s, h) e (t, h')" "represents h a"
    and "ready gw (sw_client sw) (sy_world s)" "legal_event gw (sw_client sw) e"
  obtains b rs new where "outputs next_state a (map job_new (jobs_done [e])) = Some (b, rs)"
    "represents h' b" "ready gw (sw_client sw) (sy_world t)"
    "wd_wire (sy_world t) = wd_wire (sy_world s) @ new" "reports_on_jobs new = rs"
  using assms(1)
proof cases
  case other
  then have "jobs_done [e] = []"
    by (cases e rule: handles.cases) simp_all
  with system_step_quiet [OF other(2,3) assms(3,4)] other(1) assms(2) show thesis
    by (auto intro: that)
next
  case (handled j)
  from handled(3) obtain w where w: "sy_world t = w"
      "dispatch_job (handler_at h) (sw_data sw) (sw_client sw) (job_new j) (sy_world s) = (Ok (), w)"
    by (auto simp: system_step_simps)
  from handled_sound [OF assms(2,3) w(2)] obtain b r md where
    "next_state a (job_new j) = Some (b, r)" "represents (effect h (job_new j)) b"
    "job_key_of r = Some (job_key (job_new j))"
    "w = (sy_world s)\<lparr>wd_wire := wd_wire (sy_world s) @ [(md, r)]\<rparr>"
    by blast
  with handled w(1) assms(3) show thesis
    by (intro that [of b "[r]" "[(md, r)]"]) simp_all
qed

lemma outputs_append:
  "outputs next_state a (js @ js') =
     (case outputs next_state a js of
        None \<Rightarrow> None
      | Some (b, rs) \<Rightarrow> map_option (\<lambda>(c, rs'). (c, rs @ rs')) (outputs next_state b js'))"
  by (induction js arbitrary: a) (auto split: option.splits simp: option.map_comp comp_def case_prod_unfold option.map_ident)

text \<open>Concurrent handling is sequential: the reports are the machine's on the jobs in the order in which they were done.\<close>

lemma run_sequential:
  assumes "run (shared_step handler_at effect gw sw cfg) x es y" "represents (snd x) a"
    and "ready gw (sw_client sw) (sy_world (fst x))" "\<forall>e \<in> set es. legal_event gw (sw_client sw) e"
  shows "\<exists>b rs sent. outputs next_state a (map job_new (jobs_done es)) = Some (b, rs) \<and>
    represents (snd y) b \<and> ready gw (sw_client sw) (sy_world (fst y)) \<and>
    wd_wire (sy_world (fst y)) = wd_wire (sy_world (fst x)) @ sent \<and> reports_on_jobs sent = rs"
  using assms
proof (induction arbitrary: a rule: run.induct)
  case (run_step x e y es z)
  obtain s h t h' where xy: "x = (s, h)" "y = (t, h')"
    by (cases x; cases y)
  have now: "represents h a" "ready gw (sw_client sw) (sy_world s)" "legal_event gw (sw_client sw) e"
    using run_step.prems xy(1) by simp_all
  obtain b rs new where first: "outputs next_state a (map job_new (jobs_done [e])) = Some (b, rs)"
      "represents h' b" "ready gw (sw_client sw) (sy_world t)"
      "wd_wire (sy_world t) = wd_wire (sy_world s) @ new" "reports_on_jobs new = rs"
    by (rule step_sequential [OF run_step.hyps(1) [unfolded xy] now])
  obtain c rs' sent where rest: "outputs next_state b (map job_new (jobs_done es)) = Some (c, rs')"
      "represents (snd z) c" "ready gw (sw_client sw) (sy_world (fst z))"
      "wd_wire (sy_world (fst z)) = wd_wire (sy_world t) @ sent" "reports_on_jobs sent = rs'"
    using run_step.IH [of b] first(2,3) run_step.prems(3) xy(2) by auto
  have "jobs_done (e # es) = jobs_done [e] @ jobs_done es"
    by (simp add: jobs_done_Cons split: system_event.splits worker_event.splits)
  then have "outputs next_state a (map job_new (jobs_done (e # es))) = Some (c, rs @ rs')"
    using first(1) rest(1) by (simp add: outputs_append)
  with rest first(4,5) xy show ?case
    by (intro exI [of _ c] exI [of _ "rs @ rs'"] exI [of _ "new @ sent"]) simp
qed simp

text \<open>Where the machine can go on, a handler that is running can be done.\<close>

lemma running_handler_ends:
  assumes "represents h a" "ready gw (sw_client sw) (sy_world s)" "next_state a (job_new j) = Some (b, r)"
    and "j \<in> set (ws_handling (sy_worker s))"
  shows "\<exists>x. shared_step handler_at effect gw sw cfg (s, h) (Work (HandlerDone j)) x"
proof -
  obtain w where "dispatch_job (handler_at h) (sw_data sw) (sw_client sw) (job_new j) (sy_world s) = (Ok (), w)"
    using handled_complete [OF assms(1-3)] by blast
  moreover obtain t where "worker_step cfg (sy_worker s) (HandlerDone j) t"
    using assms(4) worker_step.handler_done by blast
  ultimately have "\<exists>t. system_step gw (sw\<lparr>sw_handler := handler_at h\<rparr>) cfg s (Work (HandlerDone j)) t"
    by (auto simp: system_step_simps)
  then show ?thesis
    by (blast intro: shared_step.handled)
qed

end

end
