(* ===== verification/Handler_Programs.thy ===== *)
theory Handler_Programs
  imports Shared_Handlers
begin

text \<open>
  Handlers that use the client (\<open>src/worker/builder.rs\<close>, \<open>src/worker/job_dispatcher.rs\<close>). A handler is
  an \<open>async\<close> function: between two operations of the client, which it awaits, it runs undisturbed,
  and while it awaits one the other handlers run (\<open>for_each_concurrent\<close> polls them all in one task).
  It is modelled as a resumption over the operations of \<open>Client_Session\<close>, run as a whole by
  \<open>run_program\<close> and operation by operation by \<open>Worker_Programs\<close>.
\<close>

subsection \<open>The answer to an operation\<close>

datatype command_response =
    TopologyResponded topology_response
  | DeployResponded deploy_process_response
  | CreateResponded create_process_instance_response
  | CreateWithResultResponded create_process_instance_with_result_response
  | CancelResponded cancel_process_instance_response
  | SetVariablesResponded set_variables_response
  | CompleteResponded complete_job_response
  | FailResponded fail_job_response
  | ThrowResponded throw_error_response
  | UpdateRetriesResponded update_job_retries_response
  | PublishResponded publish_message_response
  | ResolveResponded resolve_incident_response

type_synonym command_result = "(command_response, error) outcome"

definition respond :: "('a \<Rightarrow> command_response) \<Rightarrow> ('a, error) outcome \<times> world \<Rightarrow> command_result \<times> world" where
  "respond f r = apfst (map_outcome f (\<lambda>e. e)) r"

fun command_call :: "'j serde_json \<Rightarrow> files \<Rightarrow> gateway \<Rightarrow> ('v, 'j) command \<Rightarrow> world \<Rightarrow> command_result \<times> world" where
  "command_call sj fs gw (TopologyCommand b) w = respond TopologyResponded (topology_send gw b w)"
| "command_call sj fs gw (DeployCommand b) w = respond DeployResponded (deploy_process_send fs gw b w)"
| "command_call sj fs gw (CreateCommand b) w =
     respond CreateResponded (create_process_instance_send sj gw b w)"
| "command_call sj fs gw (CreateWithResultCommand b) w =
     respond CreateWithResultResponded (create_with_result_send sj gw b w)"
| "command_call sj fs gw (CancelCommand b) w =
     respond CancelResponded (cancel_process_instance_send gw b w)"
| "command_call sj fs gw (SetVariablesCommand b) w =
     respond SetVariablesResponded (set_variables_send sj gw b w)"
| "command_call sj fs gw (CompleteCommand b) w = respond CompleteResponded (complete_job_send sj gw b w)"
| "command_call sj fs gw (FailCommand b) w = respond FailResponded (fail_job_send gw b w)"
| "command_call sj fs gw (ThrowCommand b) w = respond ThrowResponded (throw_error_send gw b w)"
| "command_call sj fs gw (UpdateRetriesCommand b) w =
     respond UpdateRetriesResponded (update_job_retries_send gw b w)"
| "command_call sj fs gw (PublishCommand b) w =
     respond PublishResponded (publish_message_send sj gw b w)"
| "command_call sj fs gw (ResolveCommand b) w =
     respond ResolveResponded (resolve_incident_send gw b w)"

lemma forget_respond [simp]: "forget_response (respond f r) = forget_response r"
  by (simp add: forget_response_def respond_def prod.map_comp outcome.map_comp comp_def apfst_def id_def)

lemma forget_command_call: "forget_response (command_call sj fs gw c w) = command_send sj fs gw c w"
  by (cases c) simp_all

lemma snd_forget [simp]: "snd (forget_response r) = snd r"
  by (simp add: forget_response_def)

lemma command_call_world: "snd (command_call sj fs gw c w) = snd (command_send sj fs gw c w)"
  by (simp flip: forget_command_call)

text \<open>What an operation does to the world, given credentials.\<close>

lemma command_call_cases:
  obtains (rejected) e where "command_request sj fs c = Err e" "command_call sj fs gw c w = (Err e, w)"
  | (denied) r st where "command_request sj fs c = Ok r" "call_metadata gw (command_client c) w = Inl st"
      "snd (command_call sj fs gw c w) = w"
  | (sent) r md where "command_request sj fs c = Ok r" "bears_token gw (command_client c) w md"
      "snd (command_call sj fs gw c w) = w\<lparr>wd_wire := wd_wire w @ [(md, r)]\<rparr>"
proof (cases rule: command.send_cases [of sj fs c gw w])
  case (rejected e)
  then have "forget_response (command_call sj fs gw c w) = (Err e, w)"
    by (simp add: forget_command_call)
  then have "command_call sj fs gw c w = (Err e, w)"
    by (cases "command_call sj fs gw c w"; cases "fst (command_call sj fs gw c w)")
      (auto simp: forget_response_def)
  with rejected(1) that(1) show thesis by blast
qed (use that(2,3) in \<open>auto simp: command_call_world\<close>)

subsection \<open>Programs\<close>

datatype ('v, 'j, 'a) program =
    Return 'a
  | Unwinds string
  | Await "('v, 'j) command" "command_result \<Rightarrow> ('v, 'j, 'a) program"

primrec run_program ::
    "'j serde_json \<Rightarrow> files \<Rightarrow> gateway \<Rightarrow> ('v, 'j, 'a) program \<Rightarrow> world \<Rightarrow> ('a, error) outcome \<times> world" where
  "run_program sj fs gw (Return x) = (\<lambda>w. (Ok x, w))"
| "run_program sj fs gw (Unwinds p) = (\<lambda>w. (Panic p, w))"
| "run_program sj fs gw (Await c k) =
     (\<lambda>w. let (r, w') = command_call sj fs gw c w in run_program sj fs gw (k r) w')"

primrec bind_program :: "('v, 'j, 'a) program \<Rightarrow> ('a \<Rightarrow> ('v, 'j, 'b) program) \<Rightarrow> ('v, 'j, 'b) program" where
  "bind_program (Return x) f = f x"
| "bind_program (Unwinds p) f = Unwinds p"
| "bind_program (Await c k) f = Await c (\<lambda>r. bind_program (k r) f)"

text \<open>All operations that a program may get to, whatever the answers, satisfy \<open>P\<close>.\<close>

primrec all_commands :: "(('v, 'j) command \<Rightarrow> bool) \<Rightarrow> ('v, 'j, 'a) program \<Rightarrow> bool" where
  "all_commands P (Return x) = True"
| "all_commands P (Unwinds p) = True"
| "all_commands P (Await c k) = (P c \<and> (\<forall>r. all_commands P (k r)))"

primrec never_unwinds :: "('v, 'j, 'a) program \<Rightarrow> bool" where
  "never_unwinds (Return x) = True"
| "never_unwinds (Unwinds p) = False"
| "never_unwinds (Await c k) = (\<forall>r. never_unwinds (k r))"

lemma run_bind:
  "run_program sj fs gw (bind_program p f) w =
     (case run_program sj fs gw p w of
        (Ok x, w') \<Rightarrow> run_program sj fs gw (f x) w'
      | (Err e, w') \<Rightarrow> (Err e, w')
      | (Panic m, w') \<Rightarrow> (Panic m, w'))"
  by (induction p arbitrary: w) (simp_all split: prod.split)

lemma run_program_no_error: "fst (run_program sj fs gw p w) \<noteq> Err e"
  by (induction p arbitrary: w) (simp_all split: prod.split)

lemma all_commands_bind:
  "all_commands P p \<Longrightarrow> (\<And>x. all_commands P (f x)) \<Longrightarrow> all_commands P (bind_program p f)"
  by (induction p) simp_all

subsection \<open>Conversations\<close>

text \<open>
  A conversation is the operations of a program so far, with their answers; what is left of the
  program after it, and the requests that its valid operations make.
\<close>

type_synonym ('v, 'j) exchange = "('v, 'j) command \<times> command_result"

fun program_after :: "('v, 'j, 'a) program \<Rightarrow> ('v, 'j) exchange list \<Rightarrow> ('v, 'j, 'a) program option" where
  "program_after p [] = Some p"
| "program_after (Await c k) ((c', r) # xs) = (if c' = c then program_after (k r) xs else None)"
| "program_after p (x # xs) = None"

definition exchange_request :: "'j serde_json \<Rightarrow> files \<Rightarrow> ('v, 'j) exchange \<Rightarrow> grpc_request list" where
  "exchange_request sj fs x = (case command_request sj fs (fst x) of Ok m \<Rightarrow> [m] | _ \<Rightarrow> [])"

definition conversation_requests :: "'j serde_json \<Rightarrow> files \<Rightarrow> ('v, 'j) exchange list \<Rightarrow> grpc_request list" where
  "conversation_requests sj fs xs = concat (map (exchange_request sj fs) xs)"

lemma program_after_append:
  "program_after p (xs @ ys) = Option.bind (program_after p xs) (\<lambda>q. program_after q ys)"
  by (induction p xs rule: program_after.induct) simp_all

lemma program_after_snoc:
  "program_after p xs = Some (Await c k) \<Longrightarrow> program_after p (xs @ [(c, r)]) = Some (k r)"
  by (simp add: program_after_append)

lemma conversation_requests_append [simp]:
  "conversation_requests sj fs (xs @ ys) = conversation_requests sj fs xs @ conversation_requests sj fs ys"
  "conversation_requests sj fs [] = []"
  by (simp_all add: conversation_requests_def)

lemma all_commands_after:
  "program_after p xs = Some q \<Longrightarrow> all_commands P p \<Longrightarrow> all_commands P q"
  by (induction p xs rule: program_after.induct) (auto split: if_splits)

subsection \<open>The auto handler as a program\<close>

text \<open>
  A user's function that uses the client: it ends with its value or the text of its error. \<open>user_of\<close> is
  the function as \<open>Auto_Handler\<close> has it.
\<close>

type_synonym ('v, 'j, 'd, 'o) user_program =
  "('v, 'd) extracted list \<Rightarrow> ('v, 'j, string + 'o) program"

definition user_of ::
    "'j serde_json \<Rightarrow> files \<Rightarrow> gateway \<Rightarrow> ('v, 'j, 'd, 'o) user_program \<Rightarrow> ('v, 'd, 'o) user_handler" where
  "user_of sj fs gw user params w =
     (case run_program sj fs gw (user params) w of
        (Ok (Inr v), w') \<Rightarrow> (Ok v, w')
      | (Ok (Inl m), w') \<Rightarrow> (Err m, w')
      | (Err e, w') \<Rightarrow> (Panic ''no such result'', w')
      | (Panic p, w') \<Rightarrow> (Panic p, w'))"

definition send_and_return :: "('v, 'j) command \<Rightarrow> ('v, 'j, unit) program" where
  "send_and_return c = Await c (\<lambda>_. Return ())"

definition failing :: "'v client \<Rightarrow> string \<Rightarrow> ('v, 'j, unit) program" where
  "failing client m = send_and_return (FailCommand (fjb_with_error_message m (client_fail_job client)))"

definition completing ::
    "('j, 'o) handler_formats \<Rightarrow> 'v client \<Rightarrow> 'o \<Rightarrow> ('v, 'j, unit) program" where
  "completing hf client v =
     (case hf_to_value hf v of
        Inl err \<Rightarrow> Unwinds ''json!''
      | Inr x \<Rightarrow> send_and_return (CompleteCommand (cjb_with_variables x (client_complete_job client))))"

definition auto_program ::
    "('j, 'o) handler_formats \<Rightarrow> 'd extractor list \<Rightarrow> ('v, 'j, 'd, 'o) user_program
      \<Rightarrow> 'v client \<Rightarrow> job \<Rightarrow> ('v, 'j, unit) program" where
  "auto_program hf xs user client job =
     (case tuple_from_job xs client job of
        Ok params \<Rightarrow> bind_program (user params) (case_sum (failing client) (completing hf client))
      | Err err \<Rightarrow> failing client (extraction_error_message hf err)
      | Panic p \<Rightarrow> Unwinds p)"

lemma run_send_and_return:
  "run_program sj fs gw (send_and_return c) w = (Ok (), snd (command_send sj fs gw c w))"
  by (simp add: send_and_return_def command_call_world [symmetric] case_prod_unfold)

lemma run_failing: "run_program sj fs gw (failing client m) w = report_failure gw client m w"
  by (simp add: failing_def run_send_and_return report_failure_def)

lemma run_completing:
  "run_program (hf_json hf) fs gw (completing hf client v) w = report_success hf gw client v w"
  by (cases "hf_to_value hf v")
    (simp_all add: completing_def run_send_and_return report_success_def)

text \<open>
  Run without interruption, the program of an auto handler does to the world what the handler does whose
  user's function is run as a whole, and ends as it ends.
\<close>

lemma auto_program_runs:
  "run_program (hf_json hf) fs gw (auto_program hf xs user client job) w =
     auto_handler_body hf gw xs (user_of (hf_json hf) fs gw user) client job w"
proof (cases "tuple_from_job xs client job")
  case (Ok params)
  obtain r w' where r: "run_program (hf_json hf) fs gw (user params) w = (r, w')"
    by fastforce
  show ?thesis
  proof (cases r)
    case result: (Ok x)
    with Ok r show ?thesis
      by (cases x) (simp_all add: auto_program_def auto_handler_body_def user_of_def run_bind
          run_failing run_completing)
  next
    case (Err e)
    with run_program_no_error [of "hf_json hf" fs gw "user params" w e] r show ?thesis by simp
  next
    case (Panic p)
    with Ok r show ?thesis
      by (simp add: auto_program_def auto_handler_body_def user_of_def run_bind)
  qed
qed (simp_all add: auto_program_def auto_handler_body_def run_failing)

end
