(* ===== verification/Worker_Programs.thy ===== *)
theory Worker_Programs
  imports Handler_Programs
begin

text \<open>
  A running worker whose handlers are programs (\<open>src/worker/job_dispatcher.rs\<close>): each operation of a
  handler is a step of its own, so that the operations of concurrently handled jobs, the worker's
  own requests and token refreshes interleave in every way. A handler is known by the number of its
  job in the order of dispatching, as the gateway may deliver a job twice.
  The answer to an operation comes in the step that sends its request: it is the gateway's function of
  the request and touches nothing the handlers share, and what follows it is the handler's next step,
  which may come at any time later. A handler that unwinds makes no step more; that this ends its
  worker is in \<open>Worker_Lifetime\<close>.
\<close>

subsection \<open>The system\<close>

record ('v, 'j) program_system =
  ps_system :: system
  ps_running :: "(nat \<times> ('v, 'j, unit) program) list"
  ps_log :: "(nat \<times> ('v, 'j) exchange) list"

datatype program_event = Environment system_event | Start | Operate nat | Finish nat

type_synonym ('v, 'j) handler_program = "'v client \<Rightarrow> job \<Rightarrow> ('v, 'j, unit) program"

definition program_of ::
    "('v, 'j) handler_program \<Rightarrow> 'v started_worker \<Rightarrow> activated_job \<Rightarrow> ('v, 'j, unit) program" where
  "program_of prog sw j = prog (job_client (sw_data sw) (sw_client sw) (job_new j)) (job_new j)"

inductive program_step ::
    "('v, 'j) handler_program \<Rightarrow> 'j serde_json \<Rightarrow> files \<Rightarrow> gateway \<Rightarrow> 'v started_worker \<Rightarrow> worker_config
      \<Rightarrow> ('v, 'j) program_system \<Rightarrow> program_event \<Rightarrow> ('v, 'j) program_system \<Rightarrow> bool"
  for prog :: "('v, 'j) handler_program" and sj :: "'j serde_json" and fs :: files and gw :: gateway
    and sw :: "'v started_worker" and cfg :: worker_config where
  environment: "system_step gw sw cfg (ps_system x) e t \<Longrightarrow> \<not> handles e \<Longrightarrow> e \<noteq> Work Dispatch \<Longrightarrow>
    program_step prog sj fs gw sw cfg x (Environment e) (x\<lparr>ps_system := t\<rparr>)"
| start: "worker_step cfg (sy_worker (ps_system x)) Dispatch u \<Longrightarrow>
    ws_started u = ws_started (sy_worker (ps_system x)) @ [j] \<Longrightarrow>
    program_step prog sj fs gw sw cfg x Start
      (x\<lparr>ps_system := (ps_system x)\<lparr>sy_worker := u\<rparr>,
         ps_running := ps_running x @
           [(length (ws_started (sy_worker (ps_system x))), program_of prog sw j)]\<rparr>)"
| operate: "i < length (ps_running x) \<Longrightarrow> ps_running x ! i = (n, Await c k) \<Longrightarrow>
    command_call sj fs gw c (sy_world (ps_system x)) = (r, w) \<Longrightarrow>
    program_step prog sj fs gw sw cfg x (Operate i)
      (x\<lparr>ps_system := (ps_system x)\<lparr>sy_world := w\<rparr>, ps_running := (ps_running x)[i := (n, k r)],
         ps_log := ps_log x @ [(n, c, r)]\<rparr>)"
| finish: "i < length (ps_running x) \<Longrightarrow> ps_running x ! i = (n, Return ()) \<Longrightarrow>
    worker_step cfg (sy_worker (ps_system x)) (HandlerDone (ws_started (sy_worker (ps_system x)) ! n)) u \<Longrightarrow>
    program_step prog sj fs gw sw cfg x (Finish i)
      (x\<lparr>ps_system := (ps_system x)\<lparr>sy_worker := u\<rparr>,
         ps_running := take i (ps_running x) @ drop (Suc i) (ps_running x)\<rparr>)"

inductive_simps program_step_simps:
  "program_step prog sj fs gw sw cfg x (Environment e) y"
  "program_step prog sj fs gw sw cfg x Start y"
  "program_step prog sj fs gw sw cfg x (Operate i) y"
  "program_step prog sj fs gw sw cfg x (Finish i) y"

definition program_start :: "'v started_worker \<Rightarrow> world \<Rightarrow> ('v, 'j) program_system" where
  "program_start sw w = \<lparr>ps_system = system_start sw w, ps_running = [], ps_log = []\<rparr>"

lemma program_step_worker:
  "program_step prog sj fs gw sw cfg x e y \<Longrightarrow>
   sy_worker (ps_system y) = sy_worker (ps_system x) \<or>
   (\<exists>e'. worker_step cfg (sy_worker (ps_system x)) e' (sy_worker (ps_system y)))"
  by (erule program_step.cases) (auto dest: system_step_worker)

text \<open>What holds of every worker holds of it here.\<close>

interpretation program_worker: refinement_map "program_step prog sj fs gw sw cfg" "worker_step cfg"
    "\<lambda>_. True" "\<lambda>x. sy_worker (ps_system x)" for prog sj fs gw sw cfg
  by unfold_locales (simp_all add: program_step_worker)

subsection \<open>Every handler follows its program\<close>

definition conversation :: "(nat \<times> ('v, 'j) exchange) list \<Rightarrow> nat \<Rightarrow> ('v, 'j) exchange list" where
  "conversation said n = map snd (filter (\<lambda>x. fst x = n) said)"

definition rest_of :: "(nat \<times> ('v, 'j, unit) program) list \<Rightarrow> nat \<Rightarrow> ('v, 'j, unit) program" where
  "rest_of running n = (case map_of running n of None \<Rightarrow> Return () | Some p \<Rightarrow> p)"

definition jobs_of :: "activated_job list \<Rightarrow> (nat \<times> ('v, 'j, unit) program) list \<Rightarrow> activated_job multiset" where
  "jobs_of started running = mset (map (\<lambda>r. started ! fst r) running)"

definition program_inv ::
    "('v, 'j) handler_program \<Rightarrow> 'v started_worker \<Rightarrow> ('v, 'j) program_system \<Rightarrow> bool" where
  "program_inv prog sw x \<longleftrightarrow>
     (let started = ws_started (sy_worker (ps_system x)) in
        distinct (map fst (ps_running x)) \<and>
        (\<forall>n \<in> fst ` set (ps_running x) \<union> fst ` set (ps_log x). n < length started) \<and>
        jobs_of started (ps_running x) = mset (ws_handling (sy_worker (ps_system x))) \<and>
        (\<forall>n < length started.
           program_after (program_of prog sw (started ! n)) (conversation (ps_log x) n) =
             Some (rest_of (ps_running x) n)))"

lemma jobs_of_simps [simp]:
  "jobs_of started [] = {#}"
  "jobs_of started (as @ bs) = jobs_of started as + jobs_of started bs"
  "jobs_of started ((n, p) # bs) = add_mset (started ! n) (jobs_of started bs)"
  by (simp_all add: jobs_of_def)

lemma jobs_of_started:
  "(\<And>n. n \<in> fst ` set running \<Longrightarrow> n < length started) \<Longrightarrow>
   jobs_of (started @ started') running = jobs_of started running"
  unfolding jobs_of_def by (intro arg_cong [where f = mset]) (auto simp: nth_append)

lemma worker_step_started:
  assumes "worker_step cfg s e t" "e \<noteq> Dispatch"
  shows "ws_started t = ws_started s"
    and "\<not> (\<exists>j. e = HandlerDone j) \<Longrightarrow> ws_handling t = ws_handling s"
  using assms by (cases, auto dest: receive_frame)+

lemma system_step_started:
  assumes "system_step gw sw cfg s e t" "\<not> handles e" "e \<noteq> Work Dispatch"
  shows "ws_started (sy_worker t) = ws_started (sy_worker s) \<and>
    ws_handling (sy_worker t) = ws_handling (sy_worker s)"
  using assms(1)
proof cases
  case (advance e' u)
  with assms(2,3) have "e' \<noteq> Dispatch" "\<not> (\<exists>j. e' = HandlerDone j)" by auto
  with worker_step_started [OF advance(3)] advance show ?thesis by simp
next
  case (returned i u)
  with worker_step_started [OF returned(3)] show ?thesis by simp
next
  case (failed i u)
  with worker_step_started [OF failed(3)] show ?thesis by simp
qed (use assms(2) in simp_all)

lemma conversation_snoc [simp]:
  "conversation (said @ [(m, x)]) n = conversation said n @ (if m = n then [x] else [])"
  by (simp add: conversation_def)

lemma conversation_fresh: "n \<notin> fst ` set said \<Longrightarrow> conversation said n = []"
  by (auto simp: conversation_def filter_empty_conv)

text \<open>A list with the element at an index singled out.\<close>

lemma at_index:
  assumes "i < length xs" "xs ! i = a"
  obtains as bs where "xs = as @ a # bs" "xs[i := b] = as @ b # bs" "take i xs @ drop (Suc i) xs = as @ bs"
  using id_take_nth_drop [OF assms(1)] assms that [of "take i xs" "drop (Suc i) xs"]
  by (simp add: upd_conv_take_nth_drop)

lemma rest_of_simps [simp]:
  "rest_of [] n = Return ()"
  "rest_of (as @ (m, p) # bs) n = (if m = n \<and> n \<notin> fst ` set as then p else rest_of (as @ bs) n)"
proof -
  have "map_of as n = None \<longleftrightarrow> n \<notin> fst ` set as"
    by (rule map_of_eq_None_iff)
  then show "rest_of (as @ (m, p) # bs) n = (if m = n \<and> n \<notin> fst ` set as then p else rest_of (as @ bs) n)"
    by (auto simp: rest_of_def map_add_def split: option.splits)
qed (simp add: rest_of_def)

lemma rest_of_absent: "n \<notin> fst ` set running \<Longrightarrow> rest_of running n = Return ()"
  by (simp add: rest_of_def map_of_eq_None_iff [THEN iffD2])

text \<open>The bookkeeping of each step.\<close>

lemma program_inv_frame:
  assumes "program_inv prog sw x"
    and "ps_running y = ps_running x" "ps_log y = ps_log x"
    and "ws_started (sy_worker (ps_system y)) = ws_started (sy_worker (ps_system x))"
    and "mset (ws_handling (sy_worker (ps_system y))) = mset (ws_handling (sy_worker (ps_system x)))"
  shows "program_inv prog sw y"
  using assms by (simp add: program_inv_def)

lemma program_inv_start:
  assumes "program_inv prog sw x" "ws_started u = ws_started (sy_worker (ps_system x)) @ [j]"
    and "ws_handling u = ws_handling (sy_worker (ps_system x)) @ [j]"
  shows "program_inv prog sw (x\<lparr>ps_system := (ps_system x)\<lparr>sy_worker := u\<rparr>,
    ps_running := ps_running x @ [(length (ws_started (sy_worker (ps_system x))), program_of prog sw j)]\<rparr>)"
proof -
  let ?started = "ws_started (sy_worker (ps_system x))"
  have old: "n < length ?started" if "n \<in> fst ` set (ps_running x) \<union> fst ` set (ps_log x)" for n
    using assms(1) that unfolding program_inv_def Let_def by blast
  then have fresh: "length ?started \<notin> fst ` set (ps_running x)" "length ?started \<notin> fst ` set (ps_log x)"
    by blast+
  have "jobs_of (?started @ [j]) (ps_running x) = jobs_of ?started (ps_running x)"
    using old by (intro jobs_of_started) blast
  moreover have "rest_of (ps_running x @ [(length ?started, q)]) n =
      (if n = length ?started then q else rest_of (ps_running x) n)" for n q
    using fresh(1) rest_of_simps(2) [of "ps_running x" "length ?started" q "[]" n]
    by (cases "n = length ?started") simp_all
  ultimately show ?thesis
    using assms old fresh
    by (simp add: program_inv_def Let_def)
      (auto simp: conversation_fresh nth_append less_Suc_eq)
qed

lemma program_inv_operate:
  assumes "program_inv prog sw x" "i < length (ps_running x)" "ps_running x ! i = (n, Await c k)"
  shows "program_inv prog sw (x\<lparr>ps_system := (ps_system x)\<lparr>sy_world := w\<rparr>,
    ps_running := (ps_running x)[i := (n, k r)], ps_log := ps_log x @ [(n, c, r)]\<rparr>)"
proof -
  obtain as bs where split: "ps_running x = as @ (n, Await c k) # bs"
      "(ps_running x)[i := (n, k r)] = as @ (n, k r) # bs"
    by (rule at_index [OF assms(2,3)])
  have "n \<notin> fst ` set as"
    using assms(1) by (auto simp: program_inv_def Let_def split(1))
  with assms(1) show ?thesis
    unfolding program_inv_def split(2)
    by (simp add: split(1) Let_def) (auto simp: program_after_snoc)
qed

lemma program_inv_finish:
  assumes "program_inv prog sw x" "i < length (ps_running x)" "ps_running x ! i = (n, Return ())"
    and "ws_started u = ws_started (sy_worker (ps_system x))"
    and "ws_handling u = remove1 (ws_started (sy_worker (ps_system x)) ! n) (ws_handling (sy_worker (ps_system x)))"
  shows "program_inv prog sw (x\<lparr>ps_system := (ps_system x)\<lparr>sy_worker := u\<rparr>,
    ps_running := take i (ps_running x) @ drop (Suc i) (ps_running x)\<rparr>)"
proof -
  obtain as bs where split: "ps_running x = as @ (n, Return ()) # bs"
      "take i (ps_running x) @ drop (Suc i) (ps_running x) = as @ bs"
    by (rule at_index [OF assms(2,3)])
  have n: "n \<notin> fst ` set as" "n \<notin> fst ` set bs"
    using assms(1) by (auto simp: program_inv_def Let_def split(1))
  then have "rest_of (ps_running x) = rest_of (as @ bs)"
    using rest_of_absent [of n "as @ bs"] by (auto simp: split(1) image_Un intro!: ext)
  note rest = this [symmetric]
  have jobs: "jobs_of (ws_started (sy_worker (ps_system x))) (as @ bs) = mset (ws_handling u)"
    using assms(1,5) by (simp add: program_inv_def Let_def split(1))
      (metis add_mset_remove_trivial union_mset_add_mset_right)
  have "distinct (map fst (as @ bs))"
    "\<forall>m \<in> fst ` set (as @ bs) \<union> fst ` set (ps_log x). m < length (ws_started (sy_worker (ps_system x)))"
    using assms(1) by (auto simp: program_inv_def Let_def split(1))
  with assms(1,4) jobs show ?thesis
    unfolding program_inv_def split(2) by (simp add: Let_def rest del: jobs_of_simps)
qed

lemma program_inv_step:
  assumes "program_inv prog sw x" "program_step prog sj fs gw sw cfg x e y"
  shows "program_inv prog sw y"
  using assms(2)
proof cases
  case (environment e' t)
  with assms(1) system_step_started [OF environment(3-5)] show ?thesis
    by (auto intro: program_inv_frame)
next
  case (start u j)
  from start(3,4) have "ws_handling u = ws_handling (sy_worker (ps_system x)) @ [j]"
    by (auto simp: worker_step_simps)
  with start assms(1) show ?thesis by (auto intro: program_inv_start)
next
  case (operate i n c k r w)
  with assms(1) show ?thesis by (auto intro: program_inv_operate)
next
  case (finish i n u)
  from finish(5) have "ws_started u = ws_started (sy_worker (ps_system x))"
      "ws_handling u = remove1 (ws_started (sy_worker (ps_system x)) ! n) (ws_handling (sy_worker (ps_system x)))"
    by (auto simp: worker_step_simps)
  with finish assms(1) show ?thesis by (auto intro: program_inv_finish)
qed

interpretation programs: inductive_invariant
    "\<lambda>x. \<exists>w. x = program_start sw w \<and> initial_poller (sw_poller sw)"
    "program_step prog sj fs gw sw cfg" "program_inv prog sw" for prog sj fs gw sw cfg
proof unfold_locales
  show "\<exists>w. x = program_start sw w \<and> initial_poller (sw_poller sw) \<Longrightarrow> program_inv prog sw x" for x
    by (auto simp: program_start_def program_inv_def system_start_def worker_start_def)
qed (rule program_inv_step)

subsection \<open>What goes out\<close>

text \<open>
  The requests that are not the worker's own; a program that uses the client it was handed (or one that
  was made from it).
\<close>

fun activation :: "grpc_request \<Rightarrow> bool" where
  "activation (ActivateJobs r) = True"
| "activation _ = False"

definition handler_requests :: "wire list \<Rightarrow> grpc_request list" where
  "handler_requests ws = filter (\<lambda>m. \<not> activation m) (map snd ws)"

definition uses_client :: "'v started_worker \<Rightarrow> ('v, 'j) command \<Rightarrow> bool" where
  "uses_client sw c \<longleftrightarrow>
     cl_gateway_interceptor (command_client c) = cl_gateway_interceptor (sw_client sw)"

definition program_wire_inv ::
    "'j serde_json \<Rightarrow> files \<Rightarrow> gateway \<Rightarrow> 'v started_worker \<Rightarrow> world \<Rightarrow> ('v, 'j) program_system \<Rightarrow> bool" where
  "program_wire_inv sj fs gw sw w0 x \<longleftrightarrow>
     ready gw (sw_client sw) (sy_world (ps_system x)) \<and>
     (\<forall>(n, p) \<in> set (ps_running x). all_commands (uses_client sw) p) \<and>
     (\<exists>sent. wd_wire (sy_world (ps_system x)) = wd_wire w0 @ sent \<and>
        (\<forall>(md, m) \<in> set sent. credentials gw (sw_client sw) md) \<and>
        handler_requests sent = conversation_requests sj fs (map snd (ps_log x)))"

lemma handler_requests_simps [simp]:
  "handler_requests [] = []"
  "handler_requests (ws @ ws') = handler_requests ws @ handler_requests ws'"
  by (simp_all add: handler_requests_def)

lemma handler_requests_activations:
  "\<forall>(md, m) \<in> set ws. (\<exists>r. m = ActivateJobs r) \<and> P md \<Longrightarrow> handler_requests ws = []"
  by (induction ws) (auto simp: handler_requests_def)

lemma command_request_not_activation: "command_request sj fs c = Ok m \<Longrightarrow> \<not> activation m"
  by (cases c) auto

text \<open>An operation with a client that can make calls sends its request if it is valid, and nothing else.\<close>

lemma command_call_ready:
  assumes "ready gw (sw_client sw) w" "uses_client sw c" "command_call sj fs gw c w = (r, w')"
  obtains new where "w' = w\<lparr>wd_wire := wd_wire w @ new\<rparr>" "ready gw (sw_client sw) w'"
    "\<forall>(md, m) \<in> set new. credentials gw (sw_client sw) md"
    "handler_requests new = exchange_request sj fs (c, r)"
proof -
  have "bears_token gw (command_client c) w md \<longleftrightarrow> bears_token gw (sw_client sw) w md" for md
    using assms(2) by (simp add: bears_token_def uses_client_def)
  note same = this
  show thesis
  proof (cases rule: command_call_cases [of sj fs c gw w])
    case (rejected e)
    with assms(1,3) show thesis
      by (intro that [of "[]"]) (auto simp: exchange_request_def)
  next
    case (denied m st)
    obtain md where "bears_token gw (sw_client sw) w md"
      using ready_bears_token [OF assms(1)] by blast
    with same denied(2) show thesis
      by (simp add: call_metadata_bears_token [symmetric])
  next
    case (sent m md)
    with assms(1,3) same bears_token_credentials [of gw "sw_client sw" w md]
      command_request_not_activation [OF sent(1)] show thesis
      by (intro that [of "[(md, m)]"]) (auto simp: exchange_request_def handler_requests_def)
  qed
qed

lemma program_wire_invI:
  assumes "ready gw (sw_client sw) (sy_world (ps_system y))"
    and "\<forall>(n, p) \<in> set (ps_running y). all_commands (uses_client sw) p"
    and "wd_wire (sy_world (ps_system x)) = wd_wire w0 @ sent"
      "\<forall>(md, m) \<in> set sent. credentials gw (sw_client sw) md"
      "handler_requests sent = conversation_requests sj fs (map snd (ps_log x))"
    and "wd_wire (sy_world (ps_system y)) = wd_wire (sy_world (ps_system x)) @ new"
      "\<forall>(md, m) \<in> set new. credentials gw (sw_client sw) md"
      "ps_log y = ps_log x @ extra" "handler_requests new = conversation_requests sj fs (map snd extra)"
  shows "program_wire_inv sj fs gw sw w0 y"
  unfolding program_wire_inv_def using assms
  by (intro conjI exI [of _ "sent @ new"]) auto

lemma program_wire_inv_step:
  assumes inv: "program_wire_inv sj fs gw sw w0 x" and step: "program_step prog sj fs gw sw cfg x e y"
    and uses: "\<And>j. all_commands (uses_client sw) (program_of prog sw j)"
    and legal: "\<And>e'. e = Environment e' \<Longrightarrow> legal_event gw (sw_client sw) e'"
  shows "program_wire_inv sj fs gw sw w0 y"
proof -
  obtain sent where sent: "wd_wire (sy_world (ps_system x)) = wd_wire w0 @ sent"
      "\<forall>(md, m) \<in> set sent. credentials gw (sw_client sw) md"
      "handler_requests sent = conversation_requests sj fs (map snd (ps_log x))"
    and auth: "ready gw (sw_client sw) (sy_world (ps_system x))"
    and mine: "\<forall>(n, p) \<in> set (ps_running x). all_commands (uses_client sw) p"
    using inv unfolding program_wire_inv_def by blast
  note inv_y = program_wire_invI [OF _ _ sent]
  show ?thesis
    using step
  proof cases
    case (environment e' t)
    obtain new where new: "ready gw (sw_client sw) (sy_world t)"
        "wd_wire (sy_world t) = wd_wire (sy_world (ps_system x)) @ new"
        "\<forall>(md, m) \<in> set new. (\<exists>r. m = ActivateJobs r) \<and> credentials gw (sw_client sw) md"
      using system_step_requests [OF environment(3,4) auth legal [OF environment(1)]] by blast
    show ?thesis
      by (rule inv_y [where new = new and extra = "[]"])
        (use environment new mine handler_requests_activations [OF new(3)] in auto)
  next
    case (start u j)
    show ?thesis
      by (rule inv_y [where new = "[]" and extra = "[]"]) (use start auth mine uses in auto)
  next
    case (operate i n c k r w)
    have now: "all_commands (uses_client sw) (Await c k)"
      using mine operate(3,4) by (metis (no_types, lifting) case_prodD nth_mem)
    then have "uses_client sw c"
      by simp
    from command_call_ready [OF auth this operate(5)] obtain new where new:
        "w = (sy_world (ps_system x))\<lparr>wd_wire := wd_wire (sy_world (ps_system x)) @ new\<rparr>"
        "ready gw (sw_client sw) w" "\<forall>(md, m) \<in> set new. credentials gw (sw_client sw) md"
        "handler_requests new = exchange_request sj fs (c, r)"
      by metis
    have "\<forall>(n, p) \<in> set ((ps_running x)[i := (n, k r)]). all_commands (uses_client sw) p"
      using mine now set_update_subset_insert [of "ps_running x" i "(n, k r)"] by fastforce
    then show ?thesis
      by (intro inv_y [where new = new and extra = "[(n, c, r)]"])
        (use operate new in \<open>simp_all add: conversation_requests_def\<close>)
  next
    case (finish i n u)
    have "\<forall>(n, p) \<in> set (take i (ps_running x) @ drop (Suc i) (ps_running x)). all_commands (uses_client sw) p"
      using mine by (auto dest: in_set_takeD in_set_dropD)
    then show ?thesis
      by (intro inv_y [where new = "[]" and extra = "[]"]) (use finish auth in auto)
  qed
qed

fun legal_program_event :: "gateway \<Rightarrow> 'v client \<Rightarrow> program_event \<Rightarrow> bool" where
  "legal_program_event gw c (Environment e) = legal_event gw c e"
| "legal_program_event gw c _ = True"

interpretation program_wire: inductive_invariant
    "\<lambda>x. x = program_start sw w0 \<and> ready gw (sw_client sw) w0"
    "\<lambda>x e y. (legal_program_event gw (sw_client sw) e \<and>
         (\<forall>j. all_commands (uses_client sw) (program_of prog sw j))) \<and>
       program_step prog sj fs gw sw cfg x e y"
    "program_wire_inv sj fs gw sw w0" for prog sj fs gw sw cfg w0
proof unfold_locales
  fix x e y
  assume "program_wire_inv sj fs gw sw w0 x"
    "(legal_program_event gw (sw_client sw) e \<and>
       (\<forall>j. all_commands (uses_client sw) (program_of prog sw j))) \<and>
     program_step prog sj fs gw sw cfg x e y"
  then show "program_wire_inv sj fs gw sw w0 y"
    by (auto intro!: program_wire_inv_step [of sj fs gw sw w0 x prog cfg e y])
qed (auto simp: program_wire_inv_def program_start_def system_start_def)

subsection \<open>Running a handler to its end\<close>

lemma nth_updated: "i < length xs \<Longrightarrow> xs[i := a] ! i = a"
  by simp

lemma program_runs:
  assumes "i < length (ps_running x)" "ps_running x ! i = (n, p)"
    and "run_program sj fs gw p (sy_world (ps_system x)) = (Ok (), w)"
  shows "\<exists>es y said. run (program_step prog sj fs gw sw cfg) x es y \<and> set es \<subseteq> {Operate i} \<and>
    y = x\<lparr>ps_system := (ps_system x)\<lparr>sy_world := w\<rparr>, ps_running := (ps_running x)[i := (n, Return ())],
          ps_log := said\<rparr>"
  using assms
proof (induction p arbitrary: x)
  case (Return u)
  then have "w = sy_world (ps_system x)" "(ps_running x)[i := (n, Return ())] = ps_running x"
    using list_update_id [of "ps_running x" i] by simp_all
  then show ?case
    by (intro exI [of _ "[]"] exI [of _ x] exI [of _ "ps_log x"]) simp
next
  case (Await c k)
  obtain r w1 where call: "command_call sj fs gw c (sy_world (ps_system x)) = (r, w1)"
    by fastforce
  let ?y = "x\<lparr>ps_system := (ps_system x)\<lparr>sy_world := w1\<rparr>, ps_running := (ps_running x)[i := (n, k r)],
      ps_log := ps_log x @ [(n, c, r)]\<rparr>"
  have step: "program_step prog sj fs gw sw cfg x (Operate i) ?y"
    by (rule program_step.operate [OF Await.prems(1,2) call])
  have "\<exists>es y said. run (program_step prog sj fs gw sw cfg) ?y es y \<and> set es \<subseteq> {Operate i} \<and>
    y = ?y\<lparr>ps_system := (ps_system ?y)\<lparr>sy_world := w\<rparr>, ps_running := (ps_running ?y)[i := (n, Return ())],
          ps_log := said\<rparr>"
    using Await.prems call by (intro Await.IH) simp_all
  then obtain es said where "run (program_step prog sj fs gw sw cfg) ?y es
      (?y\<lparr>ps_system := (ps_system ?y)\<lparr>sy_world := w\<rparr>, ps_running := (ps_running ?y)[i := (n, Return ())],
          ps_log := said\<rparr>)" "set es \<subseteq> {Operate i}"
    by blast
  with run.run_step [of "program_step prog sj fs gw sw cfg", OF step] show ?case
    by (intro exI [of _ "Operate i # es"]) auto
qed simp

lemma never_unwinds_runs: "never_unwinds p \<Longrightarrow> \<exists>u w'. run_program sj fs gw p w = (Ok u, w')"
  by (induction p arbitrary: w) (simp_all split: prod.split)

text \<open>A handler that has returned, or that can be run to its end, is done in steps of its own.\<close>

lemma program_ends:
  assumes "i < length (ps_running x)" "ps_running x ! i = (n, p)"
    and "run_program sj fs gw p (sy_world (ps_system x)) = (Ok (), w)"
    and "worker_step cfg (sy_worker (ps_system x)) (HandlerDone (ws_started (sy_worker (ps_system x)) ! n)) u"
  shows "\<exists>es y. run (program_step prog sj fs gw sw cfg) x es y \<and> set es \<subseteq> {Operate i, Finish i} \<and>
    ps_system y = (ps_system x)\<lparr>sy_worker := u, sy_world := w\<rparr> \<and>
    ps_running y = take i (ps_running x) @ drop (Suc i) (ps_running x)"
proof -
  obtain es said where es: "run (program_step prog sj fs gw sw cfg) x es
      (x\<lparr>ps_system := (ps_system x)\<lparr>sy_world := w\<rparr>, ps_running := (ps_running x)[i := (n, Return ())],
          ps_log := said\<rparr>)" (is "run _ x es ?y") "set es \<subseteq> {Operate i}"
    using program_runs [OF assms(1-3)] by blast
  have "program_step prog sj fs gw sw cfg ?y (Finish i)
      (?y\<lparr>ps_system := (ps_system ?y)\<lparr>sy_worker := u\<rparr>,
         ps_running := take i (ps_running ?y) @ drop (Suc i) (ps_running ?y)\<rparr>)"
    by (rule program_step.finish [of i ?y n]) (use assms(1,4) in simp_all)
  from run_append [OF es(1) run_one [where step = "program_step prog sj fs gw sw cfg", OF this]] es(2)
  show ?thesis
    by (intro exI [of _ "es @ [Finish i]"] exI conjI) auto
qed

lemma program_inv_handling:
  assumes "program_inv prog sw x" "i < length (ps_running x)" "ps_running x ! i = (n, p)"
  shows "ws_started (sy_worker (ps_system x)) ! n \<in> set (ws_handling (sy_worker (ps_system x)))"
proof -
  obtain as bs where "ps_running x = as @ (n, p) # bs"
    using at_index [OF assms(2,3)] by metis
  then have "ws_started (sy_worker (ps_system x)) ! n \<in># jobs_of (ws_started (sy_worker (ps_system x))) (ps_running x)"
    by simp
  moreover have "jobs_of (ws_started (sy_worker (ps_system x))) (ps_running x) =
      mset (ws_handling (sy_worker (ps_system x)))"
    using assms(1) by (simp add: program_inv_def Let_def)
  ultimately have "ws_started (sy_worker (ps_system x)) ! n \<in># mset (ws_handling (sy_worker (ps_system x)))"
    by (simp only:)
  then show ?thesis by simp
qed

lemma handler_done_started:
  assumes "worker_step cfg s (HandlerDone j) u"
  shows "ws_started u = ws_started s"
  using assms by cases simp

lemma all_programs_end:
  assumes "program_inv prog sw x" "\<forall>(n, p) \<in> set (ps_running x). never_unwinds p"
  shows "\<exists>es y. run (program_step prog sj fs gw sw cfg) x es y \<and>
    set es \<subseteq> range Operate \<union> range Finish \<and> program_inv prog sw y \<and>
    ps_running y = [] \<and> ws_started (sy_worker (ps_system y)) = ws_started (sy_worker (ps_system x))"
  using assms
proof (induction "length (ps_running x)" arbitrary: x)
  case 0
  then show ?case
    by (intro exI [of _ "[]"] exI [of _ x]) simp
next
  case (Suc m)
  then obtain n p rest where first: "ps_running x = (n, p) # rest"
    by (cases "ps_running x") auto
  then have at: "0 < length (ps_running x)" "ps_running x ! 0 = (n, p)"
    by simp_all
  obtain u where u: "worker_step cfg (sy_worker (ps_system x))
      (HandlerDone (ws_started (sy_worker (ps_system x)) ! n)) u"
    using program_inv_handling [OF Suc.prems(1) at] worker_step.handler_done by blast
  have "never_unwinds p"
    using Suc.prems(2) first by simp
  then obtain w where "run_program sj fs gw p (sy_world (ps_system x)) = (Ok (), w)"
    using never_unwinds_runs [of p sj fs gw "sy_world (ps_system x)"] by auto
  from program_ends [where prog = prog and sw = sw, OF at this u] obtain es y where y:
      "run (program_step prog sj fs gw sw cfg) x es y" "set es \<subseteq> {Operate 0, Finish 0}"
      "ps_system y = (ps_system x)\<lparr>sy_worker := u, sy_world := w\<rparr>" "ps_running y = rest"
    by (auto simp: first)
  have "program_inv prog sw y"
    using programs.inv_preserved [OF y(1) Suc.prems(1)] .
  moreover have "m = length (ps_running y)" "\<forall>(n, p) \<in> set (ps_running y). never_unwinds p"
    using Suc.hyps(2) Suc.prems(2) first y(4) by simp_all
  ultimately obtain es' z where z: "run (program_step prog sj fs gw sw cfg) y es' z"
      "set es' \<subseteq> range Operate \<union> range Finish" "program_inv prog sw z" "ps_running z = []"
      "ws_started (sy_worker (ps_system z)) = ws_started (sy_worker (ps_system y))"
    using Suc.hyps(1) [of y] by blast
  have "run (program_step prog sj fs gw sw cfg) x (es @ es') z"
    by (rule run_append [OF y(1) z(1)])
  moreover have "ws_started (sy_worker (ps_system y)) = ws_started (sy_worker (ps_system x))"
    using handler_done_started [OF u] y(3) by simp
  ultimately show ?case
    using y(2) z by (intro exI [of _ "es @ es'"] exI [of _ z]) auto
qed

end
