(* ===== verification/Worker_Termination.thy ===== *)
theory Worker_Termination
  imports Worker_Liveness
begin

text \<open>
  How much work a worker still has in front of it. Every step other than a poll interval and the
  arrival of a batch uses some of it up, so that the length of any run is bounded by the work at its
  start and what the intervals and batches add; and a worker that nobody gives new work comes to
  rest: its runs are finite, and where one cannot be continued the worker is idle.
\<close>

subsection \<open>Work\<close>

text \<open>
  The steps that something can still lead to: a job of a batch is to be queued, dispatched,
  handled, reported and counted; a request's task is to end its stream, announce its jobs and its
  completion, which the poller then receives.
\<close>

fun phase_work :: "task_phase \<Rightarrow> nat" where
  "phase_work Calling = 6"
| "phase_work (Streaming n) = 5"
| "phase_work (Sending n rest) = 6 + 5 * length rest"
| "phase_work (Announcing n) = 4"
| "phase_work Completing = 2"

fun message_work :: "poll_message \<Rightarrow> nat" where
  "message_work FetchJobs = 7"
| "message_work _ = 1"

definition work :: "worker_state \<Rightarrow> nat" where
  "work s =
     sum_list (map (\<lambda>a. phase_work (at_phase a)) (ws_tasks s)) +
     sum_list (map message_work (ws_poll_queue s)) +
     4 * length (ws_job_queue s) + 3 * length (ws_handling s) + 2 * length (ws_reporting s)"

text \<open>What the steps that bring new work may add, themselves included.\<close>

fun new_work :: "worker_event \<Rightarrow> nat" where
  "new_work Tick = 7"
| "new_work (BatchArrived i jobs) = 2 + 5 * length jobs"
| "new_work _ = 0"

definition internal :: "worker_event \<Rightarrow> bool" where
  "internal e \<longleftrightarrow> new_work e = 0"

lemma internal_simps [simp]:
  "\<not> internal Tick" "internal NextMessage" "internal (CallReturned i)" "internal (CallFailed i)"
  "\<not> internal (BatchArrived i jobs)" "internal (SendJob i)" "internal (BatchDone i)"
  "internal (StreamEnded i)" "internal (Announce i)" "internal (TimeOut i)" "internal (Complete i)"
  "internal Dispatch" "internal (HandlerDone j)" "internal (ReportFinished j)"
  by (simp_all add: internal_def)

subsection \<open>Every step uses work up\<close>

lemma sum_list_update_task:
  assumes "task_at s i r phase"
  shows "sum_list (map (\<lambda>a. phase_work (at_phase a)) ((ws_tasks s)[i := Activation r' phase'])) +
      phase_work phase =
    sum_list (map (\<lambda>a. phase_work (at_phase a)) (ws_tasks s)) + phase_work phase'"
proof -
  have i: "i < length (ws_tasks s)" "ws_tasks s ! i = Activation r phase"
    using assms by (simp_all add: task_at_def)
  show ?thesis
    by (subst (2) id_take_nth_drop [OF i(1)], subst upd_conv_take_nth_drop [OF i(1)])
      (simp add: i(2))
qed

lemma work_set_phase:
  assumes "task_at s i r phase"
  shows "work (set_phase i phase' s) + phase_work phase = work s + phase_work phase'"
  using sum_list_update_task [OF assms, of "at_request (ws_tasks s ! i)" phase']
  by (simp add: work_def)

lemma work_set_phase_le:
  "task_at s i r phase \<Longrightarrow> phase_work phase' + 1 \<le> phase_work phase + k \<Longrightarrow>
   work (set_phase i phase' s) + 1 \<le> work s + k"
  using work_set_phase [of s i r phase phase'] by simp

lemma work_queues [simp]:
  "work (s\<lparr>ws_job_queue := q, ws_delivered := d\<rparr>) + 4 * length (ws_job_queue s) =
     work s + 4 * length q"
  "work (s\<lparr>ws_poll_queue := ms\<rparr>) + sum_list (map message_work (ws_poll_queue s)) =
     work s + sum_list (map message_work ms)"
  "work (s\<lparr>ws_lost := k\<rparr>) = work s"
  by (simp_all add: work_def)

lemma phase_work_ge_2: "2 \<le> phase_work phase"
  by (cases phase) simp_all

lemma phase_work_gt_2: "phase \<noteq> Completing \<Longrightarrow> 2 < phase_work phase"
  by (cases phase) simp_all

lemma work_receive:
  assumes "receive m s = Some t"
  shows "work t \<le> work s + (if m = FetchJobs then 6 else 0)"
proof -
  obtain p spawned where m: "on_message (ws_poller s) m = Some (p, spawned)"
    and t: "t = s\<lparr>ws_poller := p,
        ws_tasks := ws_tasks s @ (case spawned of None \<Rightarrow> [] | Some r \<Rightarrow> [Activation r Calling]),
        ws_requests := ws_requests s @ (case spawned of None \<Rightarrow> [] | Some r \<Rightarrow> [r]),
        ws_clipped := ws_clipped s + of_bool (m = JobFinished \<and> jp_remaining (ws_poller s) = 0)\<rparr>"
    using assms by (auto simp: receive_eq_Some_iff)
  from m show ?thesis
    by (cases rule: on_message_cases) (simp_all add: t work_def)
qed

lemma work_complete:
  assumes "task_at s i r Completing"
  shows "work (s\<lparr>ws_tasks := take i (ws_tasks s) @ drop (Suc i) (ws_tasks s),
      ws_poll_queue := ws_poll_queue s @ [FetchJobsComplete]\<rparr>) + 1 = work s"
proof -
  have i: "i < length (ws_tasks s)" "ws_tasks s ! i = Activation r Completing"
    using assms by (simp_all add: task_at_def)
  have "sum_list (map (\<lambda>a. phase_work (at_phase a)) (ws_tasks s)) =
      sum_list (map (\<lambda>a. phase_work (at_phase a)) (take i (ws_tasks s) @ drop (Suc i) (ws_tasks s))) + 2"
    by (subst id_take_nth_drop [OF i(1)]) (simp add: i(2))
  then show ?thesis by (simp add: work_def)
qed

lemma work_step: "worker_step cfg s e t \<Longrightarrow> work t + 1 \<le> work s + new_work e"
proof (induction rule: worker_step.induct)
  case (tick s t)
  with work_receive show ?case by fastforce
next
  case (next_message s m ms t)
  have "work t \<le> work (s\<lparr>ws_poll_queue := ms\<rparr>) + (if m = FetchJobs then 6 else 0)"
    by (rule work_receive [OF next_message(2)])
  moreover have "work (s\<lparr>ws_poll_queue := ms\<rparr>) + message_work m = work s"
    by (simp add: work_def next_message(1))
  ultimately show ?case by (cases m) simp_all
next
  case (send_job s i r n j js)
  let ?s = "s\<lparr>ws_job_queue := ws_job_queue s @ [j], ws_delivered := ws_delivered s @ [j]\<rparr>"
  have "task_at ?s i r (Sending n (j # js))"
    using send_job(1) by (simp add: task_at_def)
  from work_set_phase [OF this, of "Sending n js"] show ?case
    by (simp add: work_def)
next
  case (announce s i r n)
  let ?s = "s\<lparr>ws_poll_queue := ws_poll_queue s @ [JobsArrived n]\<rparr>"
  have "task_at ?s i r (Announcing n)"
    using announce(1) by (simp add: task_at_def)
  from work_set_phase [OF this, of Completing] show ?case
    by (simp add: work_def)
next
  case (time_out s i r phase)
  let ?s = "s\<lparr>ws_lost := ws_lost s + phase_unannounced phase\<rparr>"
  have "task_at ?s i r phase"
    using time_out(1) by (simp add: task_at_def)
  from work_set_phase [OF this, of Completing] phase_work_gt_2 [OF time_out(2)] show ?case
    by simp
next
  case (complete s i r)
  with work_complete show ?case by simp
next
  case (handler_done j s)
  with length_remove1_Suc [of j "ws_handling s"] show ?case by (simp add: work_def)
next
  case (report_finished j s)
  with length_remove1_Suc [of j "ws_reporting s"] show ?case by (simp add: work_def)
next
  case (dispatch s j js)
  then show ?case by (simp add: work_def)
qed (erule work_set_phase_le, simp)+

lemma work_run:
  "run (worker_step cfg) s es t \<Longrightarrow> length es + work t \<le> work s + sum_list (map new_work es)"
proof (induction rule: run.induct)
  case (run_step s e t es u)
  with work_step [OF run_step(1)] show ?case by simp
qed simp

lemma internal_new_work: "list_all internal es \<Longrightarrow> sum_list (map new_work es) = 0"
  by (induction es) (simp_all add: internal_def)

subsection \<open>Coming to rest\<close>

text \<open>No step but a poll interval or the arrival of a batch is possible.\<close>

definition at_rest :: "worker_config \<Rightarrow> worker_state \<Rightarrow> bool" where
  "at_rest cfg s \<longleftrightarrow> (\<forall>e t. internal e \<longrightarrow> \<not> worker_step cfg s e t)"

lemma at_restD: "at_rest cfg s \<Longrightarrow> internal e \<Longrightarrow> \<not> worker_step cfg s e t"
  by (simp add: at_rest_def)

lemma at_rest_no_task:
  assumes "at_rest cfg s" "0 < wc_poll_queue_capacity cfg" "ws_poll_queue s = []"
  shows "ws_tasks s = []"
proof (rule ccontr)
  assume "ws_tasks s \<noteq> []"
  then obtain r phase where at: "task_at s 0 r phase"
    by (cases "ws_tasks s"; cases "hd (ws_tasks s)") (auto simp: task_at_def)
  show False
  proof (cases "phase = Completing")
    case True
    with at at_restD [OF assms(1), of "Complete 0"] assms(2,3) show False
      by (auto simp: worker_step_simps poll_queue_has_room_def)
  next
    case False
    with at at_restD [OF assms(1), of "TimeOut 0"] show False
      by (auto simp: worker_step_simps)
  qed
qed

lemma on_message_some_unless_fetch: "m \<noteq> FetchJobs \<Longrightarrow> \<exists>x. on_message p m = Some x"
  by (cases m) simp_all

lemma at_rest_no_message:
  assumes "at_rest cfg s" "request_inv s"
  shows "ws_poll_queue s = []"
proof (cases "ws_poll_queue s")
  case (Cons m ms)
  with assms(2) have "m \<noteq> FetchJobs"
    by (auto simp: request_inv_def request_shape_no_fetch)
  then obtain p spawned where m: "on_message (ws_poller s) m = Some (p, spawned)"
    using on_message_some_unless_fetch by fastforce
  then have "\<exists>t. worker_step cfg s NextMessage t"
    by (simp add: worker_step_simps Cons receive_eq_Some_iff)
  with at_restD [OF assms(1), of NextMessage] show ?thesis by simp
qed

lemma at_rest_idle:
  assumes rest: "at_rest cfg s" and inv: "request_inv s"
    and cap: "0 < wc_poll_queue_capacity cfg"
  shows "idle s"
proof -
  have queue: "ws_poll_queue s = []"
    by (rule at_rest_no_message [OF rest inv])
  have tasks: "ws_tasks s = []"
    by (rule at_rest_no_task [OF rest cap queue])
  have handling: "ws_handling s = []"
    using at_restD [OF rest, of "HandlerDone (hd (ws_handling s))"]
    by (cases "ws_handling s") (auto simp: worker_step_simps)
  have reporting: "ws_reporting s = []"
    using at_restD [OF rest, of "ReportFinished (hd (ws_reporting s))"] cap queue
    by (cases "ws_reporting s") (auto simp: worker_step_simps poll_queue_has_room_def)
  have jobs: "ws_job_queue s = []"
    using at_restD [OF rest, of Dispatch] handling reporting
    by (cases "ws_job_queue s") (auto simp: worker_step_simps)
  have "\<not> jp_request_in_progress (ws_poller s)"
    using inv queue tasks by (auto simp: request_inv_def elim: request_shape.cases)
  with queue tasks handling reporting jobs show ?thesis
    by (simp add: idle_def)
qed

text \<open>
  C14: A worker that gets no new work comes to rest: from every reachable state, a run without poll
  intervals and arriving batches is no longer than the work that is left (so there is no infinite
  one, whatever the order of the steps), and if it cannot be continued, every job has been handled
  and reported, every message been received and the request been closed. More generally, the
  length of any run is bounded by the work at its start, seven steps per poll interval and two
  per arriving batch and five per job of it.
\<close>

theorem worker_comes_to_rest:
  assumes "initial_poller p" "run (worker_step cfg) (worker_start p) es0 s"
    and "0 < wc_poll_queue_capacity cfg" "run (worker_step cfg) s es t"
  shows "length es \<le> work s + sum_list (map new_work es) \<and>
    (list_all internal es \<longrightarrow> length es \<le> work s) \<and> (at_rest cfg t \<longrightarrow> idle t)"
proof (intro conjI impI)
  show "length es \<le> work s + sum_list (map new_work es)"
    using work_run [OF assms(4)] by simp
  then show "length es \<le> work s" if "list_all internal es"
    using that by (simp add: internal_new_work)
  show "idle t" if "at_rest cfg t"
    using at_rest_idle [OF that _ assms(3)]
      reachable_request_inv [OF assms(1) run_append [OF assms(2,4)]] by blast
qed

text \<open>
  The example worker, after its batch has been taken apart: two more jobs' worth of steps, then
  the end of the stream, and the worker is idle.
\<close>

definition example_rest_events :: "worker_event list" where
  "example_rest_events =
     [Dispatch, HandlerDone (example_job 2), BatchDone 0, StreamEnded 0, Announce 0, NextMessage,
      ReportFinished (example_job 2), NextMessage, Complete 0, NextMessage]"

lemma example_rest_run:
  obtains t where "run (worker_step example_worker_config) example_state example_rest_events t"
    "idle t"
  by (simp add: example_rest_events_def example_state_def run_Cons_iff worker_step_simps
      receive_eq_Some_iff task_at_def set_phase_def example_worker_config_def poll_queue_has_room_def
      dispatcher_has_room_def idle_def)

theorem worker_comes_to_rest_witness:
  "length example_rest_events \<le> work example_state \<and> work example_state = 10"
proof -
  obtain t where t: "run (worker_step example_worker_config) example_state example_rest_events t"
    by (rule example_rest_run)
  have "list_all internal example_rest_events"
    by (simp add: example_rest_events_def)
  with worker_comes_to_rest [OF example_initial example_run _ t] show ?thesis
    by (simp add: example_worker_config_def) (simp add: work_def example_state_def)
qed

end
