(* ===== verification/Worker_Shutdown.thy ===== *)
theory Worker_Shutdown
  imports Worker_Termination
begin

text \<open>
  Stopping a worker, which is done by dropping its future. The poller, the dispatcher, the running
  handlers and the receiving ends of both channels go with it, but not the request task, which
  was spawned: it goes on until its request ends or times out. Its sends now fail at once and their
  errors are ignored (\<open>let _ = ...\<close> in \<open>src/worker/job_poller.rs\<close>), so the jobs the gateway still
  delivers are discarded.
\<close>

subsection \<open>A stopped worker\<close>

record stopped_worker =
  sp_tasks :: "activation list"
  sp_abandoned :: "activated_job list" \<comment> \<open>jobs whose handling ended with the worker\<close>
  sp_discarded :: "activated_job list" \<comment> \<open>jobs delivered to the closed job queue\<close>

definition stop_worker :: "worker_state \<Rightarrow> stopped_worker" where
  "stop_worker s =
     \<lparr>sp_tasks = ws_tasks s, sp_abandoned = ws_job_queue s @ ws_handling s, sp_discarded = []\<rparr>"

definition stopped_task_at :: "stopped_worker \<Rightarrow> nat \<Rightarrow> activate_jobs_request \<Rightarrow> task_phase \<Rightarrow> bool" where
  "stopped_task_at s i r phase \<longleftrightarrow> i < length (sp_tasks s) \<and> sp_tasks s ! i = Activation r phase"

definition stopped_set_phase :: "nat \<Rightarrow> task_phase \<Rightarrow> stopped_worker \<Rightarrow> stopped_worker" where
  "stopped_set_phase i phase s =
     s\<lparr>sp_tasks := (sp_tasks s)[i := Activation (at_request (sp_tasks s ! i)) phase]\<rparr>"

text \<open>
  The steps of the task that is left. The three sends (of a job, of the number of jobs and of the
  completion) fail without waiting for room, and the task goes on as if they had succeeded.
\<close>

inductive stopped_step :: "worker_config \<Rightarrow> stopped_worker \<Rightarrow> worker_event \<Rightarrow> stopped_worker \<Rightarrow> bool"
  for cfg :: worker_config where
  call_returned: "stopped_task_at s i r Calling \<Longrightarrow>
    stopped_step cfg s (CallReturned i) (stopped_set_phase i (Streaming 0) s)"
| call_failed: "stopped_task_at s i r Calling \<Longrightarrow>
    stopped_step cfg s (CallFailed i) (stopped_set_phase i Completing s)"
| batch_arrived: "stopped_task_at s i r (Streaming total_jobs) \<Longrightarrow>
    wc_gateway cfg r (unat total_jobs) jobs \<Longrightarrow>
    stopped_step cfg s (BatchArrived i jobs)
      (stopped_set_phase i (Sending (total_jobs + usize_as_u32 (length jobs)) jobs) s)"
| send_job: "stopped_task_at s i r (Sending total_jobs (j # js)) \<Longrightarrow>
    stopped_step cfg s (SendJob i)
      (stopped_set_phase i (Sending total_jobs js) (s\<lparr>sp_discarded := sp_discarded s @ [j]\<rparr>))"
| batch_done: "stopped_task_at s i r (Sending total_jobs []) \<Longrightarrow>
    stopped_step cfg s (BatchDone i) (stopped_set_phase i (Streaming total_jobs) s)"
| stream_ended: "stopped_task_at s i r (Streaming total_jobs) \<Longrightarrow>
    stopped_step cfg s (StreamEnded i) (stopped_set_phase i (Announcing total_jobs) s)"
| announce: "stopped_task_at s i r (Announcing total_jobs) \<Longrightarrow>
    stopped_step cfg s (Announce i) (stopped_set_phase i Completing s)"
| time_out: "stopped_task_at s i r phase \<Longrightarrow> phase \<noteq> Completing \<Longrightarrow>
    stopped_step cfg s (TimeOut i) (stopped_set_phase i Completing s)"
| complete: "stopped_task_at s i r Completing \<Longrightarrow>
    stopped_step cfg s (Complete i)
      (s\<lparr>sp_tasks := take i (sp_tasks s) @ drop (Suc i) (sp_tasks s)\<rparr>)"

inductive_simps stopped_step_simps:
  "stopped_step cfg s (CallReturned i) t"
  "stopped_step cfg s (CallFailed i) t"
  "stopped_step cfg s (BatchArrived i jobs) t"
  "stopped_step cfg s (SendJob i) t"
  "stopped_step cfg s (BatchDone i) t"
  "stopped_step cfg s (StreamEnded i) t"
  "stopped_step cfg s (Announce i) t"
  "stopped_step cfg s (TimeOut i) t"
  "stopped_step cfg s (Complete i) t"

subsection \<open>What can still be discarded\<close>

fun may_deliver :: "activation \<Rightarrow> nat" where
  "may_deliver (Activation r Calling) = requested r"
| "may_deliver (Activation r (Streaming n)) = requested r - unat n"
| "may_deliver (Activation r (Sending n rest)) = requested r - unat n + length rest"
| "may_deliver (Activation r (Announcing n)) = 0"
| "may_deliver (Activation r Completing) = 0"

lemma may_deliver_budget:
  "phase_ok a \<Longrightarrow> may_deliver a + phase_unannounced (at_phase a) \<le> task_budget a"
  by (cases a rule: phase_ok.cases) auto

text \<open>
  While the task goes on, what it has discarded and what it may still deliver does not grow.
\<close>

definition stopped_inv :: "nat \<Rightarrow> stopped_worker \<Rightarrow> bool" where
  "stopped_inv k s \<longleftrightarrow>
     (\<exists>a. sp_tasks s = [a] \<and> phase_ok a \<and> length (sp_discarded s) + may_deliver a \<le> k) \<or>
     sp_tasks s = [] \<and> length (sp_discarded s) \<le> k"

lemma stopped_inv_task:
  assumes "stopped_inv k s" "stopped_task_at s i r phase"
  shows "i = 0" "sp_tasks s = [Activation r phase]" "phase_ok (Activation r phase)"
    "length (sp_discarded s) + may_deliver (Activation r phase) \<le> k"
  using assms by (auto simp: stopped_inv_def stopped_task_at_def)

lemma stopped_inv_set_phase:
  assumes "stopped_inv k s" "stopped_task_at s i r phase"
    and "phase_ok (Activation r phase')"
      "sp_tasks t = (sp_tasks s)[i := Activation (at_request (sp_tasks s ! i)) phase']"
      "length (sp_discarded t) + may_deliver (Activation r phase') \<le>
        length (sp_discarded s) + may_deliver (Activation r phase)"
  shows "stopped_inv k t"
  using stopped_inv_task [OF assms(1,2)] assms(3-5) by (auto simp: stopped_inv_def)

lemma stopped_set_phase_simps [simp]:
  "sp_tasks (stopped_set_phase i phase s) =
     (sp_tasks s)[i := Activation (at_request (sp_tasks s ! i)) phase]"
  "sp_discarded (stopped_set_phase i phase s) = sp_discarded s"
  "sp_abandoned (stopped_set_phase i phase s) = sp_abandoned s"
  by (simp_all add: stopped_set_phase_def)

lemma stopped_inv_step:
  assumes inv: "stopped_inv k s" and honest: "honest_gateway cfg" and step: "stopped_step cfg s e t"
  shows "stopped_inv k t"
  using step
proof cases
  case (call_returned i r)
  show ?thesis
    by (rule stopped_inv_set_phase [OF inv call_returned(3), where phase' = "Streaming 0"])
      (simp_all add: call_returned)
next
  case (call_failed i r)
  show ?thesis
    by (rule stopped_inv_set_phase [OF inv call_failed(3), where phase' = Completing])
      (simp_all add: call_failed)
next
  case (batch_arrived i r n js)
  note sum = honest_batch [OF honest batch_arrived(4)]
  show ?thesis
    by (rule stopped_inv_set_phase [OF inv batch_arrived(3),
          where phase' = "Sending (n + usize_as_u32 (length js)) js"])
      (use sum in \<open>simp_all add: batch_arrived\<close>)
next
  case (send_job i r n j js)
  show ?thesis
    by (rule stopped_inv_set_phase [OF inv send_job(3), where phase' = "Sending n js"])
      (use stopped_inv_task(3) [OF inv send_job(3)] in \<open>simp_all add: send_job\<close>)
next
  case (batch_done i r n)
  show ?thesis
    by (rule stopped_inv_set_phase [OF inv batch_done(3), where phase' = "Streaming n"])
      (use stopped_inv_task(3) [OF inv batch_done(3)] in \<open>simp_all add: batch_done\<close>)
next
  case (stream_ended i r n)
  show ?thesis
    by (rule stopped_inv_set_phase [OF inv stream_ended(3), where phase' = "Announcing n"])
      (use stopped_inv_task(3) [OF inv stream_ended(3)] in \<open>simp_all add: stream_ended\<close>)
next
  case (announce i r n)
  show ?thesis
    by (rule stopped_inv_set_phase [OF inv announce(3), where phase' = Completing])
      (simp_all add: announce)
next
  case (time_out i r phase)
  show ?thesis
    by (rule stopped_inv_set_phase [OF inv time_out(3), where phase' = Completing])
      (simp_all add: time_out)
next
  case (complete i r)
  with stopped_inv_task [OF inv complete(3)] show ?thesis
    by (simp add: stopped_inv_def)
qed

interpretation stopped: inductive_invariant "stopped_inv k" "stopped_step cfg"
    "\<lambda>s. honest_gateway cfg \<longrightarrow> stopped_inv k s" for k cfg
  by unfold_locales (auto intro: stopped_inv_step)

lemma stopped_run_abandoned:
  "run (stopped_step cfg) s es t \<Longrightarrow> sp_abandoned t = sp_abandoned s"
proof (induction rule: run.induct)
  case (run_step s e t es u)
  from run_step(1) have "sp_abandoned t = sp_abandoned s"
    by cases simp_all
  with run_step show ?case by simp
qed simp

lemma stopped_inv_stop:
  assumes "worker_inv s"
  shows "stopped_inv (sum_list (map may_deliver (ws_tasks s))) (stop_worker s)"
proof -
  have "length (ws_tasks s) \<le> 1"
    using worker_invD(2) [OF assms] by (cases rule: request_shape.cases) auto
  then show ?thesis
    using worker_invD(3) [OF assms]
    by (cases "ws_tasks s") (auto simp: stopped_inv_def stop_worker_def)
qed

lemma lost_at_stop:
  assumes "worker_inv s"
  shows "length (ws_job_queue s) + length (ws_handling s) +
      sum_list (map may_deliver (ws_tasks s)) \<le> unat (jp_max_jobs_active (ws_poller s)) + ws_lost s"
proof -
  have "may_deliver a + phase_unannounced (at_phase a) \<le> task_budget a" if "a \<in> set (ws_tasks s)" for a
    using worker_invD(3) [OF assms that] by (rule may_deliver_budget)
  then have "sum_list (map (\<lambda>a. may_deliver a + phase_unannounced (at_phase a)) (ws_tasks s)) \<le>
      sum_list (map task_budget (ws_tasks s))"
    by (intro sum_list_mono)
  then have "sum_list (map may_deliver (ws_tasks s)) +
      sum_list (map (\<lambda>a. phase_unannounced (at_phase a)) (ws_tasks s)) \<le>
      sum_list (map task_budget (ws_tasks s))"
    by (simp only: sum_list_addf)
  with worker_invD(4,5) [OF assms] show ?thesis
    by (simp add: unannounced_def promised_def outstanding_def)
qed

lemma stopped_run_loses:
  assumes "initial_poller p" "honest_gateway cfg" "run (worker_step cfg) (worker_start p) es s"
    and "run (stopped_step cfg) (stop_worker s) fs t"
  shows "length (sp_abandoned t) + length (sp_discarded t) \<le> unat (jp_max_jobs_active p) + ws_lost s"
proof -
  note inv = reachable_worker_inv [OF assms(1-3)]
  have "stopped_inv (sum_list (map may_deliver (ws_tasks s))) t"
    using stopped.inv_reachable [OF stopped_inv_stop [OF inv] assms(4)] assms(2) by blast
  then have "length (sp_discarded t) \<le> sum_list (map may_deliver (ws_tasks s))"
    by (auto simp: stopped_inv_def)
  moreover have "length (sp_abandoned t) = length (ws_job_queue s) + length (ws_handling s)"
    using stopped_run_abandoned [OF assms(4)] by (simp add: stop_worker_def)
  ultimately show ?thesis
    using lost_at_stop [OF inv] run_max_jobs_active [OF assms(3)] by simp
qed

subsection \<open>The task that is left ends\<close>

definition stopped_work :: "stopped_worker \<Rightarrow> nat" where
  "stopped_work s = sum_list (map (\<lambda>a. phase_work (at_phase a)) (sp_tasks s))"

lemma stopped_work_set_phase_le:
  assumes "stopped_task_at s i r phase" "phase_work phase' + 1 \<le> phase_work phase + k"
    and "sp_tasks t = (sp_tasks s)[i := Activation (at_request (sp_tasks s ! i)) phase']"
  shows "stopped_work t + 1 \<le> stopped_work s + k"
proof -
  let ?s = "(worker_start undefined)\<lparr>ws_tasks := sp_tasks s\<rparr>"
  have "task_at ?s i r phase"
    using assms(1) by (simp add: task_at_def stopped_task_at_def)
  from sum_list_update_task [OF this, of "at_request (sp_tasks s ! i)" phase'] assms(2,3)
  show ?thesis by (simp add: stopped_work_def)
qed

lemma stopped_work_phase:
  "stopped_task_at s i r phase \<Longrightarrow> phase_work phase' + 1 \<le> phase_work phase + k \<Longrightarrow>
   stopped_work (stopped_set_phase i phase' s) + 1 \<le> stopped_work s + k"
  by (rule stopped_work_set_phase_le) simp_all

lemma stopped_work_step: "stopped_step cfg s e t \<Longrightarrow> stopped_work t + 1 \<le> stopped_work s + new_work e"
proof (induction rule: stopped_step.induct)
  case (complete s i r)
  then have i: "i < length (sp_tasks s)" "sp_tasks s ! i = Activation r Completing"
    by (simp_all add: stopped_task_at_def)
  have "sum_list (map (\<lambda>a. phase_work (at_phase a)) (sp_tasks s)) =
      sum_list (map (\<lambda>a. phase_work (at_phase a)) (take i (sp_tasks s) @ drop (Suc i) (sp_tasks s))) + 2"
    by (subst id_take_nth_drop [OF i(1)]) (simp add: i(2))
  then show ?case by (simp add: stopped_work_def)
next
  case (time_out s i r phase)
  show ?case
    by (rule stopped_work_set_phase_le [OF time_out(1), where phase' = Completing])
      (use phase_work_gt_2 [OF time_out(2)] in simp_all)
next
  case (send_job s i r n j js)
  show ?case
    by (rule stopped_work_set_phase_le [OF send_job, where phase' = "Sending n js"])
      (simp_all add: stopped_set_phase_def)
qed (erule stopped_work_phase, simp)+

lemma stopped_work_run:
  "run (stopped_step cfg) s es t \<Longrightarrow> length es + stopped_work t \<le> stopped_work s + sum_list (map new_work es)"
proof (induction rule: run.induct)
  case (run_step s e t es u)
  with stopped_work_step [OF run_step(1)] show ?case by simp
qed simp

lemma stopped_task_moves:
  assumes "sp_tasks s \<noteq> []"
  shows "\<exists>e t. internal e \<and> stopped_step cfg s e t"
proof -
  obtain r phase where at: "stopped_task_at s 0 r phase"
    using assms by (cases "sp_tasks s"; cases "hd (sp_tasks s)") (auto simp: stopped_task_at_def)
  show ?thesis
  proof (cases "phase = Completing")
    case True
    with at stopped_step.complete show ?thesis by (metis internal_simps(11))
  next
    case False
    with at stopped_step.time_out show ?thesis by (metis internal_simps(10))
  qed
qed

text \<open>
  C15: What stopping a worker loses: whenever a running worker (whose gateway delivers at most what it
  is asked for) is stopped by dropping it, the jobs whose handling is abandoned and those that
  its request task, which outlives it, still takes from the gateway and discards are together at
  most the configured limit (plus those of timed out requests); and that task does end: a run of
  it is bounded by its work and what arriving batches add, and where it cannot go on there is
  none left.
\<close>

theorem stopping_loses_at_most_limit:
  assumes "initial_poller p" "honest_gateway cfg" "run (worker_step cfg) (worker_start p) es s"
    and "run (stopped_step cfg) (stop_worker s) fs t"
  shows "length (sp_abandoned t) + length (sp_discarded t) \<le> unat (jp_max_jobs_active p) + ws_lost s \<and>
    length fs \<le> stopped_work (stop_worker s) + sum_list (map new_work fs) \<and>
    ((\<nexists>e u. internal e \<and> stopped_step cfg t e u) \<longrightarrow> sp_tasks t = [])"
proof (intro conjI impI)
  show "length (sp_abandoned t) + length (sp_discarded t) \<le> unat (jp_max_jobs_active p) + ws_lost s"
    by (rule stopped_run_loses [OF assms])
  show "length fs \<le> stopped_work (stop_worker s) + sum_list (map new_work fs)"
    using stopped_work_run [OF assms(4)] by simp
  show "sp_tasks t = []" if "\<nexists>e u. internal e \<and> stopped_step cfg t e u"
    using that stopped_task_moves by blast
qed

text \<open>
  The example worker, stopped with a job in its queue: the gateway delivers one more, which is
  discarded, and the task ends.
\<close>

definition example_stopped_events :: "worker_event list" where
  "example_stopped_events =
     [BatchDone 0, BatchArrived 0 [example_job 3], SendJob 0, BatchDone 0, StreamEnded 0, Announce 0,
      Complete 0]"

lemma example_stopped_run:
  "run (stopped_step example_worker_config) (stop_worker example_state) example_stopped_events
     \<lparr>sp_tasks = [], sp_abandoned = [example_job 2], sp_discarded = [example_job 3]\<rparr>"
  by (simp add: example_stopped_events_def run_Cons_iff stopped_step_simps stopped_task_at_def
      stopped_set_phase_def stop_worker_def example_state_def example_worker_config_def
      example_requested usize_as_u32_def)

theorem stopping_loses_at_most_limit_witness:
  "length [example_job 2] + length [example_job 3] \<le> 32 \<and>
   length example_stopped_events \<le>
     stopped_work (stop_worker example_state) + sum_list (map new_work example_stopped_events)"
  using stopping_loses_at_most_limit [OF example_initial example_honest example_run example_stopped_run]
  by (simp add: example_state_def example_poller_def)

end
