(* ===== verification/Worker_Lifetime.thy ===== *)
theory Worker_Lifetime
  imports Worker_Requests Worker_Shutdown
begin

text \<open>
  A worker from its start to its end. The future of \<open>JobWorkerBuilder::run\<close> does not complete by itself:
  it ends when its owner drops it, or when a handler panics, which unwinds the dispatcher and with
  it the \<open>join!\<close> of both halves (\<open>src/worker/builder.rs\<close>, \<open>src/worker/job_dispatcher.rs\<close>). The spawned
  request task and the refresh of the token outlive it.
\<close>

subsection \<open>Running and stopped\<close>

record left_over =
  lo_worker :: stopped_worker
  lo_call :: call_state
  lo_world :: world

datatype lifetime = Running system | Stopped left_over

datatype lifetime_event =
    Live system_event
  | DropWorker
  | Unwind activated_job string
  | Left worker_event
  | LeftCall nat
  | LeftRefresh nat tick

definition stop_system :: "system \<Rightarrow> world \<Rightarrow> left_over" where
  "stop_system s w = \<lparr>lo_worker = stop_worker (sy_worker s), lo_call = sy_call s, lo_world = w\<rparr>"

text \<open>
  What a panicking handler has done to the world before it panicked stays done. The task that is left
  still makes its call, if it has not made it yet.
\<close>

inductive lifetime_step ::
    "gateway \<Rightarrow> 'v started_worker \<Rightarrow> worker_config \<Rightarrow> lifetime \<Rightarrow> lifetime_event \<Rightarrow> lifetime \<Rightarrow> bool"
  for gw :: gateway and sw :: "'v started_worker" and cfg :: worker_config where
  live: "system_step gw sw cfg s e t \<Longrightarrow> lifetime_step gw sw cfg (Running s) (Live e) (Running t)"
| dropped: "lifetime_step gw sw cfg (Running s) DropWorker (Stopped (stop_system s (sy_world s)))"
| unwound: "j \<in> set (ws_handling (sy_worker s)) \<Longrightarrow>
    dispatch_job (sw_handler sw) (sw_data sw) (sw_client sw) (job_new j) (sy_world s) = (Panic p, w) \<Longrightarrow>
    lifetime_step gw sw cfg (Running s) (Unwind j p) (Stopped (stop_system s w))"
| left: "stopped_step cfg (lo_worker l) e v \<Longrightarrow>
    (case e of CallReturned i \<Rightarrow> lo_call l = CallSent | CallFailed i \<Rightarrow> lo_call l \<noteq> NotMade | _ \<Rightarrow> True) \<Longrightarrow>
    lifetime_step gw sw cfg (Stopped l) (Left e) (Stopped (l\<lparr>lo_worker := v\<rparr>))"
| left_call: "stopped_task_at (lo_worker l) i r Calling \<Longrightarrow> lo_call l = NotMade \<Longrightarrow>
    send_activation gw (sw_client sw) r (lo_world l) = (c, w) \<Longrightarrow>
    lifetime_step gw sw cfg (Stopped l) (LeftCall i) (Stopped (l\<lparr>lo_call := c, lo_world := w\<rparr>))"
| left_refresh: "run_tick k (wd_providers (lo_world l) a) = Ok p \<Longrightarrow>
    lifetime_step gw sw cfg (Stopped l) (LeftRefresh a k)
      (Stopped (l\<lparr>lo_world := (lo_world l)\<lparr>wd_providers := (wd_providers (lo_world l))(a := p)\<rparr>\<rparr>))"

inductive_simps lifetime_step_simps:
  "lifetime_step gw sw cfg l (Live e) m"
  "lifetime_step gw sw cfg l DropWorker m"
  "lifetime_step gw sw cfg l (Unwind j p) m"
  "lifetime_step gw sw cfg l (Left e) m"
  "lifetime_step gw sw cfg l (LeftCall i) m"
  "lifetime_step gw sw cfg l (LeftRefresh a k) m"

fun legal_lifetime_event :: "gateway \<Rightarrow> 'v client \<Rightarrow> lifetime_event \<Rightarrow> bool" where
  "legal_lifetime_event gw c (Live e) = legal_event gw c e"
| "legal_lifetime_event gw c (LeftRefresh a k) = legal_event gw c (RefreshToken a k)"
| "legal_lifetime_event gw c _ = True"

subsection \<open>What a panic leaves\<close>

lemma auto_handler_panics:
  assumes "dispatch_job (auto_handler hf gw xs handler) x c job w = (Panic p, w')"
  shows "\<exists>params. tuple_from_job xs (job_client x c job) job = Ok params \<and>
    (handler params w = (Panic p, w') \<or>
     (\<exists>v err. handler params w = (Ok v, w') \<and> hf_to_value hf v = Inl err \<and> p = ''json!''))"
proof -
  obtain params where ok: "tuple_from_job xs (job_client x c job) job = Ok params"
    using assms tuple_from_job_no_panic [of xs "job_client x c job" job]
    by (cases "tuple_from_job xs (job_client x c job) job")
      (auto simp: auto_handler_reports_once owed_report_def split: sum.splits)
  obtain result w1 where h: "handler params w = (result, w1)"
    by (cases "handler params w")
  show ?thesis
  proof (cases result)
    case (Ok v)
    with assms ok h show ?thesis
      by (cases "hf_to_value hf v")
        (auto simp: auto_handler_reports_once owed_report_def split: sum.splits)
  qed (use assms ok h in \<open>auto simp: auto_handler_reports_once owed_report_def split: sum.splits\<close>)
qed

text \<open>A worker whose handler, when it panics, has not made a request.\<close>

definition panics_quietly :: "'v started_worker \<Rightarrow> bool" where
  "panics_quietly sw \<longleftrightarrow>
     (\<forall>job w p w'. dispatch_job (sw_handler sw) (sw_data sw) (sw_client sw) job w = (Panic p, w') \<longrightarrow>
        w' = w)"

lemma auto_worker_panics_quietly:
  assumes "worker_run channel_ok (with_auto_handler hf gw xs handler b) = Ok sw" "keeps_world handler"
  shows "panics_quietly sw"
  unfolding panics_quietly_def auto_worker(1) [OF assms(1)]
proof (intro allI impI)
  fix job w p w'
  assume "dispatch_job (auto_handler hf gw xs handler) (sw_data sw) (sw_client sw) job w = (Panic p, w')"
  from auto_handler_panics [OF this] assms(2) show "w' = w"
    by (metis keeps_world_def snd_conv)
qed

subsection \<open>The invariant of a lifetime\<close>

definition stopped_from ::
    "gateway \<Rightarrow> 'v started_worker \<Rightarrow> worker_config \<Rightarrow> world \<Rightarrow> left_over \<Rightarrow> system \<Rightarrow> bool" where
  "stopped_from gw sw cfg w0 l s \<longleftrightarrow>
     (\<exists>es. run (system_step gw sw cfg) (system_start sw w0) es s) \<and> report_inv gw sw w0 s \<and>
     (\<exists>fs. run (stopped_step cfg) (stop_worker (sy_worker s)) fs (lo_worker l)) \<and>
     ready gw (sw_client sw) (lo_world l) \<and>
     (\<exists>rest. wd_wire (lo_world l) = wd_wire (sy_world s) @ rest \<and> reported_keys rest = [])"

fun lifetime_inv ::
    "gateway \<Rightarrow> 'v started_worker \<Rightarrow> worker_config \<Rightarrow> world \<Rightarrow> lifetime \<Rightarrow> bool" where
  "lifetime_inv gw sw cfg w0 (Running s) \<longleftrightarrow>
     (\<exists>es. run (system_step gw sw cfg) (system_start sw w0) es s) \<and> report_inv gw sw w0 s"
| "lifetime_inv gw sw cfg w0 (Stopped l) \<longleftrightarrow> (\<exists>s. stopped_from gw sw cfg w0 l s)"

text \<open>A worker stops with the world that it has, if its handlers panic quietly.\<close>

lemma stops_with_world:
  assumes "lifetime_step gw sw cfg (Running s) e (Stopped l)" "panics_quietly sw"
  shows "l = stop_system s (sy_world s)"
  using assms(1)
proof cases
  case (unwound j p w)
  with assms(2) have "w = sy_world s"
    unfolding panics_quietly_def by blast
  with unwound show ?thesis by simp
qed simp

lemma stopped_from_stop:
  assumes "lifetime_inv gw sw cfg w0 (Running s)"
  shows "stopped_from gw sw cfg w0 (stop_system s (sy_world s)) s"
  using assms by (auto simp: stopped_from_def stop_system_def report_inv_def)

lemma stopped_from_send:
  assumes "stopped_from gw sw cfg w0 l s" "send_activation gw (sw_client sw) r (lo_world l) = (c, w)"
  shows "stopped_from gw sw cfg w0 (l\<lparr>lo_call := c, lo_world := w\<rparr>) s"
proof (cases "call_metadata gw (sw_client sw) (lo_world l)")
  case (Inl st)
  with assms show ?thesis by (auto simp: send_activation_def stopped_from_def)
next
  case (Inr md)
  then have w: "w = (lo_world l)\<lparr>wd_wire := wd_wire (lo_world l) @ [(md, ActivateJobs r)]\<rparr>"
    using assms(2) by (simp add: send_activation_def)
  from assms(1) obtain rest where "wd_wire (lo_world l) = wd_wire (sy_world s) @ rest"
      "reported_keys rest = []"
    by (auto simp: stopped_from_def)
  then have "wd_wire w = wd_wire (sy_world s) @ (rest @ [(md, ActivateJobs r)]) \<and>
      reported_keys (rest @ [(md, ActivateJobs r)]) = []"
    by (simp add: w)
  with assms(1) show ?thesis
    unfolding stopped_from_def by (auto simp: w)
qed

lemma stopped_from_step:
  assumes "stopped_from gw sw cfg w0 l s" "lifetime_step gw sw cfg (Stopped l) e m"
    and "legal_lifetime_event gw (sw_client sw) e"
  shows "\<exists>l'. m = Stopped l' \<and> stopped_from gw sw cfg w0 l' s"
  using assms(2)
proof cases
  case (left e' v)
  from assms(1) obtain fs where "run (stopped_step cfg) (stop_worker (sy_worker s)) fs (lo_worker l)"
    by (auto simp: stopped_from_def)
  from run_snoc [OF this, OF left(3)] assms(1) left show ?thesis
    by (auto simp: stopped_from_def)
next
  case (left_call i r c w)
  with stopped_from_send [OF assms(1)] show ?thesis by blast
next
  case (left_refresh k a p)
  with ready_refresh [OF _ left_refresh(3)] assms(1,3) show ?thesis
    by (auto simp: stopped_from_def)
qed

lemma lifetime_inv_step:
  assumes "lifetime_inv gw sw cfg w0 l" "lifetime_step gw sw cfg l e m"
    and "reports_jobs gw sw" "panics_quietly sw" "legal_lifetime_event gw (sw_client sw) e"
  shows "lifetime_inv gw sw cfg w0 m"
proof (cases l)
  case (Stopped l')
  with assms(1,2,5) stopped_from_step [of gw sw cfg w0 l' _ e m] show ?thesis by fastforce
next
  case (Running s)
  note step = assms(2) [unfolded Running]
  show ?thesis
  proof (cases m)
    case (Stopped l')
    with stops_with_world [OF _ assms(4)] stopped_from_stop [of gw sw cfg w0 s] step assms(1) Running
    show ?thesis by (metis lifetime_inv.simps(2))
  next
    case (Running t)
    with step obtain e' where live: "e = Live e'" "system_step gw sw cfg s e' t"
      by (cases rule: lifetime_step.cases) auto
    from assms(1) \<open>l = Running s\<close> obtain es where "run (system_step gw sw cfg) (system_start sw w0) es s"
      by auto
    note run_t = run_snoc [OF this, OF live(2)]
    with assms \<open>l = Running s\<close> Running live report_inv_step [OF _ live(2)] show ?thesis
      by auto
  qed
qed

interpretation lifetimes: inductive_invariant
    "\<lambda>l. l = Running (system_start sw w0) \<and> ready gw (sw_client sw) w0"
    "\<lambda>l e m. reports_jobs gw sw \<and> panics_quietly sw \<and> legal_lifetime_event gw (sw_client sw) e \<and>
       lifetime_step gw sw cfg l e m"
    "lifetime_inv gw sw cfg w0" for gw sw cfg w0
proof unfold_locales
  fix l
  assume "l = Running (system_start sw w0) \<and> ready gw (sw_client sw) w0"
  then show "lifetime_inv gw sw cfg w0 l"
    by (auto simp: report_inv_def system_start_def)
qed (blast intro: lifetime_inv_step)

subsection \<open>Every delivered job is reported or abandoned\<close>

lemma auto_lifetime_inv:
  assumes "worker_run channel_ok (with_auto_handler hf gw xs handler b) = Ok sw"
    and "keeps_world handler" "ready gw (sw_client sw) w"
    and "run (lifetime_step gw sw cfg) (Running (system_start sw w)) es l"
    and "\<forall>e \<in> set es. legal_lifetime_event gw (sw_client sw) e"
  shows "lifetime_inv gw sw cfg w l"
proof -
  have "run (\<lambda>l e m. reports_jobs gw sw \<and> panics_quietly sw \<and>
      legal_lifetime_event gw (sw_client sw) e \<and> lifetime_step gw sw cfg l e m)
      (Running (system_start sw w)) es l"
    using run_restrict [OF assms(4), of "\<lambda>e. reports_jobs gw sw \<and> panics_quietly sw \<and>
        legal_lifetime_event gw (sw_client sw) e"]
      auto_worker_reports_jobs [OF assms(1,2)] auto_worker_panics_quietly [OF assms(1,2)] assms(5)
    by simp
  with lifetimes.inv_reachable [of "Running (system_start sw w)" sw w gw cfg es l] assms(3)
  show ?thesis by simp
qed

lemma stopped_from_account:
  assumes "stopped_from gw sw cfg w0 l s" "initial_poller (sw_poller sw)" "honest_gateway cfg"
  obtains sent where "wd_wire (lo_world l) = wd_wire w0 @ sent"
    "sp_abandoned (lo_worker l) = ws_job_queue (sy_worker s) @ ws_handling (sy_worker s)"
    "mset (map aj_key (ws_delivered (sy_worker s))) =
      mset (reported_keys sent) + mset (map aj_key (sp_abandoned (lo_worker l)))"
    "length (sp_abandoned (lo_worker l)) + length (sp_discarded (lo_worker l)) \<le>
      unat (jp_max_jobs_active (sw_poller sw)) + ws_lost (sy_worker s)"
proof -
  obtain es fs where es: "run (system_step gw sw cfg) (system_start sw w0) es s"
    and fs: "run (stopped_step cfg) (stop_worker (sy_worker s)) fs (lo_worker l)"
    using assms(1) unfolding stopped_from_def by blast
  obtain sent rest where sent: "wd_wire (lo_world l) = wd_wire w0 @ (sent @ rest)"
      "mset (reported_keys (sent @ rest)) =
        mset (map aj_key (ws_reporting (sy_worker s))) + mset (map aj_key (ws_finished (sy_worker s)))"
    using assms(1) unfolding stopped_from_def report_inv_def by auto
  obtain es' where reach: "run (worker_step cfg) (worker_start (sw_poller sw)) es' (sy_worker s)"
    using system_run_worker [OF es] by blast
  have "flow_inv (sy_worker s)"
    using flow.inv_reachable [OF worker_init_start [OF assms(2)] reach] .
  then have "mset (ws_delivered (sy_worker s)) = mset (ws_job_queue (sy_worker s)) +
      mset (ws_handling (sy_worker s)) + mset (ws_reporting (sy_worker s)) +
      mset (ws_finished (sy_worker s))"
    by (simp add: flow_inv_def)
  moreover have abandoned: "sp_abandoned (lo_worker l) =
      ws_job_queue (sy_worker s) @ ws_handling (sy_worker s)"
    using stopped_run_abandoned [OF fs] by (simp add: stop_worker_def)
  ultimately have "mset (map aj_key (ws_delivered (sy_worker s))) =
      mset (reported_keys (sent @ rest)) + mset (map aj_key (sp_abandoned (lo_worker l)))"
    unfolding sent(2) by simp
  moreover have "length (sp_abandoned (lo_worker l)) + length (sp_discarded (lo_worker l)) \<le>
      unat (jp_max_jobs_active (sw_poller sw)) + ws_lost (sy_worker s)"
    using stopped_run_loses [OF assms(2,3) reach fs] .
  ultimately show thesis
    by (rule that [OF sent(1) abandoned])
qed

lemma run_live:
  "run (system_step gw sw cfg) s es t \<Longrightarrow>
   run (lifetime_step gw sw cfg) (Running s) (map Live es) (Running t)"
  by (induction rule: run.induct) (auto intro: run_step lifetime_step.live)

text \<open>A lifetime that has ended is a run of the worker, its end, and what is left.\<close>

lemma ended_lifetime:
  assumes "run (lifetime_step gw sw cfg) x es (Stopped l)" "x = Running s0"
  shows "\<exists>fs e gs s l0. es = map Live fs @ e # gs \<and> run (system_step gw sw cfg) s0 fs s \<and>
    lifetime_step gw sw cfg (Running s) e (Stopped l0) \<and> run (lifetime_step gw sw cfg) (Stopped l0) gs (Stopped l)"
  using assms
proof (induction x es "Stopped l" arbitrary: s0 rule: run.induct)
  case (run_step x e y es)
  show ?case
  proof (cases y)
    case (Running s1)
    with run_step.hyps(1) run_step.prems obtain e' where e': "e = Live e'" "system_step gw sw cfg s0 e' s1"
      by (cases rule: lifetime_step.cases) auto
    from run_step.hyps(3) [OF Running] obtain fs d gs s l0 where rest: "es = map Live fs @ d # gs"
        "run (system_step gw sw cfg) s1 fs s" "lifetime_step gw sw cfg (Running s) d (Stopped l0)"
        "run (lifetime_step gw sw cfg) (Stopped l0) gs (Stopped l)"
      by blast
    have "run (system_step gw sw cfg) s0 (e' # fs) s"
      by (rule run.run_step [OF e'(2) rest(2)])
    with e'(1) rest show ?thesis
      by (intro exI [of _ "e' # fs"] exI [of _ d] exI [of _ gs] exI [of _ s] exI [of _ l0]) simp
  next
    case (Stopped l0)
    with run_step.hyps(1,2) run_step.prems show ?thesis
      by (intro exI [of _ "[]"] exI [of _ e] exI [of _ es] exI [of _ s0] exI [of _ l0]) simp
  qed
qed simp

lemma stopped_from_run:
  assumes "run (lifetime_step gw sw cfg) x es y" "x = Stopped l" "stopped_from gw sw cfg w0 l s"
    and "\<forall>e \<in> set es. legal_lifetime_event gw (sw_client sw) e"
  shows "\<exists>l'. y = Stopped l' \<and> stopped_from gw sw cfg w0 l' s"
  using assms
proof (induction arbitrary: l rule: run.induct)
  case (run_step x e y es z)
  then obtain l' where "y = Stopped l'" "stopped_from gw sw cfg w0 l' s"
    using stopped_from_step [of gw sw cfg w0 l s e y] by auto
  with run_step show ?case by simp
qed blast

text \<open>
  C5: When a worker with an auto handler ends, every job has been reported or abandoned: let the user's
  function not use the client itself, the client be able to make calls (with an identity server
  that issues legal tokens) and the gateway deliver no more than it is asked for. However the worker
  ends (its owner drops it at any time, or a handler panics) and whatever its request task still does
  afterwards, there is a state in which it was stopped, and each job that had been put into the job
  queue by then has been reported once or is abandoned (it was in the queue or in a handler) once,
  never both and never neither; and what is abandoned, and what the task still takes from the
  gateway and discards, is at most the configured limit (plus the jobs of requests that had timed
  out by then).
\<close>

theorem ended_worker_accounts_for_jobs:
  assumes "configure ss (client_job_worker c) = Ok b" "channel_contract channel_ok"
    and "worker_run channel_ok (with_auto_handler hf gw xs handler b) = Ok sw"
    and "keeps_world handler" "ready gw (sw_client sw) w" "honest_gateway cfg"
    and "run (lifetime_step gw sw cfg) (Running (system_start sw w)) es (Stopped l)"
    and "\<forall>e \<in> set es. legal_lifetime_event gw (sw_client sw) e"
  shows "\<exists>fs e gs s l0 sent. es = map Live fs @ e # gs \<and>
    run (system_step gw sw cfg) (system_start sw w) fs s \<and>
    lifetime_step gw sw cfg (Running s) e (Stopped l0) \<and>
    run (lifetime_step gw sw cfg) (Stopped l0) gs (Stopped l) \<and>
    wd_wire (lo_world l) = wd_wire w @ sent \<and>
    sp_abandoned (lo_worker l) = ws_job_queue (sy_worker s) @ ws_handling (sy_worker s) \<and>
    mset (map aj_key (ws_delivered (sy_worker s))) =
      mset (reported_keys sent) + mset (map aj_key (sp_abandoned (lo_worker l))) \<and>
    length (sp_abandoned (lo_worker l)) + length (sp_discarded (lo_worker l)) \<le>
      unat (jp_max_jobs_active (sw_poller sw)) + ws_lost (sy_worker s)"
proof -
  obtain fs e gs s l0 where es: "es = map Live fs @ e # gs"
    and fs: "run (system_step gw sw cfg) (system_start sw w) fs s"
    and e: "lifetime_step gw sw cfg (Running s) e (Stopped l0)"
    and gs: "run (lifetime_step gw sw cfg) (Stopped l0) gs (Stopped l)"
    using ended_lifetime [OF assms(7) refl] by blast
  have legal: "\<forall>e \<in> set (map Live fs). legal_lifetime_event gw (sw_client sw) e"
      "\<forall>e \<in> set gs. legal_lifetime_event gw (sw_client sw) e"
    using assms(8) by (auto simp: es)
  have "lifetime_inv gw sw cfg w (Running s)"
    by (rule auto_lifetime_inv [OF assms(3-5) run_live [OF fs] legal(1)])
  then have "stopped_from gw sw cfg w l0 s"
    using stopped_from_stop stops_with_world [OF e auto_worker_panics_quietly [OF assms(3,4)]] by metis
  with stopped_from_run [OF gs refl _ legal(2)] have s: "stopped_from gw sw cfg w l s"
    by blast
  from stopped_from_account [OF s auto_worker_initial [OF assms(1-3)] assms(6)] obtain sent where
      "wd_wire (lo_world l) = wd_wire w @ sent"
      "sp_abandoned (lo_worker l) = ws_job_queue (sy_worker s) @ ws_handling (sy_worker s)"
      "mset (map aj_key (ws_delivered (sy_worker s))) =
        mset (reported_keys sent) + mset (map aj_key (sp_abandoned (lo_worker l)))"
      "length (sp_abandoned (lo_worker l)) + length (sp_discarded (lo_worker l)) \<le>
        unat (jp_max_jobs_active (sw_poller sw)) + ws_lost (sy_worker s)"
    by blast
  with es fs e gs show ?thesis by blast
qed

text \<open>
  The example worker with two jobs, of which one has been reported and the other is queued when it is
  dropped.
\<close>

definition example_two_jobs_events :: "system_event list" where
  "example_two_jobs_events =
     [Work Tick, MakeCall 0, Work (CallReturned 0), Work (BatchArrived 0 [example_job 1, example_job 2]),
      Work (SendJob 0), Work (SendJob 0), Work Dispatch]"

lemma example_two_jobs_run:
  assumes "sw_client sw = example_client" "sw_poller sw = example_poller"
  shows "\<exists>s. run (system_step example_gateway sw example_worker_config)
      (system_start sw (example_authenticated_world\<lparr>wd_wire := []\<rparr>)) example_two_jobs_events s \<and>
    sy_world s = example_authenticated_world\<lparr>wd_wire :=
      [(example_metadata, ActivateJobs example_request)]\<rparr> \<and>
    sy_worker s = \<lparr>ws_poller = example_polling,
      ws_tasks = [Activation example_request (Sending 2 [])], ws_job_queue = [example_job 2],
      ws_poll_queue = [], ws_handling = [example_job 1], ws_reporting = [],
      ws_requests = [example_request], ws_delivered = [example_job 1, example_job 2],
      ws_started = [example_job 1], ws_finished = [], ws_lost = 0, ws_clipped = 0\<rparr>"
proof -
  have "bears_token example_gateway example_client
      (example_authenticated_world\<lparr>wd_wire := []\<rparr>) example_metadata"
    using example_bears_token [of example_client] by (simp add: bears_token_def)
  then have "call_metadata example_gateway example_client
      (example_authenticated_world\<lparr>wd_wire := []\<rparr>) = Inr example_metadata"
    by (simp add: call_metadata_bears_token)
  then show ?thesis
    by (simp add: example_two_jobs_events_def run_Cons_iff system_step_simps worker_step_simps
        receive_eq_Some_iff system_start_def assms make_call_eq
        example_request_sent example_requested task_at_def set_phase_def worker_start_def
        example_worker_config_def job_queue_has_room_def dispatcher_has_room_def usize_as_u32_def
        del: on_message.simps)
qed

theorem ended_worker_accounts_for_jobs_witness:
  "\<exists>(sw :: nat started_worker) l s. run (lifetime_step example_gateway sw example_worker_config)
      (Running (system_start sw (example_authenticated_world\<lparr>wd_wire := []\<rparr>)))
      (map Live (example_two_jobs_events @ [Work (HandlerDone (example_job 1))]) @ [DropWorker])
      (Stopped l) \<and>
    mset (reported_keys (wd_wire (lo_world l))) = {#1#} \<and> sp_abandoned (lo_worker l) = [example_job 2] \<and>
    mset (map aj_key (ws_delivered (sy_worker (s :: system)))) = {#1, 2#}"
proof -
  obtain sw :: "nat started_worker" where sw: "worker_run example_channel_ok example_auto_builder = Ok sw"
      "sw_client sw = example_client" "sw_poller sw = example_poller"
      "sw_handler sw =
         auto_handler example_formats example_gateway [FromJobItself] example_user_handler"
    by (rule example_auto_started)
  obtain s where s: "run (system_step example_gateway sw example_worker_config)
      (system_start sw (example_authenticated_world\<lparr>wd_wire := []\<rparr>)) example_two_jobs_events s"
      "ws_handling (sy_worker s) = [example_job 1]" "ws_job_queue (sy_worker s) = [example_job 2]"
      "sy_world s = example_authenticated_world\<lparr>wd_wire :=
        [(example_metadata, ActivateJobs example_request)]\<rparr>"
    using example_two_jobs_run [OF sw(2,3)] by fastforce
  obtain t where t: "system_step example_gateway sw example_worker_config s
      (Work (HandlerDone (example_job 1))) t"
      "ws_handling (sy_worker t) = []" "ws_job_queue (sy_worker t) = [example_job 2]"
      "reported_keys (wd_wire (sy_world t)) = [1]"
    using s(2-4) example_dispatch [of "sw_data sw" 1 "[(example_metadata, ActivateJobs example_request)]"]
    by (auto simp: system_step_simps worker_step_simps sw)
  from run_append [OF s(1) run_one [of "system_step example_gateway sw example_worker_config", OF t(1)]]
  have "run (system_step example_gateway sw example_worker_config)
      (system_start sw (example_authenticated_world\<lparr>wd_wire := []\<rparr>))
      (example_two_jobs_events @ [Work (HandlerDone (example_job 1))]) t" .
  from run_append [OF run_live [OF this] run_one [of "lifetime_step example_gateway sw example_worker_config", OF lifetime_step.dropped]]
  have l: "run (lifetime_step example_gateway sw example_worker_config)
      (Running (system_start sw (example_authenticated_world\<lparr>wd_wire := []\<rparr>)))
      (map Live (example_two_jobs_events @ [Work (HandlerDone (example_job 1))]) @ [DropWorker])
      (Stopped (stop_system t (sy_world t)))" .
  have left: "sp_abandoned (lo_worker (stop_system t (sy_world t))) = [example_job 2]"
      "wd_wire (lo_world (stop_system t (sy_world t))) = wd_wire (sy_world t)"
    by (simp_all add: stop_system_def stop_worker_def t)
  have b: "configure [JobType ''payment-service''] (client_job_worker example_client) =
      Ok (with_job_type ''payment-service'' (client_job_worker example_client))"
    by simp
  have kw: "keeps_world example_user_handler"
    by (simp add: keeps_world_def example_user_handler_def)
  have rd: "ready example_gateway (sw_client sw) (example_authenticated_world\<lparr>wd_wire := []\<rparr>)"
    by (simp add: ready_def sw example_usable)
  have lg: "\<forall>e \<in> set (map Live (example_two_jobs_events @ [Work (HandlerDone (example_job 1))]) @ [DropWorker]).
      legal_lifetime_event example_gateway (sw_client sw) e"
    by (auto simp: example_two_jobs_events_def)
  obtain s' :: system and sent where s':
    "wd_wire (sy_world t) = wd_wire (example_authenticated_world\<lparr>wd_wire := []\<rparr>) @ sent"
    "mset (map aj_key (ws_delivered (sy_worker s'))) =
       mset (reported_keys sent) + mset (map aj_key [example_job 2])"
    using ended_worker_accounts_for_jobs [OF b example_channel_contract(1)
        sw(1) [unfolded example_auto_builder_def] kw rd example_honest l lg] unfolding left by blast
  then have "mset (map aj_key (ws_delivered (sy_worker s'))) = {#1, 2#}"
    using t(4) by (simp add: example_job_def)
  with l left t(4) show ?thesis
    by (intro exI [of _ sw] exI [of _ "stop_system t (sy_world t)"] exI [of _ s']) simp
qed

subsection \<open>A result that does not serialize\<close>

text \<open>The user's function returns a value for this job that does not serialize.\<close>

definition unserializable ::
    "('j, 'o) handler_formats \<Rightarrow> 'd extractor list \<Rightarrow> ('v, 'd, 'o) user_handler \<Rightarrow> 'v started_worker
      \<Rightarrow> activated_job \<Rightarrow> world \<Rightarrow> bool" where
  "unserializable hf xs handler sw j w \<longleftrightarrow>
     (\<exists>params v w' err.
        tuple_from_job xs (job_client (sw_data sw) (sw_client sw) (job_new j)) (job_new j) = Ok params \<and>
        handler params w = (Ok v, w') \<and> hf_to_value hf v = Inl err)"

lemma unserializable_panics:
  assumes "unserializable hf xs handler sw j w"
  shows "\<exists>w'. dispatch_job (auto_handler hf gw xs handler) (sw_data sw) (sw_client sw) (job_new j) w =
    (Panic ''json!'', w')"
  using assms by (auto simp: unserializable_def auto_handler_reports_once owed_report_def)

definition not_done :: "activated_job \<Rightarrow> lifetime \<Rightarrow> bool" where
  "not_done j l \<longleftrightarrow>
     (case l of
        Running s \<Rightarrow> j \<notin># mset (ws_reporting (sy_worker s)) + mset (ws_finished (sy_worker s))
      | Stopped l \<Rightarrow> True)"

lemma not_done_step:
  assumes "not_done j l" "lifetime_step gw sw cfg l e m"
    and "\<And>w. unserializable hf xs handler sw j w" "sw_handler sw = auto_handler hf gw xs handler"
  shows "not_done j m"
  using assms(2)
proof cases
  case (live s e' t)
  have before: "j \<notin># mset (ws_reporting (sy_worker s)) + mset (ws_finished (sy_worker s))"
    using assms(1) live by (simp add: not_done_def)
  have "j \<notin># mset (ws_reporting (sy_worker t)) + mset (ws_finished (sy_worker t))"
    using live(4)
  proof cases
    case (advance e u)
    with before worker_step_reported [OF advance(3)] show ?thesis
      by (cases e) (auto simp: union_commute)
  next
    case (returned i u)
    with before worker_step_reported [OF returned(3)] show ?thesis by auto
  next
    case (failed i u)
    with before worker_step_reported [OF failed(3)] show ?thesis by auto
  next
    case (handled j' u w)
    moreover obtain w' where "dispatch_job (sw_handler sw) (sw_data sw) (sw_client sw) (job_new j)
        (sy_world s) = (Panic ''json!'', w')"
      using unserializable_panics [OF assms(3)] assms(4) by metis
    ultimately have "j' \<noteq> j" by auto
    moreover note handled
    ultimately show ?thesis
      using before worker_step_reported [OF handled(3)] by auto
  qed (use before in auto)
  with live show ?thesis by (simp add: not_done_def)
qed (simp_all add: not_done_def)

lemma not_done_run:
  "run (lifetime_step gw sw cfg) l es m \<Longrightarrow> not_done j l \<Longrightarrow>
   (\<And>w. unserializable hf xs handler sw j w) \<Longrightarrow> sw_handler sw = auto_handler hf gw xs handler \<Longrightarrow>
   not_done j m"
  by (induction rule: run.induct) (auto dest: not_done_step)

fun world_of :: "lifetime \<Rightarrow> world" where
  "world_of (Running s) = sy_world s"
| "world_of (Stopped l) = lo_world l"

text \<open>The reports at any time of a lifetime are on the jobs that were done while the worker ran.\<close>

lemma lifetime_inv_wire:
  assumes "lifetime_inv gw sw cfg w0 m"
  obtains fs s sent where "run (system_step gw sw cfg) (system_start sw w0) fs s"
    "wd_wire (world_of m) = wd_wire w0 @ sent"
    "mset (reported_keys sent) = mset (map aj_key (ws_reporting (sy_worker s))) +
       mset (map aj_key (ws_finished (sy_worker s)))"
proof (cases m)
  case (Running s)
  with assms that show thesis
    by (auto simp: report_inv_def)
next
  case (Stopped l)
  with assms obtain s where s: "stopped_from gw sw cfg w0 l s" by auto
  then obtain fs sent rest where
      "run (system_step gw sw cfg) (system_start sw w0) fs s"
      "wd_wire (lo_world l) = wd_wire w0 @ (sent @ rest)"
      "mset (reported_keys (sent @ rest)) = mset (map aj_key (ws_reporting (sy_worker s))) +
        mset (map aj_key (ws_finished (sy_worker s)))"
    unfolding stopped_from_def report_inv_def by auto
  with Stopped that show thesis by auto
qed

lemma unserializable_never_done:
  assumes "run (system_step gw sw cfg) (system_start sw w) fs s"
    and "sw_handler sw = auto_handler hf gw xs handler"
    and "\<And>j w. aj_key j = key \<Longrightarrow> unserializable hf xs handler sw j w"
  shows "key \<notin> aj_key ` (set (ws_reporting (sy_worker s)) \<union> set (ws_finished (sy_worker s)))"
proof
  assume "key \<in> aj_key ` (set (ws_reporting (sy_worker s)) \<union> set (ws_finished (sy_worker s)))"
  then obtain j where j: "aj_key j = key"
      "j \<in> set (ws_reporting (sy_worker s)) \<union> set (ws_finished (sy_worker s))"
    by blast
  have "not_done j (Running (system_start sw w))"
    by (simp add: not_done_def system_start_def)
  from not_done_run [OF run_live [OF assms(1)] this assms(3) [OF j(1)] assms(2)] j(2) show False
    by (auto simp: not_done_def)
qed

text \<open>
  C17: A result that does not serialize ends the worker instead of failing its job. Suppose the user's
  function (which does not use the client itself) returns a value that does not serialize for every
  job with a certain key. Then throughout the lifetime of the worker, before and after its end, no
  request about that key goes out, neither a completion nor a failure; no such job is ever done; and
  while one is being handled, all its handler can do is to unwind the worker, sending nothing, which
  abandons every job that is queued or being handled.
\<close>

theorem unserializable_result_ends_worker:
  assumes "worker_run channel_ok (with_auto_handler hf gw xs handler b) = Ok sw"
    and "keeps_world handler" "ready gw (sw_client sw) w"
    and "\<And>j w. aj_key j = key \<Longrightarrow> unserializable hf xs handler sw j w"
    and "run (lifetime_step gw sw cfg) (Running (system_start sw w)) es m"
    and "\<forall>e \<in> set es. legal_lifetime_event gw (sw_client sw) e"
  shows "(\<exists>sent. wd_wire (world_of m) = wd_wire w @ sent \<and> (\<forall>(md, r) \<in> set sent. job_key_of r \<noteq> Some key)) \<and>
    (\<forall>s j. m = Running s \<longrightarrow> aj_key j = key \<longrightarrow>
       j \<notin> set (ws_reporting (sy_worker s)) \<union> set (ws_finished (sy_worker s)) \<and>
       (\<forall>t. \<not> system_step gw sw cfg s (Work (HandlerDone j)) t) \<and>
       (j \<in> set (ws_handling (sy_worker s)) \<longrightarrow>
          (\<exists>l. lifetime_step gw sw cfg (Running s) (Unwind j ''json!'') (Stopped l) \<and>
             lo_world l = sy_world s \<and>
             sp_abandoned (lo_worker l) = ws_job_queue (sy_worker s) @ ws_handling (sy_worker s))))"
proof -
  note handler = auto_worker(1) [OF assms(1)]
  note inv = auto_lifetime_inv [OF assms(1-3,5,6)]
  have "\<exists>sent. wd_wire (world_of m) = wd_wire w @ sent \<and> (\<forall>(md, r) \<in> set sent. job_key_of r \<noteq> Some key)"
  proof (rule lifetime_inv_wire [OF inv])
    fix fs s sent
    assume s: "run (system_step gw sw cfg) (system_start sw w) fs s"
      and sent: "wd_wire (world_of m) = wd_wire w @ sent"
      and keys: "mset (reported_keys sent) = mset (map aj_key (ws_reporting (sy_worker s))) +
        mset (map aj_key (ws_finished (sy_worker s)))"
    have "key \<notin> set (reported_keys sent)"
      using unserializable_never_done [OF s handler assms(4)] arg_cong [OF keys, of set_mset]
      by (simp add: image_Un)
    then have "\<forall>(md, r) \<in> set sent. job_key_of r \<noteq> Some key"
      using reported_keys_member by fast
    with sent show ?thesis by blast
  qed
  moreover have "j \<notin> set (ws_reporting (sy_worker s)) \<union> set (ws_finished (sy_worker s)) \<and>
      (\<forall>t. \<not> system_step gw sw cfg s (Work (HandlerDone j)) t) \<and>
      (j \<in> set (ws_handling (sy_worker s)) \<longrightarrow>
         (\<exists>l. lifetime_step gw sw cfg (Running s) (Unwind j ''json!'') (Stopped l) \<and>
            lo_world l = sy_world s \<and>
            sp_abandoned (lo_worker l) = ws_job_queue (sy_worker s) @ ws_handling (sy_worker s)))"
    if m: "m = Running s" and j: "aj_key j = key" for s j
  proof -
    obtain fs where "run (system_step gw sw cfg) (system_start sw w) fs s"
      using inv m by auto
    from unserializable_never_done [OF this handler assms(4)] j
    have "j \<notin> set (ws_reporting (sy_worker s)) \<union> set (ws_finished (sy_worker s))"
      by blast
    moreover obtain w' where panics: "dispatch_job (sw_handler sw) (sw_data sw) (sw_client sw)
        (job_new j) (sy_world s) = (Panic ''json!'', w')"
      using unserializable_panics [OF assms(4) [OF j]] handler by metis
    then have "\<not> system_step gw sw cfg s (Work (HandlerDone j)) t" for t
      by (simp add: system_step_simps)
    moreover have "w' = sy_world s"
      using auto_worker_panics_quietly [OF assms(1,2)] panics unfolding panics_quietly_def by blast
    then have "\<exists>l. lifetime_step gw sw cfg (Running s) (Unwind j ''json!'') (Stopped l) \<and>
        lo_world l = sy_world s \<and>
        sp_abandoned (lo_worker l) = ws_job_queue (sy_worker s) @ ws_handling (sy_worker s)"
      if "j \<in> set (ws_handling (sy_worker s))"
      using lifetime_step.unwound [OF that panics]
      by (intro exI [of _ "stop_system s w'"]) (simp add: stop_system_def stop_worker_def)
    ultimately show ?thesis by blast
  qed
  ultimately show ?thesis by blast
qed

text \<open>The example worker, with a result that does not serialize.\<close>

definition example_bad_formats :: "(string, string) handler_formats" where
  "example_bad_formats = example_formats\<lparr>hf_to_value := (\<lambda>v. Inl ''key must be a string'')\<rparr>"

lemma example_bad_started:
  obtains sw where "worker_run example_channel_ok
      (with_auto_handler example_bad_formats example_gateway [FromJobItself] example_user_handler
        (with_job_type ''payment-service'' (client_job_worker example_client))) = Ok sw"
    "sw_client sw = example_client" "sw_poller sw = example_poller"
proof -
  obtain sw where sw: "worker_run example_channel_ok
      (with_auto_handler example_bad_formats example_gateway [FromJobItself] example_user_handler
        (with_job_type ''payment-service'' (client_job_worker example_client))) = Ok sw"
      "sw_poller sw = example_poller"
    using default_worker_run [of example_channel_ok
        "auto_handler_body example_bad_formats example_gateway [FromJobItself] example_user_handler"
        example_client]
    by (auto simp: with_auto_handler_def example_channel_ok_def)
  then show thesis
    by (intro that)
      (auto simp: auto_worker(4) with_job_type_def client_job_worker_def job_worker_builder_new_def)
qed

theorem unserializable_result_ends_worker_witness:
  "\<exists>(sw :: nat started_worker) s l. run (system_step example_gateway sw example_worker_config)
      (system_start sw (example_authenticated_world\<lparr>wd_wire := []\<rparr>)) example_two_jobs_events s \<and>
    lifetime_step example_gateway sw example_worker_config (Running s)
      (Unwind (example_job 1) ''json!'') (Stopped l) \<and>
    sp_abandoned (lo_worker l) = [example_job 2, example_job 1] \<and>
    (\<forall>(md, r) \<in> set (wd_wire (lo_world l)). job_key_of r \<noteq> Some 1)"
proof -
  obtain sw :: "nat started_worker" where sw: "worker_run example_channel_ok
      (with_auto_handler example_bad_formats example_gateway [FromJobItself] example_user_handler
        (with_job_type ''payment-service'' (client_job_worker example_client))) = Ok sw"
      "sw_client sw = example_client" "sw_poller sw = example_poller"
    by (rule example_bad_started)
  obtain s where s: "run (system_step example_gateway sw example_worker_config)
      (system_start sw (example_authenticated_world\<lparr>wd_wire := []\<rparr>)) example_two_jobs_events s"
      "ws_handling (sy_worker s) = [example_job 1]" "ws_job_queue (sy_worker s) = [example_job 2]"
    using example_two_jobs_run [OF sw(2,3)] by fastforce
  have bad: "unserializable example_bad_formats [FromJobItself] example_user_handler sw j w" for j w
    by (simp add: unserializable_def tuple_from_job_def example_user_handler_def example_bad_formats_def)
  have kw: "keeps_world example_user_handler"
    by (simp add: keeps_world_def example_user_handler_def)
  have rd: "ready example_gateway (sw_client sw) (example_authenticated_world\<lparr>wd_wire := []\<rparr>)"
    by (simp add: ready_def sw example_usable)
  have lg: "\<forall>e \<in> set (map Live example_two_jobs_events). legal_lifetime_event example_gateway (sw_client sw) e"
    by (auto simp: example_two_jobs_events_def)
  have key: "aj_key (example_job 1) = 1" "example_job 1 \<in> set (ws_handling (sy_worker s))"
    by (simp_all add: example_job_def s(2))
  from unserializable_result_ends_worker [where key = 1, OF sw(1) kw rd bad run_live [OF s(1)] lg]
  have "\<forall>(md, r) \<in> set (wd_wire (sy_world s)). job_key_of r \<noteq> Some 1"
    and "\<exists>l. lifetime_step example_gateway sw example_worker_config (Running s)
      (Unwind (example_job 1) ''json!'') (Stopped l) \<and> lo_world l = sy_world s \<and>
      sp_abandoned (lo_worker l) = ws_job_queue (sy_worker s) @ ws_handling (sy_worker s)"
    using key by auto
  then obtain l where "lifetime_step example_gateway sw example_worker_config (Running s)
      (Unwind (example_job 1) ''json!'') (Stopped l)" "lo_world l = sy_world s"
      "sp_abandoned (lo_worker l) = [example_job 2, example_job 1]"
      "\<forall>(md, r) \<in> set (wd_wire (sy_world s)). job_key_of r \<noteq> Some 1"
    using s(2,3) by auto
  with s(1) show ?thesis
    by (intro exI [of _ sw] exI [of _ s] exI [of _ l]) simp
qed

end
