(* ===== verification/Program_Reports.thy ===== *)
theory Program_Reports
  imports Worker_Programs Worker_Lifetime
begin

text \<open>
  What handlers that use the client report (\<open>src/worker/builder.rs\<close>): an auto handler whose user's
  function makes requests of its own still reports its job exactly once, however the operations of
  all handlers interleave, and every handler can be done. The worker of \<open>Worker_Reports\<close>, whose
  handlers run in one step, is a special case of the one here.
\<close>

subsection \<open>Programs that report their job once\<close>

definition request_keys :: "grpc_request list \<Rightarrow> i64 list" where
  "request_keys ms = concat (map (\<lambda>m. case job_key_of m of None \<Rightarrow> [] | Some k \<Rightarrow> [k]) ms)"

definition about_no_job :: "'j serde_json \<Rightarrow> files \<Rightarrow> ('v, 'j) command \<Rightarrow> bool" where
  "about_no_job sj fs c \<longleftrightarrow> (\<forall>m. command_request sj fs c = Ok m \<longrightarrow> job_key_of m = None)"

definition reports_job :: "'j serde_json \<Rightarrow> files \<Rightarrow> i64 \<Rightarrow> ('v, 'j) command \<Rightarrow> bool" where
  "reports_job sj fs key c \<longleftrightarrow> (\<exists>m. command_request sj fs c = Ok m \<and> job_key_of m = Some key)"

text \<open>
  A program that owes the report on a job: it ends with an operation that reports the job, and makes no
  other request about a job before (or it unwinds).
\<close>

primrec owes_report :: "'j serde_json \<Rightarrow> files \<Rightarrow> i64 \<Rightarrow> ('v, 'j, unit) program \<Rightarrow> bool" where
  "owes_report sj fs key (Return x) = False"
| "owes_report sj fs key (Unwinds p) = True"
| "owes_report sj fs key (Await c k) =
     (reports_job sj fs key c \<and> (\<forall>r. k r = Return ()) \<or>
      about_no_job sj fs c \<and> (\<forall>r. owes_report sj fs key (k r)))"

lemma owes_report_bind:
  "all_commands (about_no_job sj fs) p \<Longrightarrow> (\<And>x. owes_report sj fs key (f x)) \<Longrightarrow>
   owes_report sj fs key (bind_program p f)"
  by (induction p) simp_all

lemma owes_send_and_return [simp]: "owes_report sj fs key (send_and_return c) \<longleftrightarrow>
  reports_job sj fs key c"
  by (auto simp: send_and_return_def)

lemma request_keys_simps [simp]:
  "request_keys [] = []"
  "request_keys (ms @ ms') = request_keys ms @ request_keys ms'"
  by (simp_all add: request_keys_def)

lemma reported_keys_requests: "reported_keys ws = request_keys (handler_requests ws)"
proof (induction ws rule: reported_keys.induct)
  case (2 md r ws)
  then show ?case
    by (cases "activation r") (auto simp: request_keys_def handler_requests_def elim!: activation.elims split: option.splits)
qed (simp add: request_keys_def handler_requests_def)

lemma exchange_keys:
  "reports_job sj fs key c \<Longrightarrow> request_keys (exchange_request sj fs (c, r)) = [key]"
  "about_no_job sj fs c \<Longrightarrow> request_keys (exchange_request sj fs (c, r)) = []"
  by (auto simp: reports_job_def about_no_job_def exchange_request_def request_keys_def split: outcome.splits)

subsection \<open>The account of reports\<close>

definition unreported :: "(nat \<times> ('v, 'j, unit) program) list \<Rightarrow> (nat \<times> ('v, 'j, unit) program) list" where
  "unreported running = filter (\<lambda>r. snd r \<noteq> Return ()) running"

definition reports_inv ::
    "('v, 'j) handler_program \<Rightarrow> 'j serde_json \<Rightarrow> files \<Rightarrow> 'v started_worker \<Rightarrow> ('v, 'j) program_system \<Rightarrow> bool" where
  "reports_inv prog sj fs sw x \<longleftrightarrow>
     (let started = ws_started (sy_worker (ps_system x)) in
        program_inv prog sw x \<and>
        (\<forall>(n, p) \<in> set (unreported (ps_running x)). owes_report sj fs (aj_key (started ! n)) p) \<and>
        mset (request_keys (conversation_requests sj fs (map snd (ps_log x)))) +
          image_mset aj_key (jobs_of started (unreported (ps_running x))) =
        image_mset aj_key (mset started))"

lemma unreported_simps [simp]:
  "unreported [] = []"
  "unreported (as @ bs) = unreported as @ unreported bs"
  "unreported ((n, p) # bs) = (if p = Return () then unreported bs else (n, p) # unreported bs)"
  by (simp_all add: unreported_def)

lemma unreported_subset: "set (unreported running) \<subseteq> set running"
  by (simp add: unreported_def)

lemma reports_inv_step:
  assumes inv: "reports_inv prog sj fs sw x" and step: "program_step prog sj fs gw sw cfg x e y"
    and owes: "\<And>j. owes_report sj fs (aj_key j) (program_of prog sw j)"
  shows "reports_inv prog sj fs sw y"
proof -
  let ?started = "ws_started (sy_worker (ps_system x))"
  have old: "program_inv prog sw x"
    and mine: "\<forall>(n, p) \<in> set (unreported (ps_running x)). owes_report sj fs (aj_key (?started ! n)) p"
    and account: "mset (request_keys (conversation_requests sj fs (map snd (ps_log x)))) +
        image_mset aj_key (jobs_of ?started (unreported (ps_running x))) = image_mset aj_key (mset ?started)"
    using inv by (simp_all add: reports_inv_def Let_def)
  have new: "program_inv prog sw y"
    by (rule program_inv_step [OF old step])
  show ?thesis
    using step
  proof cases
    case (environment e' t)
    with new mine account system_step_started [OF environment(3-5)] show ?thesis
      by (simp add: reports_inv_def Let_def)
  next
    case (start u j)
    have below: "n < length ?started" if "n \<in> fst ` set (unreported (ps_running x))" for n
      using old that unreported_subset [of "ps_running x"] by (auto simp: program_inv_def Let_def)
    then have "jobs_of (?started @ [j]) (unreported (ps_running x)) = jobs_of ?started (unreported (ps_running x))"
      by (rule jobs_of_started)
    moreover have "program_of prog sw j \<noteq> Return ()"
      using owes [of j] by auto
    moreover have "\<forall>(n, p) \<in> set (unreported (ps_running x)). owes_report sj fs (aj_key ((?started @ [j]) ! n)) p"
      using mine below by (force simp: nth_append)
    ultimately show ?thesis
      using new account owes start(1,4)
      by (simp add: reports_inv_def Let_def start(2) ac_simps)
  next
    case (operate i n c k r w)
    obtain as bs where split: "ps_running x = as @ (n, Await c k) # bs"
        "(ps_running x)[i := (n, k r)] = as @ (n, k r) # bs"
      by (rule at_index [OF operate(3,4)])
    from mine have "owes_report sj fs (aj_key (?started ! n)) (Await c k)"
      by (simp add: split(1))
    then consider (report) "reports_job sj fs (aj_key (?started ! n)) c" "k r = Return ()"
      | (other) "about_no_job sj fs c" "owes_report sj fs (aj_key (?started ! n)) (k r)"
      by auto
    note owed = this and new = new [unfolded operate(2) split(2)]
    show ?thesis
    proof (cases rule: owed)
      case report
      with new mine account show ?thesis
        unfolding operate(2) split(2)
        by (simp add: reports_inv_def Let_def split(1) exchange_keys conversation_requests_def ac_simps)
    next
      case other
      then have "k r \<noteq> Return ()" by auto
      with other new mine account show ?thesis
        unfolding operate(2) split(2)
        by (simp add: reports_inv_def Let_def split(1) exchange_keys conversation_requests_def ac_simps)
    qed
  next
    case (finish i n u)
    obtain as bs where split: "ps_running x = as @ (n, Return ()) # bs"
        "take i (ps_running x) @ drop (Suc i) (ps_running x) = as @ bs"
      by (rule at_index [OF finish(3,4)])
    have "ws_started u = ?started"
      using handler_done_started [OF finish(5)] .
    with new mine account show ?thesis
      unfolding finish(2) split(2) by (simp add: reports_inv_def Let_def split(1))
  qed
qed

interpretation program_reports: inductive_invariant
    "\<lambda>x. \<exists>w. x = program_start sw w \<and> initial_poller (sw_poller sw)"
    "\<lambda>x e y. (\<forall>j. owes_report sj fs (aj_key j) (program_of prog sw j)) \<and>
       program_step prog sj fs gw sw cfg x e y"
    "reports_inv prog sj fs sw" for prog sj fs gw sw cfg
proof unfold_locales
  show "reports_inv prog sj fs sw y"
    if "reports_inv prog sj fs sw x" "(\<forall>j. owes_report sj fs (aj_key j) (program_of prog sw j)) \<and>
       program_step prog sj fs gw sw cfg x e y" for x e y
    using that by (blast intro: reports_inv_step)
  show "reports_inv prog sj fs sw x" if "\<exists>w. x = program_start sw w \<and> initial_poller (sw_poller sw)" for x
    using that programs.inv_init [OF that]
    by (auto simp: reports_inv_def program_start_def system_start_def worker_start_def)
qed

text \<open>
  The function of an auto handler that uses the client it was handed, for other things than jobs: for
  all parameters it is called with.
\<close>

definition minds_its_job ::
    "'j serde_json \<Rightarrow> files \<Rightarrow> 'v started_worker \<Rightarrow> 'd extractor list \<Rightarrow> ('v, 'j, 'd, 'o) user_program \<Rightarrow> bool" where
  "minds_its_job sj fs sw xs user \<longleftrightarrow>
     (\<forall>job params. tuple_from_job xs (job_client (sw_data sw) (sw_client sw) job) job = Ok params \<longrightarrow>
        all_commands (\<lambda>c. uses_client sw c \<and> about_no_job sj fs c) (user params))"

lemma all_commands_conj:
  "all_commands (\<lambda>c. P c \<and> Q c) p \<longleftrightarrow> all_commands P p \<and> all_commands Q p"
  by (induction p) auto

lemma auto_owes_report:
  assumes "cl_current_job_key client = Some key"
  shows "owes_report sj fs key (failing client m)"
    and "owes_report (hf_json hf) fs key (completing hf client v)"
proof -
  show "owes_report sj fs key (failing client m)"
    using fail_report_request [OF assms, of m] by (simp add: failing_def reports_job_def)
  show "owes_report (hf_json hf) fs key (completing hf client v)"
    using complete_report_request [OF assms, of "hf_json hf"]
    by (simp add: completing_def reports_job_def del: message_of_simps(4) split: sum.split)
qed

lemma auto_uses_client:
  assumes "cl_gateway_interceptor client = cl_gateway_interceptor (sw_client sw)"
  shows "all_commands (uses_client sw) (failing client m)"
    "all_commands (uses_client sw) (completing hf client v)"
  using assms by (auto simp: failing_def completing_def send_and_return_def uses_client_def split: sum.splits)

lemma auto_program_minds_its_job:
  assumes "minds_its_job (hf_json hf) fs sw xs user"
  shows "owes_report (hf_json hf) fs (aj_key j) (program_of (auto_program hf xs user) sw j)"
    and "all_commands (uses_client sw) (program_of (auto_program hf xs user) sw j)"
proof -
  let ?c = "job_client (sw_data sw) (sw_client sw) (job_new j)"
  have c: "cl_current_job_key ?c = Some (aj_key j)"
      "cl_gateway_interceptor ?c = cl_gateway_interceptor (sw_client sw)"
    by simp_all
  have user: "all_commands (uses_client sw) (user params) \<and> all_commands (about_no_job (hf_json hf) fs) (user params)"
    if "tuple_from_job xs ?c (job_new j) = Ok params" for params
    using assms that by (auto simp: minds_its_job_def all_commands_conj)
  show "owes_report (hf_json hf) fs (aj_key j) (program_of (auto_program hf xs user) sw j)"
    using user tuple_from_job_no_panic [of xs ?c "job_new j"]
    by (auto simp: program_of_def auto_program_def auto_owes_report [OF c(1)] split: outcome.splits sum.splits
        intro!: owes_report_bind)
  show "all_commands (uses_client sw) (program_of (auto_program hf xs user) sw j)"
    using user
    by (auto simp: program_of_def auto_program_def auto_uses_client [OF c(2)] split: outcome.splits sum.splits
        intro!: all_commands_bind)
qed

lemma auto_worker_account:
  assumes "initial_poller (sw_poller sw)" "minds_its_job (hf_json hf) fs sw xs user"
    and "ready gw (sw_client sw) w"
    and "run (program_step (auto_program hf xs user) (hf_json hf) fs gw sw cfg) (program_start sw w) es x"
    and "\<forall>e \<in> set es. legal_program_event gw (sw_client sw) e"
  shows "program_inv (auto_program hf xs user) sw x \<and>
    (\<exists>sent. wd_wire (sy_world (ps_system x)) = wd_wire w @ sent \<and>
       (\<forall>(md, m) \<in> set sent. credentials gw (sw_client sw) md) \<and>
       mset (reported_keys sent) +
         image_mset aj_key (jobs_of (ws_started (sy_worker (ps_system x))) (unreported (ps_running x))) =
       image_mset aj_key (mset (ws_started (sy_worker (ps_system x)))))"
proof -
  note auto = auto_program_minds_its_job [OF assms(2)]
  have "reports_inv (auto_program hf xs user) (hf_json hf) fs sw x"
    using program_reports.inv_reachable [OF _ run_restrict [OF assms(4), of "\<lambda>e.
        \<forall>j. owes_report (hf_json hf) fs (aj_key j) (program_of (auto_program hf xs user) sw j)"]]
      assms(1) auto(1) by blast
  moreover have "program_wire_inv (hf_json hf) fs gw sw w x"
    using program_wire.inv_reachable [OF _ run_restrict [OF assms(4), of "\<lambda>e.
        legal_program_event gw (sw_client sw) e \<and>
        (\<forall>j. all_commands (uses_client sw) (program_of (auto_program hf xs user) sw j))"], of w]
      assms(3,5) auto(2) by blast
  ultimately show ?thesis
    by (auto simp: reports_inv_def program_wire_inv_def reported_keys_requests Let_def)
qed

text \<open>
  C7: An auto handler's function may use the client: if it makes no requests about jobs itself, then
  however its operations interleave with those of the other handlers, in every reachable state each
  dispatched job has been reported exactly once or has not been reported yet by its handler, which
  is still running; when the worker is idle, the reports are one for each job delivered.
\<close>

theorem reported_once_despite_requests:
  assumes "configure ss (client_job_worker c) = Ok b" "channel_contract channel_ok"
    and "worker_run channel_ok (with_auto_handler hf gw xs (user_of (hf_json hf) fs gw user) b) = Ok sw"
    and "minds_its_job (hf_json hf) fs sw xs user" "ready gw (sw_client sw) w"
    and "run (program_step (auto_program hf xs user) (hf_json hf) fs gw sw cfg) (program_start sw w) es x"
    and "\<forall>e \<in> set es. legal_program_event gw (sw_client sw) e"
  shows "\<exists>sent. wd_wire (sy_world (ps_system x)) = wd_wire w @ sent \<and>
    (\<forall>(md, m) \<in> set sent. credentials gw (sw_client sw) md) \<and>
    mset (reported_keys sent) +
      image_mset aj_key (jobs_of (ws_started (sy_worker (ps_system x))) (unreported (ps_running x))) =
    mset (map aj_key (ws_started (sy_worker (ps_system x)))) \<and>
    (idle (sy_worker (ps_system x)) \<longrightarrow>
       mset (reported_keys sent) = mset (map aj_key (ws_delivered (sy_worker (ps_system x)))))"
proof -
  note init = auto_worker_initial [OF assms(1-3)]
  obtain sent where inv: "program_inv (auto_program hf xs user) sw x"
    and sent: "wd_wire (sy_world (ps_system x)) = wd_wire w @ sent"
      "\<forall>(md, m) \<in> set sent. credentials gw (sw_client sw) md"
      "mset (reported_keys sent) +
         image_mset aj_key (jobs_of (ws_started (sy_worker (ps_system x))) (unreported (ps_running x))) =
       image_mset aj_key (mset (ws_started (sy_worker (ps_system x))))"
    using auto_worker_account [OF init assms(4-7)] by blast
  obtain es' where reach: "run (worker_step cfg) (worker_start (sw_poller sw)) es' (sy_worker (ps_system x))"
    using program_worker.run_refines [OF assms(6)] by (auto simp: program_start_def system_start_def)
  have flow: "flow_inv (sy_worker (ps_system x))"
    using flow.inv_reachable [OF worker_init_start [OF init] reach] .
  have "mset (reported_keys sent) = mset (map aj_key (ws_delivered (sy_worker (ps_system x))))"
    if "idle (sy_worker (ps_system x))"
  proof -
    have "jobs_of (ws_started (sy_worker (ps_system x))) (ps_running x) = {#}"
      using inv that by (simp add: program_inv_def Let_def idle_def)
    then have "ps_running x = []"
      by (simp add: jobs_of_def)
    with sent(3) flow that show ?thesis
      by (simp add: flow_inv_def idle_def)
  qed
  with sent show ?thesis by auto
qed

subsection \<open>Every handler can be done\<close>

lemma never_unwinds_bind:
  "never_unwinds p \<Longrightarrow> (\<And>x. never_unwinds (f x)) \<Longrightarrow> never_unwinds (bind_program p f)"
  by (induction p) simp_all

lemma never_unwinds_after: "program_after p xs = Some q \<Longrightarrow> never_unwinds p \<Longrightarrow> never_unwinds q"
  by (induction p xs rule: program_after.induct) (auto split: if_splits)

lemma rest_of_in: "distinct (map fst running) \<Longrightarrow> (n, p) \<in> set running \<Longrightarrow> rest_of running n = p"
  by (simp add: rest_of_def)

lemma program_inv_never_unwinds:
  assumes "program_inv prog sw x" "\<And>j. never_unwinds (program_of prog sw j)"
  shows "\<forall>(n, p) \<in> set (ps_running x). never_unwinds p"
proof (intro ballI, clarify)
  fix n p
  assume running: "(n, p) \<in> set (ps_running x)"
  then have "n < length (ws_started (sy_worker (ps_system x)))" "rest_of (ps_running x) n = p"
    using assms(1) by (force simp: program_inv_def Let_def rest_of_in)+
  with assms(1) have "program_after (program_of prog sw (ws_started (sy_worker (ps_system x)) ! n))
      (conversation (ps_log x) n) = Some p"
    by (simp add: program_inv_def Let_def)
  from never_unwinds_after [OF this assms(2)] show "never_unwinds p" .
qed

lemma auto_program_never_unwinds:
  assumes "\<And>job params. tuple_from_job xs (job_client (sw_data sw) (sw_client sw) job) job = Ok params \<Longrightarrow>
      never_unwinds (user params)"
    and "\<And>v. \<exists>value. hf_to_value hf v = Inr value"
  shows "never_unwinds (program_of (auto_program hf xs user) sw j)"
proof -
  have "never_unwinds (completing hf client v)" for client :: "'a client" and v
    using assms(2) [of v] by (auto simp: completing_def send_and_return_def)
  moreover have "never_unwinds (failing client m)" for client :: "'a client" and m
    by (simp add: failing_def send_and_return_def)
  ultimately show ?thesis
    using assms(1) tuple_from_job_no_panic [of xs "job_client (sw_data sw) (sw_client sw) (job_new j)" "job_new j"]
    by (auto simp: program_of_def auto_program_def split: outcome.splits sum.splits intro!: never_unwinds_bind)
qed

text \<open>
  C9: No handler is held up by another: in every reachable state of a worker with an auto handler whose
  function does not unwind and whose results serialize, the operations of the running handlers alone
  can bring every one of them to its end; then every dispatched job has been reported exactly once.
\<close>

theorem every_handler_can_report:
  assumes "configure ss (client_job_worker c) = Ok b" "channel_contract channel_ok"
    and "worker_run channel_ok (with_auto_handler hf gw xs (user_of (hf_json hf) fs gw user) b) = Ok sw"
    and "minds_its_job (hf_json hf) fs sw xs user" "ready gw (sw_client sw) w"
    and "run (program_step (auto_program hf xs user) (hf_json hf) fs gw sw cfg) (program_start sw w) es x"
    and "\<forall>e \<in> set es. legal_program_event gw (sw_client sw) e"
    and "\<forall>job params. tuple_from_job xs (job_client (sw_data sw) (sw_client sw) job) job = Ok params \<longrightarrow>
      never_unwinds (user params)"
    and "\<forall>v. \<exists>value. hf_to_value hf v = Inr value"
  shows "\<exists>es' y sent. run (program_step (auto_program hf xs user) (hf_json hf) fs gw sw cfg) x es' y \<and>
    set es' \<subseteq> range Operate \<union> range Finish \<and>
    ws_handling (sy_worker (ps_system y)) = [] \<and>
    ws_started (sy_worker (ps_system y)) = ws_started (sy_worker (ps_system x)) \<and>
    wd_wire (sy_world (ps_system y)) = wd_wire w @ sent \<and>
    mset (reported_keys sent) = mset (map aj_key (ws_started (sy_worker (ps_system x))))"
proof -
  let ?step = "program_step (auto_program hf xs user) (hf_json hf) fs gw sw cfg"
  note init = auto_worker_initial [OF assms(1-3)]
  have inv: "program_inv (auto_program hf xs user) sw x"
    using auto_worker_account [OF init assms(4-7)] by blast
  have quiet: "\<forall>(n, p) \<in> set (ps_running x). never_unwinds p"
    by (rule program_inv_never_unwinds [OF inv auto_program_never_unwinds]) (use assms(8,9) in blast)+
  obtain es' y where y: "run ?step x es' y" "set es' \<subseteq> range Operate \<union> range Finish"
      "program_inv (auto_program hf xs user) sw y" "ps_running y = []"
      "ws_started (sy_worker (ps_system y)) = ws_started (sy_worker (ps_system x))"
    using all_programs_end [OF inv quiet, of "hf_json hf" fs gw cfg] by blast
  have legal: "\<forall>e \<in> set (es @ es'). legal_program_event gw (sw_client sw) e"
    using assms(7) y(2) by auto
  obtain sent where sent: "wd_wire (sy_world (ps_system y)) = wd_wire w @ sent"
      "mset (reported_keys sent) +
         image_mset aj_key (jobs_of (ws_started (sy_worker (ps_system y))) (unreported (ps_running y))) =
       image_mset aj_key (mset (ws_started (sy_worker (ps_system y))))"
    using auto_worker_account [OF init assms(4,5) run_append [OF assms(6) y(1)] legal] by blast
  have "ws_handling (sy_worker (ps_system y)) = []"
    using y(3,4) by (simp add: program_inv_def Let_def)
  moreover have "mset (reported_keys sent) = mset (map aj_key (ws_started (sy_worker (ps_system x))))"
    using sent(2) y(4,5) by simp
  ultimately show ?thesis
    using y sent(1) by blast
qed

subsection \<open>Handlers that run in one step\<close>

text \<open>A state of the worker in which no running handler has made an operation yet.\<close>

definition untouched :: "('v, 'j) handler_program \<Rightarrow> 'v started_worker \<Rightarrow> ('v, 'j) program_system \<Rightarrow> bool" where
  "untouched prog sw x \<longleftrightarrow>
     program_inv prog sw x \<and>
     (\<forall>(n, p) \<in> set (ps_running x). p = program_of prog sw (ws_started (sy_worker (ps_system x)) ! n))"

lemma untouchedD:
  assumes "untouched prog sw x" "(n, p) \<in> set (ps_running x)"
  shows "n < length (ws_started (sy_worker (ps_system x)))"
    "p = program_of prog sw (ws_started (sy_worker (ps_system x)) ! n)"
proof -
  have "n \<in> fst ` set (ps_running x) \<union> fst ` set (ps_log x)"
    using assms(2) by force
  then show "n < length (ws_started (sy_worker (ps_system x)))"
    using assms(1) unfolding untouched_def program_inv_def Let_def by blast
  show "p = program_of prog sw (ws_started (sy_worker (ps_system x)) ! n)"
    using assms unfolding untouched_def by blast
qed

lemma untouchedI:
  assumes "program_inv prog sw x"
    and "\<And>n p. (n, p) \<in> set (ps_running x) \<Longrightarrow> p = program_of prog sw (ws_started (sy_worker (ps_system x)) ! n)"
  shows "untouched prog sw x"
  using assms by (auto simp: untouched_def)

lemma atomic_step_embeds:
  assumes x: "untouched prog sw x" "ps_system x = s" and step: "system_step gw sw cfg s e t"
    and atomic: "\<And>j w. dispatch_job (sw_handler sw) (sw_data sw) (sw_client sw) (job_new j) w =
      run_program sj fs gw (program_of prog sw j) w"
  shows "\<exists>es y. run (program_step prog sj fs gw sw cfg) x es y \<and> untouched prog sw y \<and> ps_system y = t"
proof (cases "handles e \<or> e = Work Dispatch")
  case False
  then have here: "program_step prog sj fs gw sw cfg x (Environment e) (x\<lparr>ps_system := t\<rparr>)"
    using program_step.environment [of gw sw cfg x e t] step x(2) by blast
  have "ws_started (sy_worker t) = ws_started (sy_worker s)"
    using system_step_started [OF step] False by blast
  with x program_inv_step [OF _ here] have "untouched prog sw (x\<lparr>ps_system := t\<rparr>)"
    by (simp add: untouched_def)
  moreover have "ps_system (x\<lparr>ps_system := t\<rparr>) = t"
    by simp
  ultimately show ?thesis
    using run_one [where step = "program_step prog sj fs gw sw cfg", OF here] by blast
next
  case True
  then consider (dispatch) "e = Work Dispatch" | (ending) j where "e = Work (HandlerDone j)"
    by (cases e rule: handles.cases) auto
  then show ?thesis
  proof cases
    case dispatch
    with step obtain u where u: "worker_step cfg (sy_worker s) Dispatch u" "t = s\<lparr>sy_worker := u\<rparr>"
      by (auto simp: system_step_simps worker_step_simps)
    then obtain j where j: "ws_started u = ws_started (sy_worker s) @ [j]"
      by (auto simp: worker_step_simps)
    let ?y = "x\<lparr>ps_system := (ps_system x)\<lparr>sy_worker := u\<rparr>, ps_running := ps_running x @
        [(length (ws_started (sy_worker (ps_system x))), program_of prog sw j)]\<rparr>"
    have here: "program_step prog sj fs gw sw cfg x Start ?y"
      by (rule program_step.start) (use u(1) j x(2) in simp_all)
    have "p = program_of prog sw (ws_started u ! n)" if "(n, p) \<in> set (ps_running ?y)" for n p
    proof (cases "(n, p) \<in> set (ps_running x)")
      case True
      note untouchedD [OF x(1) True, unfolded x(2)]
      then show ?thesis by (simp add: j nth_append)
    next
      case False
      with that show ?thesis by (simp add: j x(2))
    qed
    moreover have "program_inv prog sw ?y"
      using x(1) program_inv_step [OF _ here] by (simp add: untouched_def)
    ultimately have "untouched prog sw ?y"
      by (intro untouchedI) simp_all
    moreover have "ps_system ?y = t"
      using u(2) x(2) by simp
    ultimately show ?thesis
      using run_one [where step = "program_step prog sj fs gw sw cfg", OF here] by blast
  next
    case ending
    with step obtain u w where u: "worker_step cfg (sy_worker s) (HandlerDone j) u"
        "run_program sj fs gw (program_of prog sw j) (sy_world s) = (Ok (), w)"
        "t = s\<lparr>sy_worker := u, sy_world := w\<rparr>"
      by (auto simp: system_step_simps atomic)
    from u(1) have "j \<in> set (ws_handling (sy_worker s))"
      by cases simp
    with x have "j \<in># jobs_of (ws_started (sy_worker s)) (ps_running x)"
      by (simp add: untouched_def program_inv_def Let_def)
    then obtain n p where "(n, p) \<in> set (ps_running x)" and j: "j = ws_started (sy_worker s) ! n"
      by (auto simp: jobs_of_def)
    then obtain i where i: "i < length (ps_running x)" "ps_running x ! i = (n, program_of prog sw j)"
      using x by (fastforce simp: untouched_def in_set_conv_nth)
    from program_ends [OF i, of sj fs gw w cfg u prog sw] u(1,2) x(2) j obtain es y where
      y: "run (program_step prog sj fs gw sw cfg) x es y" "ps_system y = s\<lparr>sy_worker := u, sy_world := w\<rparr>"
      "ps_running y = take i (ps_running x) @ drop (Suc i) (ps_running x)"
      by auto
    have "program_inv prog sw y"
      using programs.inv_preserved [OF y(1)] x(1) by (simp add: untouched_def)
    with x y(2,3) handler_done_started [OF u(1)] have "untouched prog sw y"
      by (auto simp: untouched_def dest: in_set_takeD in_set_dropD)
    with y(1,2) u(3) show ?thesis by blast
  qed
qed

lemma atomic_run_embeds:
  assumes "run (system_step gw sw cfg) s es t" "untouched prog sw x" "ps_system x = s"
    and "\<And>j w. dispatch_job (sw_handler sw) (sw_data sw) (sw_client sw) (job_new j) w =
      run_program sj fs gw (program_of prog sw j) w"
  shows "\<exists>es' y. run (program_step prog sj fs gw sw cfg) x es' y \<and> untouched prog sw y \<and> ps_system y = t"
  using assms(1-3)
proof (induction arbitrary: x rule: run.induct)
  case (run_none s)
  then show ?case by (intro exI [of _ "[]"] exI [of _ x]) simp
next
  case (run_step s e t es u)
  obtain fs' y where y: "run (program_step prog sj fs gw sw cfg) x fs' y" "untouched prog sw y" "ps_system y = t"
    using atomic_step_embeds [OF run_step.prems run_step.hyps(1) assms(4)] by blast
  obtain es' z where "run (program_step prog sj fs gw sw cfg) y es' z" "untouched prog sw z" "ps_system z = u"
    using run_step.IH [OF y(2,3)] by blast
  with run_append [OF y(1)] show ?case by blast
qed

lemma job_client_again:
  "(job_client x c job)\<lparr>cl_current_job_key := Some (job_key job)\<rparr> = job_client x c job"
  by (simp add: job_client_def)

lemma dispatch_auto_program:
  "dispatch_job (auto_handler hf gw xs (user_of (hf_json hf) fs gw user)) x c job w =
     run_program (hf_json hf) fs gw (auto_program hf xs user (job_client x c job) job) w"
  by (simp only: dispatch_job_def handler_calls auto_handler_def plain_handler_def job_task.simps
      job_client_again auto_program_runs)

text \<open>
  Nothing that the worker of whole handlers can do is lost: every run of a started worker with an auto
  handler in which each handler runs in one step is a run in which it makes its operations one by
  one, and ends in the same state of the worker and the world.
\<close>

lemma atomic_handlers_are_special_case:
  assumes "configure ss (client_job_worker c) = Ok b" "channel_contract channel_ok"
    and "worker_run channel_ok (with_auto_handler hf gw xs (user_of (hf_json hf) fs gw user) b) = Ok sw"
    and "run (system_step gw sw cfg) (system_start sw w) es s"
  shows "\<exists>es' x. run (program_step (auto_program hf xs user) (hf_json hf) fs gw sw cfg)
      (program_start sw w) es' x \<and> ps_system x = s"
proof -
  have "dispatch_job (sw_handler sw) (sw_data sw) (sw_client sw) (job_new j) w =
      run_program (hf_json hf) fs gw (program_of (auto_program hf xs user) sw j) w" for j w
    by (simp only: auto_worker(1) [OF assms(3)] program_of_def dispatch_auto_program)
  moreover have "untouched (auto_program hf xs user) sw (program_start sw w)"
    using programs.inv_init [of "program_start sw w" sw] auto_worker_initial [OF assms(1-3)]
    by (auto simp: untouched_def program_start_def)
  moreover have "ps_system (program_start sw w) = system_start sw w"
    by (simp add: program_start_def)
  ultimately show ?thesis
    using atomic_run_embeds [OF assms(4)] by metis
qed

subsection \<open>Two jobs at once\<close>

text \<open>
  A function that asks for the topology with the client it is handed, and completes its job with an
  empty result. Two jobs are handled at once, and the second one overtakes the first.
\<close>

fun example_user_program :: "(nat, string, string, string) user_program" where
  "example_user_program [ExtractedClient c] = Await (TopologyCommand (client_topology c)) (\<lambda>_. Return (Inr ''{}''))"
| "example_user_program _ = Return (Inl ''parameters'')"

abbreviation example_program :: "(nat, string) handler_program" where
  "example_program \<equiv> auto_program example_formats [FromClient] example_user_program"

definition example_program_worker :: "nat started_worker \<Rightarrow> bool" where
  "example_program_worker sw \<longleftrightarrow>
     worker_run example_channel_ok (with_auto_handler example_formats example_gateway [FromClient]
       (user_of (hf_json example_formats) example_files example_gateway example_user_program)
       (with_job_type ''payment-service'' (client_job_worker example_client))) = Ok sw"

lemma example_program_started:
  obtains sw where "example_program_worker sw" "sw_client sw = example_client" "sw_poller sw = example_poller"
proof -
  obtain sw where sw: "example_program_worker sw" "sw_poller sw = example_poller"
    using default_worker_run [of example_channel_ok "auto_handler_body example_formats example_gateway [FromClient]
        (user_of (hf_json example_formats) example_files example_gateway example_user_program)" example_client]
    by (auto simp: example_program_worker_def with_auto_handler_def example_channel_ok_def)
  then show thesis
    by (intro that)
      (auto simp: example_program_worker_def auto_worker(4) with_job_type_def client_job_worker_def
        job_worker_builder_new_def)
qed

lemma example_minds_its_job:
  "minds_its_job (hf_json example_formats) example_files sw [FromClient] example_user_program"
  by (auto simp: minds_its_job_def tuple_from_job_def uses_client_def about_no_job_def client_topology_def
      topology_builder_new_def)

definition example_topology_command :: "nat started_worker \<Rightarrow> activated_job \<Rightarrow> (nat, string) command" where
  "example_topology_command sw j = TopologyCommand (client_topology (job_client (sw_data sw) (sw_client sw) (job_new j)))"

definition example_completion :: "nat started_worker \<Rightarrow> activated_job \<Rightarrow> (nat, string) command" where
  "example_completion sw j = CompleteCommand (cjb_with_variables ''{}''
     (client_complete_job (job_client (sw_data sw) (sw_client sw) (job_new j))))"

lemma example_program_of:
  "program_of example_program sw j =
     Await (example_topology_command sw j) (\<lambda>_. Await (example_completion sw j) (\<lambda>_. Return ()))"
  by (simp add: program_of_def auto_program_def tuple_from_job_def completing_def send_and_return_def
      example_formats_def example_topology_command_def example_completion_def)

lemma environment_run:
  assumes "run (system_step gw sw cfg) s es t" "\<forall>e \<in> set es. \<not> handles e \<and> e \<noteq> Work Dispatch" "ps_system x = s"
  shows "run (program_step prog sj fs gw sw cfg) x (map Environment es) (x\<lparr>ps_system := t\<rparr>)"
  using assms
proof (induction arbitrary: x rule: run.induct)
  case (run_none s)
  then have "x = x\<lparr>ps_system := s\<rparr>" by simp
  then show ?case by (metis list.simps(8) run.run_none)
next
  case (run_step s e t es u)
  have step: "program_step prog sj fs gw sw cfg x (Environment e) (x\<lparr>ps_system := t\<rparr>)"
    by (rule program_step.environment) (use run_step in simp_all)
  have "run (program_step prog sj fs gw sw cfg) (x\<lparr>ps_system := t\<rparr>) (map Environment es)
      ((x\<lparr>ps_system := t\<rparr>)\<lparr>ps_system := u\<rparr>)"
    by (rule run_step.IH) (use run_step.prems(1) in simp_all)
  with run.run_step [where step = "program_step prog sj fs gw sw cfg", OF step] show ?case
    by simp
qed

definition example_arrivals :: "system_event list" where
  "example_arrivals =
     [Work Tick, MakeCall 0, Work (CallReturned 0), Work (BatchArrived 0 [example_job 1, example_job 2]),
      Work (SendJob 0), Work (SendJob 0)]"

lemma example_arrivals_run:
  assumes "sw_client sw = example_client" "sw_poller sw = example_poller"
  shows "\<exists>s. run (system_step example_gateway sw example_worker_config)
      (system_start sw (example_authenticated_world\<lparr>wd_wire := []\<rparr>)) example_arrivals s \<and>
    ws_started (sy_worker s) = [] \<and> ws_job_queue (sy_worker s) = [example_job 1, example_job 2] \<and>
    ws_handling (sy_worker s) = [] \<and> ws_reporting (sy_worker s) = []"
proof -
  have "bears_token example_gateway example_client
      (example_authenticated_world\<lparr>wd_wire := []\<rparr>) example_metadata"
    using example_bears_token [of example_client] by (simp add: bears_token_def)
  then have "call_metadata example_gateway example_client
      (example_authenticated_world\<lparr>wd_wire := []\<rparr>) = Inr example_metadata"
    by (simp add: call_metadata_bears_token)
  then show ?thesis
    by (simp add: example_arrivals_def run_Cons_iff system_step_simps worker_step_simps
        receive_eq_Some_iff system_start_def assms make_call_eq
        example_request_sent example_requested task_at_def set_phase_def worker_start_def
        example_worker_config_def job_queue_has_room_def dispatcher_has_room_def usize_as_u32_def
        del: on_message.simps)
qed

lemma command_call_pair:
  "command_call sj fs gw c w = (r, w') \<longleftrightarrow>
     r = fst (command_call sj fs gw c w) \<and> w' = snd (command_call sj fs gw c w)"
  by (cases "command_call sj fs gw c w") auto

lemma example_interleaving:
  assumes "sw_client sw = example_client" "sw_poller sw = example_poller"
  obtains es x where
    "run (program_step example_program (hf_json example_formats) example_files example_gateway sw
       example_worker_config) (program_start sw (example_authenticated_world\<lparr>wd_wire := []\<rparr>)) es x"
    "\<forall>e \<in> set es. legal_program_event example_gateway (sw_client sw) e"
    "ws_started (sy_worker (ps_system x)) = [example_job 1, example_job 2]"
    "ps_running x = [(0, Await (example_completion sw (example_job 1)) (\<lambda>_. Return ()))]"
    "map (\<lambda>e. fst (snd e)) (ps_log x) =
       [example_topology_command sw (example_job 1), example_topology_command sw (example_job 2),
        example_completion sw (example_job 2)]"
proof -
  let ?step = "program_step example_program (hf_json example_formats) example_files example_gateway sw
      example_worker_config"
  let ?x = "program_start sw (example_authenticated_world\<lparr>wd_wire := []\<rparr>) :: (nat, string) program_system"
  obtain s where s: "run (system_step example_gateway sw example_worker_config)
      (system_start sw (example_authenticated_world\<lparr>wd_wire := []\<rparr>)) example_arrivals s"
      "ws_started (sy_worker s) = []" "ws_job_queue (sy_worker s) = [example_job 1, example_job 2]"
      "ws_handling (sy_worker s) = []" "ws_reporting (sy_worker s) = []"
    using example_arrivals_run [OF assms] by blast
  have "run ?step ?x (map Environment example_arrivals) (?x\<lparr>ps_system := s\<rparr>)"
    by (rule environment_run [OF s(1)]) (simp_all add: example_arrivals_def program_start_def)
  moreover have "\<exists>x. run ?step (?x\<lparr>ps_system := s\<rparr>) [Start, Start, Operate 0, Operate 1, Operate 1, Finish 1] x \<and>
    ws_started (sy_worker (ps_system x)) = [example_job 1, example_job 2] \<and>
    ps_running x = [(0, Await (example_completion sw (example_job 1)) (\<lambda>_. Return ()))] \<and>
    map (\<lambda>e. fst (snd e)) (ps_log x) =
       [example_topology_command sw (example_job 1), example_topology_command sw (example_job 2),
        example_completion sw (example_job 2)]"
    by (simp add: run_Cons_iff program_step_simps worker_step_simps s program_start_def dispatcher_has_room_def
        example_worker_config_def example_program_of command_call_pair)
  ultimately obtain x where x: "run ?step ?x (map Environment example_arrivals @
        [Start, Start, Operate 0, Operate 1, Operate 1, Finish 1]) x"
      "ws_started (sy_worker (ps_system x)) = [example_job 1, example_job 2]"
      "ps_running x = [(0, Await (example_completion sw (example_job 1)) (\<lambda>_. Return ()))]"
      "map (\<lambda>e. fst (snd e)) (ps_log x) =
         [example_topology_command sw (example_job 1), example_topology_command sw (example_job 2),
          example_completion sw (example_job 2)]"
    using run_append by meson
  show thesis
    by (rule that [OF x(1) _ x(2-4)]) (simp add: example_arrivals_def)
qed

text \<open>
  C8: Handlers that use the client do not disturb each other: however the operations of concurrently
  handled jobs, the worker's own requests, timeouts and token refreshes interleave, in every
  reachable state the operations that each handler has made, with their answers, are a path through
  its own program, which has come to its end if the handler is done; and the requests that have gone
  out beside those for jobs are exactly those of the valid operations, in the order in which they
  were made, under the client's credentials.
\<close>

theorem handlers_do_not_interfere:
  assumes "initial_poller (sw_poller sw)" "ready gw (sw_client sw) w"
    and "\<forall>j. all_commands (uses_client sw) (program_of prog sw j)"
    and "run (program_step prog sj fs gw sw cfg) (program_start sw w) es x"
    and "\<forall>e \<in> set es. legal_program_event gw (sw_client sw) e"
  shows "(\<forall>n < length (ws_started (sy_worker (ps_system x))).
      program_after (program_of prog sw (ws_started (sy_worker (ps_system x)) ! n))
        (conversation (ps_log x) n) = Some (rest_of (ps_running x) n)) \<and>
    jobs_of (ws_started (sy_worker (ps_system x))) (ps_running x) =
      mset (ws_handling (sy_worker (ps_system x))) \<and>
    (\<exists>sent. wd_wire (sy_world (ps_system x)) = wd_wire w @ sent \<and>
       handler_requests sent = conversation_requests sj fs (map snd (ps_log x)) \<and>
       (\<forall>(md, m) \<in> set sent. credentials gw (sw_client sw) md))"
proof -
  have "program_inv prog sw x"
    using programs.inv_reachable [OF _ assms(4)] assms(1) by blast
  moreover have "program_wire_inv sj fs gw sw w x"
    using program_wire.inv_reachable [OF _ run_restrict [OF assms(4), of "\<lambda>e.
        legal_program_event gw (sw_client sw) e \<and>
        (\<forall>j. all_commands (uses_client sw) (program_of prog sw j))"], of w] assms(2,3,5)
    by blast
  ultimately show ?thesis
    unfolding program_inv_def program_wire_inv_def Let_def by blast
qed

lemma conversation_requests_commands:
  "conversation_requests sj fs xs =
     concat (map (\<lambda>c. case command_request sj fs c of Ok m \<Rightarrow> [m] | _ \<Rightarrow> []) (map fst xs))"
  by (simp add: conversation_requests_def comp_def) (simp add: exchange_request_def [abs_def])

lemma example_program_requests:
  "command_request (hf_json example_formats) fs (example_topology_command sw j) = Ok (Topology TopologyRequest)"
  "command_request (hf_json example_formats) fs (example_completion sw j) =
     Ok (CompleteJob \<lparr>cjr_job_key = aj_key j, cjr_variables = ''{}''\<rparr>)"
proof -
  show "command_request (hf_json example_formats) fs (example_topology_command sw j) = Ok (Topology TopologyRequest)"
    by (simp add: example_topology_command_def)
  have "cl_current_job_key (job_client (sw_data sw) (sw_client sw) (job_new j)) = Some (aj_key j)"
    by simp
  from complete_report_request [OF this, of "hf_json example_formats" "''{}''"]
  show "command_request (hf_json example_formats) fs (example_completion sw j) =
     Ok (CompleteJob \<lparr>cjr_job_key = aj_key j, cjr_variables = ''{}''\<rparr>)"
    by (simp add: example_completion_def example_formats_def example_json_def)
qed

lemma example_ready:
  "sw_client sw = example_client \<Longrightarrow>
   ready example_gateway (sw_client sw) (example_authenticated_world\<lparr>wd_wire := []\<rparr>)"
  by (simp add: ready_def example_usable)

theorem handlers_do_not_interfere_witness:
  "\<exists>(sw :: nat started_worker) es x sent.
    run (program_step example_program (hf_json example_formats) example_files example_gateway sw
      example_worker_config) (program_start sw (example_authenticated_world\<lparr>wd_wire := []\<rparr>)) es x \<and>
    wd_wire (sy_world (ps_system x)) = sent \<and>
    handler_requests sent = [Topology TopologyRequest, Topology TopologyRequest,
      CompleteJob \<lparr>cjr_job_key = 2, cjr_variables = ''{}''\<rparr>]"
proof -
  obtain sw where sw: "example_program_worker sw" "sw_client sw = example_client" "sw_poller sw = example_poller"
    by (rule example_program_started)
  obtain es x where x: "run (program_step example_program (hf_json example_formats) example_files example_gateway sw
       example_worker_config) (program_start sw (example_authenticated_world\<lparr>wd_wire := []\<rparr>)) es x"
      "\<forall>e \<in> set es. legal_program_event example_gateway (sw_client sw) e"
      "map (\<lambda>e. fst (snd e)) (ps_log x) =
         [example_topology_command sw (example_job 1), example_topology_command sw (example_job 2),
          example_completion sw (example_job 2)]"
    by (rule example_interleaving [OF sw(2,3)])
  have "initial_poller (sw_poller sw)"
    using example_initial by (simp add: sw(3))
  moreover have "\<forall>j. all_commands (uses_client sw) (program_of example_program sw j)"
    using auto_program_minds_its_job(2) [OF example_minds_its_job] by blast
  moreover have "conversation_requests (hf_json example_formats) example_files (map snd (ps_log x)) =
      [Topology TopologyRequest, Topology TopologyRequest,
       CompleteJob \<lparr>cjr_job_key = 2, cjr_variables = ''{}''\<rparr>]"
    using x(3) by (simp add: conversation_requests_commands comp_def example_program_requests)
      (simp add: example_job_def)
  ultimately show ?thesis
    using handlers_do_not_interfere [OF _ example_ready [OF sw(2)] _ x(1,2)] x(1)
    by (intro exI [of _ sw] exI [of _ es] exI [of _ x]) auto
qed

theorem reported_once_despite_requests_witness:
  "\<exists>(sw :: nat started_worker) es x.
    run (program_step example_program (hf_json example_formats) example_files example_gateway sw
      example_worker_config) (program_start sw (example_authenticated_world\<lparr>wd_wire := []\<rparr>)) es x \<and>
    mset (reported_keys (wd_wire (sy_world (ps_system x)))) = {#2#}"
proof -
  obtain sw where sw: "example_program_worker sw" "sw_client sw = example_client" "sw_poller sw = example_poller"
    by (rule example_program_started)
  obtain es x where x: "run (program_step example_program (hf_json example_formats) example_files example_gateway sw
       example_worker_config) (program_start sw (example_authenticated_world\<lparr>wd_wire := []\<rparr>)) es x"
      "\<forall>e \<in> set es. legal_program_event example_gateway (sw_client sw) e"
      "ws_started (sy_worker (ps_system x)) = [example_job 1, example_job 2]"
      "ps_running x = [(0, Await (example_completion sw (example_job 1)) (\<lambda>_. Return ()))]"
    by (rule example_interleaving [OF sw(2,3)])
  have b: "configure [JobType ''payment-service''] (client_job_worker example_client) =
      Ok (with_job_type ''payment-service'' (client_job_worker example_client))"
    by simp
  from reported_once_despite_requests [OF b example_channel_contract(1)
      sw(1) [unfolded example_program_worker_def] example_minds_its_job example_ready [OF sw(2)] x(1,2)] x
  show ?thesis
    by (intro exI [of _ sw] exI [of _ es] exI [of _ x]) (auto simp: example_job_def add_mset_commute)
qed

theorem every_handler_can_report_witness:
  "\<exists>(sw :: nat started_worker) es (x :: (nat, string) program_system).
    run (program_step example_program (hf_json example_formats) example_files example_gateway sw
      example_worker_config) (program_start sw (example_authenticated_world\<lparr>wd_wire := []\<rparr>)) es x \<and>
    mset (reported_keys (wd_wire (sy_world (ps_system x)))) = {#1, 2#}"
proof -
  obtain sw where sw: "example_program_worker sw" "sw_client sw = example_client" "sw_poller sw = example_poller"
    by (rule example_program_started)
  obtain es x where x: "run (program_step example_program (hf_json example_formats) example_files example_gateway sw
       example_worker_config) (program_start sw (example_authenticated_world\<lparr>wd_wire := []\<rparr>)) es x"
      "\<forall>e \<in> set es. legal_program_event example_gateway (sw_client sw) e"
      "ws_started (sy_worker (ps_system x)) = [example_job 1, example_job 2]"
    by (rule example_interleaving [OF sw(2,3)])
  have b: "configure [JobType ''payment-service''] (client_job_worker example_client) =
      Ok (with_job_type ''payment-service'' (client_job_worker example_client))"
    by simp
  have quiet: "\<forall>job params. tuple_from_job [FromClient] (job_client (sw_data sw) (sw_client sw) job) job =
      Ok params \<longrightarrow> never_unwinds (example_user_program params)"
    by (auto simp: tuple_from_job_def)
  have json: "\<forall>v. \<exists>value. hf_to_value example_formats v = Inr value"
    by (simp add: example_formats_def)
  obtain es' y sent where y: "run (program_step example_program (hf_json example_formats) example_files
       example_gateway sw example_worker_config) x es' y"
      "wd_wire (sy_world (ps_system y)) = wd_wire (example_authenticated_world\<lparr>wd_wire := []\<rparr>) @ sent"
      "mset (reported_keys sent) = mset (map aj_key (ws_started (sy_worker (ps_system x))))"
    using every_handler_can_report [OF b example_channel_contract(1)
      sw(1) [unfolded example_program_worker_def] example_minds_its_job example_ready [OF sw(2)] x(1,2)
      quiet json] by blast
  with run_append [OF x(1) y(1)] x(3) show ?thesis
    by (intro exI [of _ sw] exI [of _ "es @ es'"] exI [of _ y]) (simp add: example_job_def)
qed

end
