(* ===== verification/Example_Programs.thy ===== *)
theory Example_Programs
  imports Worker_Requests Shared_State
begin

text \<open>
  The example programs (\<open>src/examples\<close>): each is a \<open>main\<close> that makes a client and awaits one operation
  after another, leaving at the first error. They put the parts of the library together the way
  its users do; what they do is stated over everything that happens in a run of the program.
\<close>

subsection \<open>Awaiting one operation after another\<close>

text \<open>The sequence \<open>operation.await?; rest\<close>.\<close>

definition and_then ::
    "('a, error) outcome \<times> world \<Rightarrow> ('a \<Rightarrow> world \<Rightarrow> ('b, error) outcome \<times> world)
      \<Rightarrow> ('b, error) outcome \<times> world" where
  "and_then r rest =
     (case r of
        (Ok x, w) \<Rightarrow> rest x w
      | (Err e, w) \<Rightarrow> (Err e, w)
      | (Panic p, w) \<Rightarrow> (Panic p, w))"

text \<open>Making a client, which leaves the world as it is if it fails.\<close>

definition with_client ::
    "('v client \<times> world, error) outcome \<Rightarrow> world
      \<Rightarrow> ('v client \<Rightarrow> world \<Rightarrow> ('b, error) outcome \<times> world) \<Rightarrow> ('b, error) outcome \<times> world" where
  "with_client made w rest =
     (case made of
        Ok (c, w') \<Rightarrow> rest c w'
      | Err e \<Rightarrow> (Err e, w)
      | Panic p \<Rightarrow> (Panic p, w))"

lemma and_then_Ok:
  "and_then r rest = (Ok y, w') \<longleftrightarrow> (\<exists>x w. r = (Ok x, w) \<and> rest x w = (Ok y, w'))"
  by (cases r) (auto simp: and_then_def split: outcome.splits)

lemma with_client_Ok:
  "with_client made w rest = (Ok y, w') \<longleftrightarrow> (\<exists>c w1. made = Ok (c, w1) \<and> rest c w1 = (Ok y, w'))"
  by (auto simp: with_client_def split: outcome.splits)

subsection \<open>\<open>worker.rs\<close>\<close>

definition order_process_file :: string where
  "order_process_file = ''examples/workflows/order-process.bpmn''"

text \<open>The handler ignores the result of its request.\<close>

definition worker_example_handle_job :: "'j serde_json \<Rightarrow> gateway \<Rightarrow> 'v job_handler" where
  "worker_example_handle_job sj gw client job w =
     (Ok (), snd (complete_job_send sj gw
        (cjb_with_job_key (job_key job) (client_complete_job client)) w))"

text \<open>
  \<open>main\<close> up to the worker, which then runs. The value of \<open>json!({"orderId": 31243})\<close> is an argument.
\<close>

definition worker_example_main ::
    "transport \<Rightarrow> files \<Rightarrow> 'j serde_json \<Rightarrow> 'j \<Rightarrow> gateway \<Rightarrow> (nat \<Rightarrow> bool) \<Rightarrow> world
      \<Rightarrow> ('v started_worker, error) outcome \<times> world" where
  "worker_example_main tr fs sj order gw channel_ok w =
     with_client (client_default tr w) w (\<lambda>client w.
     and_then
       (deploy_process_send fs gw
          (dpb_with_resource_file order_process_file (client_deploy_process client)) w) (\<lambda>_ w.
     and_then
       (create_process_instance_send sj gw
          (cpb_with_variables order (cpb_with_latest_version
            (cpb_with_bpmn_process_id ''order-process'' (client_create_process_instance client)))) w)
       (\<lambda>_ w.
        (worker_run channel_ok
           (with_handler (worker_example_handle_job sj gw)
             (with_job_type ''payment-service'' (client_job_worker client))), w))))"

lemma client_default_Ok:
  assumes "client_default tr w = Ok (c, w')"
  shows "w' = w" "cl_gateway_interceptor c = auth_interceptor_default"
    "ai_token_provider (cl_gateway_interceptor c) = None"
  using assms
  by (auto simp: client_default_def client_from_config_def client_config_default_def
      client_config_with_endpoints_def client_of_interceptor_def auth_interceptor_default_def
      bind_outcome_iffs elim!: unwrap_outcome.elims)

lemma bears_no_token:
  "ai_token_provider (cl_gateway_interceptor c) = None \<Longrightarrow> bears_token gw c w md \<longleftrightarrow> md = Map.empty"
  by (simp add: bears_token_def)

lemma worker_example_dispatch:
  "dispatch_job (plain_handler (worker_example_handle_job sj gw)) x c job w =
     report_sent gw (job_client x c job) (CompleteJob \<lparr>cjr_job_key = job_key job, cjr_variables = []\<rparr>) w"
proof -
  let ?c = "job_client x c job"
  have "message_of CompleteJob (complete_job_request_of sj
      (cjb_with_job_key (job_key job) (client_complete_job ?c))) =
      Ok (CompleteJob \<lparr>cjr_job_key = job_key job, cjr_variables = []\<rparr>)"
    by (simp add: complete_job_request_of_def cjb_with_job_key_def client_complete_job_def
        complete_job_builder_new_def variables_string_def)
  from complete_job.send_accepted [OF this, of gw w] show ?thesis
    by (simp add: dispatch_job_def plain_handler_def worker_example_handle_job_def report_sent_def
        cjb_with_job_key_def client_complete_job_def complete_job_builder_new_def split: sum.splits)
qed

lemma worker_example_reports:
  assumes "sw_handler sw = plain_handler (worker_example_handle_job sj gw)"
  shows "reports_jobs gw sw" "reports_are (\<lambda>m. \<exists>k. m = CompleteJob \<lparr>cjr_job_key = k, cjr_variables = []\<rparr>) sw"
proof -
  have sent: "\<exists>md. w' = w\<lparr>wd_wire := wd_wire w @
        [(md, CompleteJob \<lparr>cjr_job_key = job_key job, cjr_variables = []\<rparr>)]\<rparr> \<and>
      credentials gw (sw_client sw) md"
    if ready: "ready gw (sw_client sw) w"
      and run: "dispatch_job (sw_handler sw) (sw_data sw) (sw_client sw) job w = (Ok (), w')" for job w w'
  proof -
    obtain md where md: "bears_token gw (sw_client sw) w md"
      using ready_bears_token [OF ready] by blast
    then have "call_metadata gw (job_client (sw_data sw) (sw_client sw) job) w = Inr md"
      by (simp add: call_metadata_bears_token)
    with run bears_token_credentials [OF md] show ?thesis
      by (auto simp: assms worker_example_dispatch report_sent_def)
  qed
  show "reports_jobs gw sw"
    unfolding reports_jobs_def using sent by fastforce
  show "reports_are (\<lambda>m. \<exists>k. m = CompleteJob \<lparr>cjr_job_key = k, cjr_variables = []\<rparr>) sw"
    by (auto simp: reports_are_def assms worker_example_dispatch report_sent_def split: sum.splits)
qed

lemma worker_example_main_Ok:
  assumes "worker_example_main tr fs sj order gw channel_ok w = (Ok sw, w')"
  obtains d client where "fs order_process_file = Inr (Inr d)"
    "ai_token_provider (cl_gateway_interceptor client) = None"
    "worker_run channel_ok (with_handler (worker_example_handle_job sj gw)
       (with_job_type ''payment-service'' (client_job_worker client))) = Ok sw"
    "w' = w\<lparr>wd_wire := wd_wire w @
       [(Map.empty, DeployProcess \<lparr>dpr_processes =
           [\<lparr>pro_name = order_process_file, pro_definition = d\<rparr>]\<rparr>),
        (Map.empty, CreateProcessInstance \<lparr>cpr_process_definition_key = 0,
           cpr_bpmn_process_id = ''order-process'', cpr_version = - 1,
           cpr_variables = sj_to_string sj order\<rparr>)]\<rparr>"
proof -
  from assms obtain client w0 x w1 y where
    client: "client_default tr w = Ok (client, w0)"
    and deploy: "deploy_process_send fs gw
      (dpb_with_resource_file order_process_file (client_deploy_process client)) w0 = (Ok x, w1)"
    and create: "create_process_instance_send sj gw
      (cpb_with_variables order (cpb_with_latest_version
        (cpb_with_bpmn_process_id ''order-process'' (client_create_process_instance client)))) w1 =
      (Ok y, w')"
    and sw: "worker_run channel_ok (with_handler (worker_example_handle_job sj gw)
       (with_job_type ''payment-service'' (client_job_worker client))) = Ok sw"
    unfolding worker_example_main_def by (auto simp: and_then_Ok with_client_Ok)
  note c = client_default_Ok [OF client]
  obtain d where d: "fs order_process_file = Inr (Inr d)"
      "w1 = w\<lparr>wd_wire := wd_wire w @ [(Map.empty, DeployProcess \<lparr>dpr_processes =
         [\<lparr>pro_name = order_process_file, pro_definition = d\<rparr>]\<rparr>)]\<rparr>"
    using deploy_process.send_Ok_world [OF deploy] c
    by (auto simp: bears_no_token deploy_process_request_of_def bind_outcome_eq_Ok_iff
        read_process_def dpb_with_resource_file_def client_deploy_process_def
        deploy_process_builder_new_def split: sum.splits)
  have "w' = w1\<lparr>wd_wire := wd_wire w1 @ [(Map.empty, CreateProcessInstance
      \<lparr>cpr_process_definition_key = 0, cpr_bpmn_process_id = ''order-process'', cpr_version = - 1,
       cpr_variables = sj_to_string sj order\<rparr>)]\<rparr>"
    using create_process_instance.send_Ok_world [OF create] c
    by (auto simp: bears_no_token create_process_instance_request_of_def variables_string_def
        cpb_with_variables_def cpb_with_latest_version_def cpb_with_bpmn_process_id_def
        client_create_process_instance_def create_process_instance_builder_new_def)
  with d c(3) sw show thesis
    by (intro that) simp_all
qed

lemma unauthenticated_client:
  assumes "ai_token_provider (cl_gateway_interceptor c) = None"
  shows "ready gw c w" "legal_event gw c e" "credentials gw c md \<longleftrightarrow> md = Map.empty"
  using assms by (cases e; simp add: ready_def credentials_def)+

lemma worker_example_started:
  assumes "worker_run channel_ok (with_handler (worker_example_handle_job sj gw)
       (with_job_type ''payment-service'' (client_job_worker client))) = Ok sw"
    and "ai_token_provider (cl_gateway_interceptor client) = None" "channel_contract channel_ok"
  shows "initial_poller (sw_poller sw)"
    "sw_handler sw = plain_handler (worker_example_handle_job sj gw)"
    "ai_token_provider (cl_gateway_interceptor (sw_client sw)) = None"
    "jp_max_jobs_active (sw_poller sw) = 32" "ajr_type (jp_request (sw_poller sw)) = ''payment-service''"
    "ajr_worker (jp_request (sw_poller sw)) = ''default''"
proof -
  have "configure [JobType ''payment-service'', Handler (worker_example_handle_job sj gw)]
      (client_job_worker client) = Ok (with_handler (worker_example_handle_job sj gw)
       (with_job_type ''payment-service'' (client_job_worker client)))"
    by simp
  from started_worker_initial(1) [OF builder_ok_configure [OF builder_ok_new this] assms(3,1)]
  show "initial_poller (sw_poller sw)" .
qed (use assms(1,2) in \<open>auto simp: worker_run_eq_Ok_iff with_handler_def with_job_type_def
    client_job_worker_def job_worker_builder_new_def DEFAULT_JOB_WORKER_MAX_JOB_ACTIVE_def
    u32_as_i32_def i32_as_u32_def\<close>)

text \<open>
  C19: The worker example does what it says: when \<open>main\<close> has got as far as its worker, it has deployed the
  order process from its file and created one instance of it, in this order and nothing else; and
  whatever happens then, in every reachable state the requests since are, without credentials,
  requests for between 1 and 32 jobs of the type \<open>payment-service\<close> and completions of jobs, one
  for each job whose handler is done and none for any other.
\<close>

theorem worker_example_completes_jobs:
  assumes "worker_example_main tr fs sj order gw channel_ok w = (Ok sw, w')"
    and "channel_contract channel_ok"
    and "run (system_step gw sw cfg) (system_start sw w') es s"
  shows "\<exists>d sent. fs order_process_file = Inr (Inr d) \<and>
    wd_wire (sy_world s) = wd_wire w @
      [(Map.empty, DeployProcess \<lparr>dpr_processes =
          [\<lparr>pro_name = order_process_file, pro_definition = d\<rparr>]\<rparr>),
       (Map.empty, CreateProcessInstance \<lparr>cpr_process_definition_key = 0,
          cpr_bpmn_process_id = ''order-process'', cpr_version = - 1,
          cpr_variables = sj_to_string sj order\<rparr>)] @ sent \<and>
    (\<forall>(md, m) \<in> set sent. md = Map.empty \<and>
       ((\<exists>k. m = CompleteJob \<lparr>cjr_job_key = k, cjr_variables = []\<rparr>) \<or>
        (\<exists>r. m = ActivateJobs r \<and> ajr_type r = ''payment-service'' \<and> ajr_worker r = ''default'' \<and>
           1 \<le> sint (ajr_max_jobs_to_activate r) \<and> requested r \<le> 32))) \<and>
    mset (reported_keys sent) = mset (map aj_key (ws_reporting (sy_worker s))) +
      mset (map aj_key (ws_finished (sy_worker s)))"
proof -
  obtain d client where d: "fs order_process_file = Inr (Inr d)"
    and c: "ai_token_provider (cl_gateway_interceptor client) = None"
    and run: "worker_run channel_ok (with_handler (worker_example_handle_job sj gw)
       (with_job_type ''payment-service'' (client_job_worker client))) = Ok sw"
    and w': "w' = w\<lparr>wd_wire := wd_wire w @
       [(Map.empty, DeployProcess \<lparr>dpr_processes =
           [\<lparr>pro_name = order_process_file, pro_definition = d\<rparr>]\<rparr>),
        (Map.empty, CreateProcessInstance \<lparr>cpr_process_definition_key = 0,
           cpr_bpmn_process_id = ''order-process'', cpr_version = - 1,
           cpr_variables = sj_to_string sj order\<rparr>)]\<rparr>"
    by (rule worker_example_main_Ok [OF assms(1)])
  note init = worker_example_started(1) [OF run c assms(2)] and sw = worker_example_started(2-6) [OF run c assms(2)]
  note quiet = unauthenticated_client [OF sw(2)] and reports = worker_example_reports [OF sw(1)]
  have legal: "\<forall>e \<in> set es. legal_event gw (sw_client sw) e"
    using quiet(2) by blast
  obtain sent where sent: "wd_wire (sy_world s) = wd_wire w' @ sent"
      "subseq (activations sent) (ws_requests (sy_worker s))"
      "\<forall>(md, m) \<in> set sent. credentials gw (sw_client sw) md \<and>
       (job_key_of m \<noteq> None \<and> (\<exists>k. m = CompleteJob \<lparr>cjr_job_key = k, cjr_variables = []\<rparr>) \<or>
        (\<exists>r. m = ActivateJobs r \<and> same_settings (jp_request (sw_poller sw)) r \<and>
           1 \<le> sint (ajr_max_jobs_to_activate r) \<and>
           requested r \<le> unat (jp_max_jobs_active (sw_poller sw))))"
    by (rule reachable_requests [OF assms(3) init quiet(1) reports legal])
  have kinds: "md = Map.empty \<and>
      ((\<exists>k. m = CompleteJob \<lparr>cjr_job_key = k, cjr_variables = []\<rparr>) \<or>
       (\<exists>r. m = ActivateJobs r \<and> ajr_type r = ''payment-service'' \<and> ajr_worker r = ''default'' \<and>
          1 \<le> sint (ajr_max_jobs_to_activate r) \<and> requested r \<le> 32))"
    if "(md, m) \<in> set sent" for md m
    using bspec [OF sent(3) that] sw(3-5) by (auto simp: quiet(3) same_settings_def)
  have wire: "wd_wire (sy_world s) = wd_wire w @
      [(Map.empty, DeployProcess \<lparr>dpr_processes =
          [\<lparr>pro_name = order_process_file, pro_definition = d\<rparr>]\<rparr>),
       (Map.empty, CreateProcessInstance \<lparr>cpr_process_definition_key = 0,
          cpr_bpmn_process_id = ''order-process'', cpr_version = - 1,
          cpr_variables = sj_to_string sj order\<rparr>)] @ sent"
    using sent(1) by (simp add: w')
  from kinds have "\<forall>(md, m) \<in> set sent. md = Map.empty \<and>
       ((\<exists>k. m = CompleteJob \<lparr>cjr_job_key = k, cjr_variables = []\<rparr>) \<or>
        (\<exists>r. m = ActivateJobs r \<and> ajr_type r = ''payment-service'' \<and> ajr_worker r = ''default'' \<and>
           1 \<le> sint (ajr_max_jobs_to_activate r) \<and> requested r \<le> 32))"
    by (intro ballI) (simp only: split_paired_all prod.case)
  with d wire reachable_reports [OF assms(3) quiet(1) reports(1) legal sent(1)] show ?thesis
    by (intro exI conjI)
qed

text \<open>A gateway that accepts everything, and the file of the example.\<close>

definition example_open_gateway :: gateway where
  "example_open_gateway = example_gateway
     \<lparr>gw_create_process_instance := (\<lambda>_ _ r. Inr \<lparr>cps_process_definition_key = 1,
        cps_bpmn_process_id = cpr_bpmn_process_id r, cps_version = 1, cps_process_instance_key = 2\<rparr>)\<rparr>"

definition worker_example_files :: files where
  "worker_example_files path = (if path = order_process_file then Inr (Inr [60]) else Inl ''not found'')"

lemma example_worker_example_main:
  obtains sw :: "nat started_worker" and w' where
    "worker_example_main example_transport worker_example_files example_json ''{}'' example_open_gateway
       example_channel_ok example_world = (Ok sw, w')"
    "sw_poller sw = example_poller" "ai_token_provider (cl_gateway_interceptor (sw_client sw)) = None"
proof -
  let ?c = "client_of_interceptor example_channel auth_interceptor_default :: nat client"
  have client: "client_default example_transport example_world = Ok (?c, example_world)"
    using example_build_channel
    by (simp add: client_default_def client_from_config_def example_client_config_def
        client_config_default_def client_config_with_endpoints_def)
  have c: "ai_token_provider (cl_gateway_interceptor ?c) = None"
    by (simp add: client_of_interceptor_def auth_interceptor_default_def)
  then have call: "call_metadata example_open_gateway ?c w = Inr Map.empty" for w
    by (simp add: call_metadata_bears_token bears_no_token)
  obtain sw where sw: "worker_run example_channel_ok
      (with_handler (worker_example_handle_job example_json example_open_gateway)
        (with_job_type ''payment-service'' (client_job_worker ?c))) = Ok sw"
      "sw_poller sw = example_poller"
    using default_worker_run [of example_channel_ok] by (metis example_channel_contract(2) POLL_QUEUE_CAPACITY_def)
  moreover from sw(1) c have "ai_token_provider (cl_gateway_interceptor (sw_client sw)) = None"
    by (auto simp: worker_run_eq_Ok_iff with_handler_def with_job_type_def client_job_worker_def
        job_worker_builder_new_def)
  moreover have "gw_deploy_process example_open_gateway = (\<lambda>_ _ r. Inr \<lparr>dps_key = 1, dps_processes = []\<rparr>)"
      "gw_create_process_instance example_open_gateway =
         (\<lambda>_ _ r. Inr \<lparr>cps_process_definition_key = 1, cps_bpmn_process_id = cpr_bpmn_process_id r,
            cps_version = 1, cps_process_instance_key = 2\<rparr>)"
    by (simp_all add: example_open_gateway_def example_gateway_def)
  ultimately show thesis
    by (intro that) (auto simp: worker_example_main_def client with_client_def and_then_def
      deploy_process_send_def create_process_instance_send_def send_checked_def gateway_call_eq call
      deploy_process_request_of_def read_process_def worker_example_files_def
      create_process_instance_request_of_def dpb_with_resource_file_def client_deploy_process_def
      deploy_process_builder_new_def cpb_with_variables_def cpb_with_latest_version_def
      cpb_with_bpmn_process_id_def client_create_process_instance_def
      create_process_instance_builder_new_def split: sum.splits)
qed

theorem worker_example_completes_jobs_witness:
  "\<exists>(sw :: nat started_worker) w' s.
    worker_example_main example_transport worker_example_files example_json ''{}'' example_open_gateway
      example_channel_ok example_world = (Ok sw, w') \<and>
    run (system_step example_open_gateway sw example_worker_config) (system_start sw w')
      [Work Tick, MakeCall 0] s \<and>
    (\<exists>sent. wd_wire (sy_world s) =
      [(Map.empty, DeployProcess \<lparr>dpr_processes =
          [\<lparr>pro_name = order_process_file, pro_definition = [60]\<rparr>]\<rparr>),
       (Map.empty, CreateProcessInstance \<lparr>cpr_process_definition_key = 0,
          cpr_bpmn_process_id = ''order-process'', cpr_version = - 1, cpr_variables = ''{}''\<rparr>)] @ sent)"
proof -
  obtain sw :: "nat started_worker" and w' where main:
    "worker_example_main example_transport worker_example_files example_json ''{}'' example_open_gateway
       example_channel_ok example_world = (Ok sw, w')"
    and sw: "sw_poller sw = example_poller"
      "ai_token_provider (cl_gateway_interceptor (sw_client sw)) = None"
    by (rule example_worker_example_main)
  have "\<exists>s. run (system_step example_open_gateway sw example_worker_config) (system_start sw w')
      [Work Tick, MakeCall 0] s"
    by (simp add: run_Cons_iff system_step_simps worker_step_simps receive_eq_Some_iff
        system_start_def sw example_request_sent task_at_def worker_start_def
        del: on_message.simps)
  then obtain s where s: "run (system_step example_open_gateway sw example_worker_config)
      (system_start sw w') [Work Tick, MakeCall 0] s"
    by blast
  have "wd_wire example_world = []" "sj_to_string example_json v = v" for v
    by (simp_all add: example_world_def example_json_def)
  moreover have "worker_example_files order_process_file = Inr (Inr d) \<longleftrightarrow> d = [60]" for d
    by (auto simp: worker_example_files_def)
  ultimately show ?thesis
    using worker_example_completes_jobs [OF main example_channel_contract(1) s] main s
    by (intro exI [of _ sw] exI [of _ w'] exI [of _ s]) auto
qed

subsection \<open>\<open>topology.rs\<close>\<close>

definition topology_example_main ::
    "transport \<Rightarrow> gateway \<Rightarrow> world \<Rightarrow> (topology_response, error) outcome \<times> world" where
  "topology_example_main tr gw w =
     with_client
       (client_from_config tr (client_config_with_endpoints [''http://0.0.0.0:26500'']) w) w
       (\<lambda>client :: unit client. \<lambda>w. topology_send gw (client_topology client) w)"

lemma topology_example_sends_once:
  "wd_wire (snd (topology_example_main tr gw w)) =
     (if is_ok (build_channel tr [''http://0.0.0.0:26500''] None)
      then wd_wire w @ [(Map.empty, Topology TopologyRequest)] else wd_wire w)"
proof (cases "build_channel tr [''http://0.0.0.0:26500''] None")
  case (Ok ch)
  let ?c = "client_of_interceptor ch auth_interceptor_default :: unit client"
  have "call_metadata gw ?c w = Inr Map.empty"
    by (simp add: call_metadata_bears_token bears_no_token client_of_interceptor_def
        auth_interceptor_default_def)
  with Ok show ?thesis
    by (simp add: topology_example_main_def with_client_def client_from_config_def
        client_config_with_endpoints_def topology_send_def send_checked_def gateway_call_eq
        client_topology_def topology_builder_new_def)
qed (simp_all add: topology_example_main_def with_client_def client_from_config_def
    client_config_with_endpoints_def)

subsection \<open>\<open>oauth.rs\<close>\<close>

text \<open>The background task of the client's provider, for these refreshes.\<close>

definition refresh_client :: "tick list \<Rightarrow> 'v client \<Rightarrow> world \<Rightarrow> world" where
  "refresh_client ks c w =
     (case ai_token_provider (cl_auth_interceptor c) of
        None \<Rightarrow> w
      | Some a \<Rightarrow>
          w\<lparr>wd_providers := (wd_providers w)(a := background_task ks (wd_providers w a))\<rparr>)"

text \<open>
  \<open>main\<close>: the environment is the one after the \<open>.env\<close> file has been read. The background task may
  make some refreshes before \<open>main\<close> subscribes and some after; \<open>None\<close> says that after these \<open>main\<close>
  still waits.
\<close>

definition oauth_example_main ::
    "transport \<Rightarrow> environment \<Rightarrow> (nat \<Rightarrow> (string + unit) option) \<Rightarrow> tick list \<Rightarrow> tick list \<Rightarrow> gateway
      \<Rightarrow> world \<Rightarrow> ((topology_response, error) outcome \<times> world) option" where
  "oauth_example_main tr env recv before after gw w =
     (case client_from_env tr env w :: (unit client \<times> world, error) outcome of
        Err e \<Rightarrow> Some (Err e, w)
      | Panic p \<Rightarrow> Some (Panic p, w)
      | Ok (client, w0) \<Rightarrow>
          let subscribed = refresh_client before client w0;
              now = refresh_client after client subscribed
          in map_option
               (\<lambda>r. case r of
                  Ok u \<Rightarrow> topology_send gw (client_topology client) now
                | Err e \<Rightarrow> (Err e, now)
                | Panic p \<Rightarrow> (Panic p, now))
               (client_auth_initialized recv subscribed now client))"

lemma client_from_env_auth:
  assumes "client_from_env tr env w = Ok (c, w0)" "should_use_env_config env"
  obtains a where "cl_auth_interceptor c = \<lparr>ai_token_provider = Some a\<rparr>"
    "cl_gateway_interceptor c = \<lparr>ai_token_provider = Some a\<rparr>"
    "\<not> mx_poisoned (tp_cached_token (wd_providers w0 a))"
    "mx_contents (tp_cached_token (wd_providers w0 a)) = None" "wd_wire w0 = wd_wire w"
proof -
  from assms obtain config auth where
    "client_config_from_env tr env = Ok config" "cc_auth config = Some auth"
    and made: "client_from_config tr config w = Ok (c, w0)"
    by (auto simp: client_from_env_def client_config_from_env_def bind_outcome_eq_Ok_iff)
  then obtain ch i ps where
    "auth_interceptor_init (tr_parse_auth_url tr) (wd_next_provider w) auth (wd_providers w) = Ok (i, ps)"
    "c = client_of_interceptor ch i"
    "w0 = w\<lparr>wd_providers := ps, wd_next_provider := Suc (wd_next_provider w)\<rparr>"
    by (auto simp: client_from_config_def bind_outcome_eq_Ok_iff)
  then show thesis
    by (cases rule: auth_interceptor_init_cases [of "tr_parse_auth_url tr" auth "wd_next_provider w"
          "wd_providers w"])
      (auto simp: client_of_interceptor_def new_token_provider_def intro: that [of "wd_next_provider w"])
qed

lemma refresh_client_eq:
  assumes "cl_auth_interceptor c = \<lparr>ai_token_provider = Some a\<rparr>"
  shows "refresh_client ks c w =
    w\<lparr>wd_providers := (wd_providers w)(a := background_task ks (wd_providers w a))\<rparr>"
  using assms by (simp add: refresh_client_def)

lemma oauth_example_waits:
  fixes c :: "unit client"
  assumes "client_from_env tr env w = Ok (c, w0)"
    and "cl_auth_interceptor c = \<lparr>ai_token_provider = Some a\<rparr>"
    and "background_task before (wd_providers w0 a) = p" "background_task after p = q"
  shows "oauth_example_main tr env recv before after gw w =
    map_option (\<lambda>r. let now = w0\<lparr>wd_providers := (wd_providers w0)(a := q)\<rparr> in
        case r of
          Ok u \<Rightarrow> topology_send gw (client_topology c) now
        | Err e \<Rightarrow> (Err e, now)
        | Panic p \<Rightarrow> (Panic p, now))
      (provider_auth_initialized recv p q)"
  using assms
  by (simp add: oauth_example_main_def refresh_client_eq [OF assms(2)] client_auth_initialized_def
      auth_initialized_def Let_def)

lemma oauth_example_sends:
  fixes c :: "unit client"
  assumes "client_from_env tr env w = Ok (c, w0)" "should_use_env_config env"
    and "cl_auth_interceptor c = \<lparr>ai_token_provider = Some a\<rparr>"
    and "background_task before (wd_providers w0 a) = p" "background_task after p = q"
    and "provider_auth_initialized recv p q = Some (Ok ())"
    and "access_token q = Ok t" "gw_metadata_value gw (''Bearer '' @ t) = Inr v"
  shows "\<exists>result w'. oauth_example_main tr env recv before after gw w = Some (result, w') \<and>
    wd_wire w' = wd_wire w @ [([''authorization'' \<mapsto> v], Topology TopologyRequest)]"
proof -
  obtain a' where a': "cl_auth_interceptor c = \<lparr>ai_token_provider = Some a'\<rparr>"
      "cl_gateway_interceptor c = \<lparr>ai_token_provider = Some a'\<rparr>" and wire: "wd_wire w0 = wd_wire w"
    by (rule client_from_env_auth [OF assms(1,2)])
  with assms(3) have gwi: "cl_gateway_interceptor c = \<lparr>ai_token_provider = Some a\<rparr>"
    by simp
  let ?now = "w0\<lparr>wd_providers := (wd_providers w0)(a := q)\<rparr>"
  have "call_metadata gw c ?now = Inr [''authorization'' \<mapsto> v]"
    using assms(7,8) by (simp add: call_metadata_bears_token bears_token_def gwi)
  then have "wd_wire (snd (topology_send gw (client_topology c) ?now)) =
      wd_wire w @ [([''authorization'' \<mapsto> v], Topology TopologyRequest)]"
    by (simp add: topology_send_def send_checked_def gateway_call_eq client_topology_def
        topology_builder_new_def wire)
  moreover have "oauth_example_main tr env recv before after gw w =
      Some (topology_send gw (client_topology c) ?now)"
    by (simp add: oauth_example_waits [OF assms(1,3-5)] assms(6))
  ultimately show ?thesis
    by (metis surjective_pairing)
qed

text \<open>
  C21: When the OAuth example gets to its request is a race: suppose the environment configures OAuth and
  the identity server answers the first refresh with a legal token. If that refresh comes after
  \<open>main\<close> has begun to wait, \<open>main\<close> sends its one request, and with that very token. If it comes
  before (the task that makes it is spawned when the client is made), \<open>main\<close> waits through every
  refresh that still finds the token good, although its client has the token all that time; it is
  only released when the token has run into the clock skew buffer and a refresh gets another one,
  with which the request is then sent. What it relies on of the broadcast channel: a receiver that
  has been sent exactly one message since it subscribed gets it, and one that has been sent nothing
  waits.
\<close>

theorem oauth_example_is_a_race:
  fixes c :: "unit client"
  assumes "client_from_env tr env w = Ok (c, w0)" "should_use_env_config env"
    and "cl_auth_interceptor c = \<lparr>ai_token_provider = Some a\<rparr>"
    and "recv 0 = None" "recv 1 = Some (Inr ())"
    and "\<forall>req. tk_server k req = ExchangeOk r" "run_tick k (wd_providers w0 a) = Ok p"
    and "gw_metadata_value gw (''Bearer '' @ trs_access_token r) = Inr v"
    and "token_expiry p = Some e" "e \<le> system_time_max"
    and "\<forall>k \<in> set ks. tk_checked k + CLOCK_SKEW_BUFFER < e"
    and "\<forall>req. tk_server k' req = ExchangeOk r'" "run_tick k' p = Ok p'"
    and "e \<le> tk_checked k' + CLOCK_SKEW_BUFFER" "tk_checked k' + CLOCK_SKEW_BUFFER \<le> system_time_max"
    and "gw_metadata_value gw (''Bearer '' @ trs_access_token r') = Inr v'"
  shows "(\<exists>result w'. oauth_example_main tr env recv [] [k] gw w = Some (result, w') \<and>
      wd_wire w' = wd_wire w @ [([''authorization'' \<mapsto> v], Topology TopologyRequest)]) \<and>
    oauth_example_main tr env recv [k] ks gw w = None \<and>
    (\<exists>result w'. oauth_example_main tr env recv [k] (ks @ [k']) gw w = Some (result, w') \<and>
      wd_wire w' = wd_wire w @ [([''authorization'' \<mapsto> v'], Topology TopologyRequest)])"
proof -
  obtain a' where "cl_auth_interceptor c = \<lparr>ai_token_provider = Some a'\<rparr>"
      "\<not> mx_poisoned (tp_cached_token (wd_providers w0 a'))"
      "mx_contents (tp_cached_token (wd_providers w0 a')) = None"
    by (rule client_from_env_auth [OF assms(1,2)])
  with assms(3) have fresh: "\<not> mx_poisoned (tp_cached_token (wd_providers w0 a))"
      "mx_contents (tp_cached_token (wd_providers w0 a)) = None"
    by simp_all
  have usable: "\<not> mx_poisoned (tp_cached_token p)"
    using assms(9) by (simp add: token_expiry_eq_Some_iff)
  have first: "provider_auth_initialized recv (wd_providers w0 a) p = Some (Ok ())"
      "access_token p = Ok (trs_access_token r)"
    using auth_initialized_on_new_token [where recv = recv and k = k, OF assms(5) fresh(1) no_token_is_expired [OF fresh]]
      assms(6,7) by blast+
  have second: "provider_auth_initialized recv p p' = Some (Ok ())"
      "access_token p' = Ok (trs_access_token r')"
    using auth_initialized_on_new_token [where recv = recv and k = k', OF assms(5) usable token_is_expired [OF assms(9,14,15)]]
      assms(12,13) by blast+
  have k: "background_task [k] (wd_providers w0 a) = p"
    by (simp add: assms(7))
  have good: "background_refresh ks p = Ok p"
    by (rule background_refresh_unchanged [OF assms(9) _ assms(10)]) (use assms(11) in blast)
  have "background_task (ks @ [k']) p = p'"
    by (simp add: background_task_append [OF good] assms(13))
  note next_token = oauth_example_sends [OF assms(1-3) k this second assms(16)]
  have "provider_auth_initialized recv p p = None"
    using assms(4) by (simp add: provider_auth_initialized_def)
  then have "oauth_example_main tr env recv [k] ks gw w = None"
    by (simp add: oauth_example_waits [OF assms(1,3) k background_task_eq [OF good]])
  with next_token show ?thesis
    using oauth_example_sends [OF assms(1-3) _ k first assms(8)] by simp
qed

definition example_oauth_environment :: environment where
  "example_oauth_environment = [CLIENT_ID_VAR \<mapsto> ''id'', CLIENT_SECRET_VAR \<mapsto> ''secret'',
     TOKEN_AUDIENCE_VAR \<mapsto> ''aud'', AUTHORIZATION_SERVER_URL_VAR \<mapsto> ''https://auth'',
     HOST \<mapsto> ''http://127.0.0.1'']"

lemmas environment_names = CLIENT_ID_VAR_def CLIENT_SECRET_VAR_def TOKEN_AUDIENCE_VAR_def
  AUTHORIZATION_SERVER_URL_VAR_def AUTH_REQUEST_TIMEOUT_VAR_def HOST_def PORT_def ADDRESS_def
  CA_CERTIFICATE_PATH_def

lemma example_client_from_env:
  "client_from_env example_transport example_oauth_environment example_world =
     Ok (client_of_interceptor example_channel \<lparr>ai_token_provider = Some 0\<rparr>,
         example_world\<lparr>wd_providers := (wd_providers example_world)(0 := example_provider),
           wd_next_provider := 1\<rparr>)"
proof -
  have "oauth_config_from_env example_oauth_environment = Ok example_config"
    by (simp add: oauth_config_from_env_def auth_timeout_from_env_def example_oauth_environment_def
        environment_names example_config_def DEFAULT_AUTH_REQUEST_TIMEOUT_def)
  moreover have "address_from_env example_oauth_environment = ''http://127.0.0.1:26500''"
    by (simp add: address_from_env_def example_oauth_environment_def environment_names
        DEFAULT_ADDRESS_PORT_def)
  ultimately have "client_config_from_env example_transport example_oauth_environment =
      Ok example_client_config"
    by (simp add: client_config_from_env_def tls_from_env_def should_use_env_config_def
        example_client_config_def client_config_default_def client_config_with_endpoints_def
        DEFAULT_ADDRESS_HOST_def DEFAULT_ADDRESS_PORT_def)
      (simp add: example_oauth_environment_def environment_names)
  then show ?thesis
    using example_build_channel
    by (simp add: client_from_env_def client_from_config_def)
      (simp add: example_client_config_def auth_interceptor_init_def example_transport_def
        example_config_def example_provider_def example_world_def)
qed

text \<open>The identity server answers the check at 150 seconds with another token.\<close>

definition example_next_tick :: tick where
  "example_next_tick = \<lparr>tk_server = \<lambda>_. ExchangeOk example_token_response,
     tk_checked = from_secs 150, tk_received = from_secs 151\<rparr>"

lemma example_next_refresh:
  "run_tick example_next_tick example_refreshed = Ok (notify_initialized (store_token
     \<lparr>te_response = example_token_response, te_expires_at = from_secs 211\<rparr> example_refreshed))"
  by (simp add: run_tick_def example_next_tick_def refresh_token_def cached_token_is_expired_def
      request_token_def example_refreshed_def example_provider_defs store_token_def notify_initialized_def
      lock_def system_time_add_def system_time_max_def CLOCK_SKEW_BUFFER_def from_secs_def)

theorem oauth_example_is_a_race_witness:
  "(\<exists>result w'. oauth_example_main example_transport example_oauth_environment
        (\<lambda>n. if n = 0 then None else Some (Inr ())) [] [example_tick] example_gateway example_world =
        Some (result, w') \<and>
      wd_wire w' = [([''authorization'' \<mapsto> ''Bearer tok''], Topology TopologyRequest)]) \<and>
    oauth_example_main example_transport example_oauth_environment
      (\<lambda>n. if n = 0 then None else Some (Inr ())) [example_tick] [example_tick] example_gateway
      example_world = None \<and>
    (\<exists>result w'. oauth_example_main example_transport example_oauth_environment
        (\<lambda>n. if n = 0 then None else Some (Inr ())) [example_tick] [example_tick, example_next_tick]
        example_gateway example_world = Some (result, w') \<and>
      wd_wire w' = [([''authorization'' \<mapsto> ''Bearer tok''], Topology TopologyRequest)])"
proof -
  let ?w0 = "example_world\<lparr>wd_providers := (wd_providers example_world)(0 := example_provider),
           wd_next_provider := 1\<rparr>"
  have env: "should_use_env_config example_oauth_environment"
    by (simp add: should_use_env_config_def example_oauth_environment_def environment_names)
  have tick: "run_tick example_tick (wd_providers ?w0 0) = Ok example_refreshed"
    by (simp add: run_tick_def example_tick_def example_refresh)
  have expiry: "token_expiry example_refreshed = Some (from_secs 161)"
    by (simp add: token_expiry_eq_Some_iff example_refreshed_def store_token_unpoisoned
        example_provider_defs)
  have answer: "\<forall>req. tk_server example_tick req = ExchangeOk example_token_response"
      "\<forall>req. tk_server example_next_tick req = ExchangeOk example_token_response"
    by (simp_all add: example_tick_def example_next_tick_def)
  show ?thesis
    using oauth_example_is_a_race [OF example_client_from_env env, of 0
        "\<lambda>n. if n = 0 then None else Some (Inr ())" example_tick example_token_response
        example_refreshed example_gateway "''Bearer tok''" "from_secs 161" "[example_tick]"
        example_next_tick example_token_response _ "''Bearer tok''"]
      tick expiry answer example_next_refresh
    by (simp add: client_of_interceptor_def example_gateway_def example_token_response_def
        system_time_max_def from_secs_def example_tick_def example_next_tick_def CLOCK_SKEW_BUFFER_def)
      (simp add: example_world_def)
qed

end
