(* ===== verification/Example_Auto_Handler.thy ===== *)
theory Example_Auto_Handler
  imports Example_Programs Shared_Handlers
begin

text \<open>
  The example \<open>auto_handler.rs\<close>: a handler that adds the number in each job's variables to a total that
  all jobs of the worker share, and completes the job with the new total. It is the only code that
  uses extraction, shared state and the report of a result together, so what it computes is a check
  on all three: the handler implements a sequential machine (it interprets \<open>atomic_handler\<close>), the totals
  are the running sums, and an overflow ends the worker.
\<close>

subsection \<open>The types and the handler\<close>

record my_job_data =
  md_increment :: u32

record my_job_result =
  mr_result :: u32

text \<open>
  \<open>JobState\<close> holds a \<open>Cell<u32>\<close>. The addition of two \<open>u32\<close> panics on overflow if the build has
  overflow checks (as debug builds do) and wraps otherwise.
\<close>

record job_state =
  js_total :: u32

definition u32_add :: "bool \<Rightarrow> u32 \<Rightarrow> u32 \<Rightarrow> (u32, 'e) outcome" where
  "u32_add checks a b =
     (if checks \<and> \<not> unat a + unat b < 2 ^ 32 then Panic ''attempt to add with overflow'' else Ok (a + b))"

definition handle_job ::
    "bool \<Rightarrow> my_job_data data \<Rightarrow> job_state shared_state \<Rightarrow> job_state heap
      \<Rightarrow> (my_job_result, string) outcome \<times> job_state heap" where
  "handle_job checks job_data state h =
     (case state_get_ref state h of
        None \<Rightarrow> (Panic ''no such state'', h)
      | Some cell \<Rightarrow>
          (case u32_add checks (js_total cell) (md_increment (data_deref job_data)) of
             Ok new_total \<Rightarrow>
               (Ok \<lparr>mr_result = new_total\<rparr>, state_update (js_total_update (\<lambda>_. new_total)) state h)
           | Err e \<Rightarrow> (Err e, h)
           | Panic p \<Rightarrow> (Panic p, h)))"

text \<open>
  The function as an auto handler sees it: its parameters are \<open>Data<MyJobData>\<close> and \<open>State<JobState>\<close>,
  and it reads the heap as it is when it is called. It awaits nothing, so no other job runs in
  between.
\<close>

definition counter_extractors :: "(string \<Rightarrow> serde_error + my_job_data) \<Rightarrow> my_job_data data extractor list"
where
  "counter_extractors from_str =
     [FromData (\<lambda>s. map_sum (\<lambda>e. e) Data (from_str s)), FromState (TypeName ''JobState'')]"

fun counter_parameters ::
    "(job_state shared_state, my_job_data data) extracted list
      \<Rightarrow> (my_job_data data \<times> job_state shared_state) option" where
  "counter_parameters [ExtractedData d, ExtractedState s] = Some (d, s)"
| "counter_parameters _ = None"

definition counter_handler ::
    "bool \<Rightarrow> job_state heap \<Rightarrow> (job_state shared_state, my_job_data data, my_job_result) user_handler" where
  "counter_handler checks h params w =
     (case counter_parameters params of
        Some (d, s) \<Rightarrow> (fst (handle_job checks d s h), w)
      | None \<Rightarrow> (Panic ''parameters'', w))"

subsection \<open>The program\<close>

text \<open>
  \<open>main\<close> up to the worker: the state is allocated by \<open>with_state\<close>. The closure given to the builder
  reads the heap when it is called; \<open>counter_handler_at\<close> is that closure on the heap of the moment,
  and \<open>counter_effect\<close> what it makes of the heap.
\<close>

definition counter_handler_at ::
    "bool \<Rightarrow> ('j, my_job_result) handler_formats \<Rightarrow> gateway \<Rightarrow> (string \<Rightarrow> serde_error + my_job_data)
      \<Rightarrow> job_state heap \<Rightarrow> job_state shared_state job_handler" where
  "counter_handler_at checks hf gw from_str h =
     auto_handler hf gw (counter_extractors from_str) (counter_handler checks h)"

definition counter_main ::
    "bool \<Rightarrow> ('j, my_job_result) handler_formats \<Rightarrow> gateway \<Rightarrow> (string \<Rightarrow> serde_error + my_job_data)
      \<Rightarrow> transport \<Rightarrow> (nat \<Rightarrow> bool) \<Rightarrow> job_state heap \<Rightarrow> world
      \<Rightarrow> (job_state shared_state started_worker \<times> job_state heap, error) outcome \<times> world" where
  "counter_main checks hf gw from_str tr channel_ok h w =
     with_client (client_new tr w) w (\<lambda>client w.
       let (b, h') = with_new_state (TypeName ''JobState'') \<lparr>js_total = 0\<rparr>
             (with_auto_handler hf gw (counter_extractors from_str) (counter_handler checks h)
               (with_job_type ''my-job-type'' (client_job_worker client))) h
       in (bind_outcome (worker_run channel_ok b) (\<lambda>sw. Ok (sw, h')), w))"

definition counter_effect ::
    "bool \<Rightarrow> (string \<Rightarrow> serde_error + my_job_data) \<Rightarrow> job_state shared_state started_worker
      \<Rightarrow> job_state heap \<Rightarrow> job \<Rightarrow> job_state heap" where
  "counter_effect checks from_str sw h job =
     (case tuple_from_job (counter_extractors from_str)
             (job_client (sw_data sw) (sw_client sw) job) job of
        Ok params \<Rightarrow>
          (case counter_parameters params of
             Some (d, s) \<Rightarrow> snd (handle_job checks d s h)
           | None \<Rightarrow> h)
      | _ \<Rightarrow> h)"

subsection \<open>What one job does\<close>

text \<open>The state's value is \<open>n\<close>, in its own live cell.\<close>

definition counter_at :: "job_state shared_state started_worker \<Rightarrow> job_state heap \<Rightarrow> u32 \<Rightarrow> bool" where
  "counter_at sw h n \<longleftrightarrow>
     (\<exists>s. ext_get (StateOf (TypeName ''JobState'')) (sw_data sw) = Some s \<and>
        state_get_ref s h = Some \<lparr>js_total = n\<rparr>)"

lemma counter_main_Ok:
  assumes "counter_main checks hf gw from_str tr channel_ok h w = (Ok (sw, h'), w')"
  shows "w' = w" "counter_at sw h' 0" "ai_token_provider (cl_gateway_interceptor (sw_client sw)) = None"
proof -
  from assms(1) obtain client :: "job_state shared_state client" and w1 where made: "client_new tr w = Ok (client, w1)"
    unfolding counter_main_def with_client_Ok by blast
  obtain b h1 where b: "with_new_state (TypeName ''JobState'') \<lparr>js_total = 0\<rparr>
      (with_auto_handler hf gw (counter_extractors from_str) (counter_handler checks h)
        (with_job_type ''my-job-type'' (client_job_worker client))) h = (b, h1)"
    by fastforce
  from assms(1) have run: "worker_run channel_ok b = Ok sw" "h1 = h'" "w1 = w'"
    by (simp_all add: counter_main_def with_client_def made b bind_outcome_eq_Ok_iff)
  note client = made [unfolded run(3)] and new = b [unfolded run(2)]
  note c = client_default_Ok [OF client [unfolded client_new_def]]
  show "w' = w"
    by (rule c(1))
  have sw: "sw_data sw = jwb_data b" "sw_client sw = jwb_client b"
    using run(1) by (auto simp: worker_run_eq_Ok_iff)
  have "jwb_client b = client"
    using new
    by (auto simp: with_auto_handler_def with_handler_def with_new_state_def state_new_def arc_new_def
        with_state_def with_job_type_def client_job_worker_def job_worker_builder_new_def)
  with c(3) sw(2) show "ai_token_provider (cl_gateway_interceptor (sw_client sw)) = None"
    by simp
  from ext_get_with_new_state [OF new] show "counter_at sw h' 0"
    by (simp add: counter_at_def sw(1))
qed

lemma call_without_provider:
  assumes "ai_token_provider (cl_gateway_interceptor (sw_client sw)) = None"
  shows "call_metadata gw (job_client x (sw_client sw) job) w = Inr Map.empty"
  using assms by (simp add: call_metadata_bears_token bears_token_def)

text \<open>
  The sequential machine: its state is the total (as a number, which wraps in the heap if the build
  does not check), and a result is turned into JSON by \<open>val\<close>.
\<close>

definition job_number :: "(string \<Rightarrow> serde_error + my_job_data) \<Rightarrow> job \<Rightarrow> serde_error + nat" where
  "job_number from_str job = map_sum (\<lambda>e. e) (\<lambda>d. unat (md_increment d)) (from_str (job_variables_str job))"

definition counter_report ::
    "('j, my_job_result) handler_formats \<Rightarrow> (u32 \<Rightarrow> 'j) \<Rightarrow> job \<Rightarrow> nat \<Rightarrow> grpc_request" where
  "counter_report hf val job t =
     CompleteJob \<lparr>cjr_job_key = job_key job, cjr_variables = sj_to_string (hf_json hf) (val (word_of_nat t))\<rparr>"

definition refusal_report :: "('j, my_job_result) handler_formats \<Rightarrow> job \<Rightarrow> serde_error \<Rightarrow> grpc_request" where
  "refusal_report hf job err =
     FailJob \<lparr>fjr_job_key = job_key job, fjr_retries = 0,
       fjr_error_message = extraction_error_message hf (DeserializationError err)\<rparr>"

definition counter_next ::
    "bool \<Rightarrow> ('j, my_job_result) handler_formats \<Rightarrow> (u32 \<Rightarrow> 'j) \<Rightarrow> (string \<Rightarrow> serde_error + my_job_data)
      \<Rightarrow> nat \<Rightarrow> job \<Rightarrow> (nat \<times> grpc_request) option" where
  "counter_next checks hf val from_str t job =
     (case job_number from_str job of
        Inl err \<Rightarrow> Some (t, refusal_report hf job err)
      | Inr n \<Rightarrow>
          if checks \<and> 2 ^ 32 \<le> t + n then None else Some (t + n, counter_report hf val job (t + n)))"

definition counter_represents ::
    "bool \<Rightarrow> job_state shared_state started_worker \<Rightarrow> job_state heap \<Rightarrow> nat \<Rightarrow> bool" where
  "counter_represents checks sw h t \<longleftrightarrow> counter_at sw h (word_of_nat t) \<and> (checks \<longrightarrow> t < 2 ^ 32)"

lemma counter_parameters_of_job:
  assumes "ext_get (StateOf (TypeName ''JobState'')) (sw_data sw) = Some s"
  shows "tuple_from_job (counter_extractors from_str) (job_client (sw_data sw) (sw_client sw) job) job =
    (case from_str (job_variables_str job) of
       Inl err \<Rightarrow> Err (DeserializationError err)
     | Inr d \<Rightarrow> Ok [ExtractedData (Data d), ExtractedState s])"
  using assms by (simp add: tuple_from_job_def counter_extractors_def split: sum.splits)

lemma u32_add_totals:
  assumes "checks \<longrightarrow> t < 2 ^ 32"
  shows "u32_add checks (word_of_nat t) n =
    (if checks \<and> 2 ^ 32 \<le> t + unat n then Panic ''attempt to add with overflow''
     else Ok (word_of_nat (t + unat n)))"
proof -
  have "checks \<Longrightarrow> unat (word_of_nat t :: u32) = t"
    using assms by (simp add: unat_of_nat take_bit_nat_eq_self)
  then show ?thesis by (auto simp: u32_add_def)
qed

text \<open>One job on the heap is one step of the machine, and unwinds where the machine has none.\<close>

lemma counter_job:
  assumes "counter_represents checks sw h t"
    and "ai_token_provider (cl_gateway_interceptor (sw_client sw)) = None"
    and "\<And>n. hf_to_value hf \<lparr>mr_result = n\<rparr> = Inr (val n)"
  shows "case counter_next checks hf val from_str t job of
      Some (t', r) \<Rightarrow>
        dispatch_job (counter_handler_at checks hf gw from_str h) (sw_data sw) (sw_client sw) job w =
          (Ok (), w\<lparr>wd_wire := wd_wire w @ [(Map.empty, r)]\<rparr>) \<and>
        counter_represents checks sw (counter_effect checks from_str sw h job) t' \<and>
        job_key_of r = Some (job_key job)
    | None \<Rightarrow>
        dispatch_job (counter_handler_at checks hf gw from_str h) (sw_data sw) (sw_client sw) job w =
          (Panic ''attempt to add with overflow'', w) \<and>
        counter_effect checks from_str sw h job = h"
proof -
  obtain s where s: "ext_get (StateOf (TypeName ''JobState'')) (sw_data sw) = Some s"
      "state_get_ref s h = Some \<lparr>js_total = word_of_nat t\<rparr>" and t: "checks \<longrightarrow> t < 2 ^ 32"
    using assms(1) by (auto simp: counter_represents_def counter_at_def)
  note params = counter_parameters_of_job [where from_str = from_str and job = job, OF s(1)]
  note call = call_without_provider [OF assms(2), of gw "sw_data sw" job w]
  note run = counter_handler_at_def auto_handler_reports_once owed_report_def params
    counter_handler_def handle_job_def s(2) data_deref_def u32_add_totals
  show ?thesis
  proof (cases "from_str (job_variables_str job)")
    case (Inl err)
    then show ?thesis
      using assms(1) call
      by (simp add: counter_next_def job_number_def refusal_report_def run counter_effect_def)
  next
    case (Inr d)
    show ?thesis
    proof (cases "checks \<and> 2 ^ 32 \<le> t + unat (md_increment d)")
      case True
      with Inr t show ?thesis
        by (simp add: counter_next_def job_number_def run counter_effect_def)
    next
      case False
      let ?t = "t + unat (md_increment d)"
      have "counter_at sw (state_update (js_total_update (\<lambda>_. word_of_nat ?t)) s h) (word_of_nat ?t)"
        using s by (simp add: counter_at_def)
      with False Inr t assms(3) call show ?thesis
        by (auto simp: counter_next_def job_number_def run counter_effect_def counter_represents_def
            counter_report_def)
    qed
  qed
qed

interpretation counter: atomic_handler "counter_handler_at checks hf gw from_str"
    "counter_effect checks from_str sw" gw sw
    "\<lambda>h t. counter_represents checks sw h t \<and>
       ai_token_provider (cl_gateway_interceptor (sw_client sw)) = None \<and>
       (\<forall>n. hf_to_value hf \<lparr>mr_result = n\<rparr> = Inr (val n))"
    "counter_next checks hf val from_str"
  for checks hf gw from_str sw val
proof unfold_locales
  fix h t w job w'
  assume t: "counter_represents checks sw h t \<and>
      ai_token_provider (cl_gateway_interceptor (sw_client sw)) = None \<and>
      (\<forall>n. hf_to_value hf \<lparr>mr_result = n\<rparr> = Inr (val n))"
    and run: "dispatch_job (counter_handler_at checks hf gw from_str h) (sw_data sw) (sw_client sw) job w =
      (Ok (), w')"
  then have job: "case counter_next checks hf val from_str t job of
      Some (t', r) \<Rightarrow>
        dispatch_job (counter_handler_at checks hf gw from_str h) (sw_data sw) (sw_client sw) job w =
          (Ok (), w\<lparr>wd_wire := wd_wire w @ [(Map.empty, r)]\<rparr>) \<and>
        counter_represents checks sw (counter_effect checks from_str sw h job) t' \<and>
        job_key_of r = Some (job_key job)
    | None \<Rightarrow>
        dispatch_job (counter_handler_at checks hf gw from_str h) (sw_data sw) (sw_client sw) job w =
          (Panic ''attempt to add with overflow'', w) \<and>
        counter_effect checks from_str sw h job = h"
    by (intro counter_job) simp_all
  with t run show "\<exists>b r md. counter_next checks hf val from_str t job = Some (b, r) \<and>
      (counter_represents checks sw (counter_effect checks from_str sw h job) b \<and>
       ai_token_provider (cl_gateway_interceptor (sw_client sw)) = None \<and>
       (\<forall>n. hf_to_value hf \<lparr>mr_result = n\<rparr> = Inr (val n))) \<and>
      job_key_of r = Some (job_key job) \<and> credentials gw (sw_client sw) md \<and>
      w' = w\<lparr>wd_wire := wd_wire w @ [(md, r)]\<rparr>"
    by (cases "counter_next checks hf val from_str t job")
      (auto simp: unauthenticated_client(3) intro!: exI [of _ Map.empty])
next
  fix h t w job b r
  assume "counter_represents checks sw h t \<and>
      ai_token_provider (cl_gateway_interceptor (sw_client sw)) = None \<and>
      (\<forall>n. hf_to_value hf \<lparr>mr_result = n\<rparr> = Inr (val n))"
    and "counter_next checks hf val from_str t job = Some (b, r)"
  with counter_job [where checks = checks and sw = sw and h = h and t = t and hf = hf and val = val
      and from_str = from_str and job = job and gw = gw and w = w]
  show "\<exists>w'. dispatch_job (counter_handler_at checks hf gw from_str h) (sw_data sw) (sw_client sw) job w =
      (Ok (), w')"
    by auto
qed

subsection \<open>Running sums\<close>

text \<open>The reports owed on jobs that are done in this order, from a total of \<open>t\<close>, and the total after them.\<close>

fun counter_reports ::
    "('j, my_job_result) handler_formats \<Rightarrow> (u32 \<Rightarrow> 'j) \<Rightarrow> (string \<Rightarrow> serde_error + my_job_data)
      \<Rightarrow> nat \<Rightarrow> job list \<Rightarrow> grpc_request list" where
  "counter_reports hf val from_str t [] = []"
| "counter_reports hf val from_str t (job # jobs) =
     (case job_number from_str job of
        Inl err \<Rightarrow> refusal_report hf job err # counter_reports hf val from_str t jobs
      | Inr n \<Rightarrow> counter_report hf val job (t + n) # counter_reports hf val from_str (t + n) jobs)"

definition number_of_job :: "(string \<Rightarrow> serde_error + my_job_data) \<Rightarrow> job \<Rightarrow> nat" where
  "number_of_job from_str job = (case job_number from_str job of Inl _ \<Rightarrow> 0 | Inr n \<Rightarrow> n)"

definition counter_sum :: "(string \<Rightarrow> serde_error + my_job_data) \<Rightarrow> job list \<Rightarrow> nat" where
  "counter_sum from_str jobs = sum_list (map (number_of_job from_str) jobs)"

lemma counter_outputs:
  "outputs (counter_next checks hf val from_str) t jobs = Some (t', rs) \<Longrightarrow>
   t' = t + counter_sum from_str jobs \<and> rs = counter_reports hf val from_str t jobs"
proof (induction jobs arbitrary: t rs)
  case (Cons job jobs)
  from Cons.prems Cons.IH show ?case
    by (cases "job_number from_str job")
      (force simp: counter_next_def counter_sum_def number_of_job_def split: if_splits)+
qed (simp add: counter_sum_def)

text \<open>A running handler can be done, or unwinds because its sum does not fit.\<close>

lemma counter_ends:
  assumes "counter_represents checks sw h t"
    and "ai_token_provider (cl_gateway_interceptor (sw_client sw)) = None"
    and "\<And>n. hf_to_value hf \<lparr>mr_result = n\<rparr> = Inr (val n)"
    and "j \<in> set (ws_handling (sy_worker s))"
  shows "if checks \<and> 2 ^ 32 \<le> t + number_of_job from_str (job_new j)
    then dispatch_job (counter_handler_at checks hf gw from_str h) (sw_data sw) (sw_client sw)
      (job_new j) (sy_world s) = (Panic ''attempt to add with overflow'', sy_world s)
    else \<exists>x. shared_step (counter_handler_at checks hf gw from_str)
      (counter_effect checks from_str sw) gw sw cfg (s, h) (Work (HandlerDone j)) x"
proof (cases "checks \<and> 2 ^ 32 \<le> t + number_of_job from_str (job_new j)")
  case True
  moreover have "checks \<longrightarrow> t < 2 ^ 32"
    using assms(1) by (simp add: counter_represents_def)
  ultimately have "counter_next checks hf val from_str t (job_new j) = None"
    by (simp add: counter_next_def number_of_job_def split: sum.splits)
  with True show ?thesis
    using counter_job [where checks = checks and sw = sw and h = h and t = t and hf = hf and val = val
        and from_str = from_str and job = "job_new j" and gw = gw and w = "sy_world s"] assms(1-3)
    by simp
next
  case False
  then obtain b r where "counter_next checks hf val from_str t (job_new j) = Some (b, r)"
    by (auto simp: counter_next_def number_of_job_def split: sum.splits)
  from counter.running_handler_ends [OF _ unauthenticated_client(1) [OF assms(2)] this assms(4)] False
  show ?thesis
    using assms(1-3) by auto
qed

text \<open>
  C20: The auto handler example adds up, although its worker handles jobs concurrently: from the start of
  the worker, whatever happens, the reports on jobs that have gone out are those owed if the jobs
  were handled one by one in the order in which their handlers were done, one for each of them; a
  job whose variables are a number is completed under its own key with the sum of all numbers so
  far, any other is failed with the reason; and the shared total is that sum, no addition lost.
  A handler that is running can always be done, unless the build checks for overflow and its sum
  would not fit 32 bits: then it unwinds, with nothing reported.
\<close>

theorem counter_example_adds_up:
  assumes "counter_main checks hf gw from_str tr channel_ok h w = (Ok (sw, h1), w1)"
    and "\<And>n. hf_to_value hf \<lparr>mr_result = n\<rparr> = Inr (val n)"
    and "run (shared_step (counter_handler_at checks hf gw from_str) (counter_effect checks from_str sw) gw sw cfg)
      (system_start sw w1, h1) es (s, h2)"
    and "reached = counter_sum from_str (map job_new (jobs_done es))"
  shows "(\<exists>sent. wd_wire (sy_world s) = wd_wire w @ sent \<and>
      reports_on_jobs sent = counter_reports hf val from_str 0 (map job_new (jobs_done es))) \<and>
    mset (jobs_done es) = mset (ws_reporting (sy_worker s)) + mset (ws_finished (sy_worker s)) \<and>
    counter_at sw h2 (word_of_nat reached) \<and>
    (\<forall>j \<in> set (ws_handling (sy_worker s)).
       if checks \<and> 2 ^ 32 \<le> reached + number_of_job from_str (job_new j)
       then dispatch_job (counter_handler_at checks hf gw from_str h2) (sw_data sw) (sw_client sw)
         (job_new j) (sy_world s) = (Panic ''attempt to add with overflow'', sy_world s)
       else \<exists>x. shared_step (counter_handler_at checks hf gw from_str)
         (counter_effect checks from_str sw) gw sw cfg (s, h2) (Work (HandlerDone j)) x)"
proof -
  note main = counter_main_Ok [OF assms(1)] and quiet =
    unauthenticated_client [OF counter_main_Ok(3) [OF assms(1)]]
  have start: "counter_represents checks sw h1 0"
    using main(2) by (simp add: counter_represents_def)
  obtain t rs sent where seq:
      "outputs (counter_next checks hf val from_str) 0 (map job_new (jobs_done es)) = Some (t, rs)"
      "counter_represents checks sw h2 t" "wd_wire (sy_world s) = wd_wire w @ sent" "reports_on_jobs sent = rs"
    using counter.run_sequential [where a = 0 and hf = hf and val = val, OF assms(3)] start main(1,3) assms(2) quiet(1,2)
    by (auto simp: system_start_def)
  have t: "t = reached" "rs = counter_reports hf val from_str 0 (map job_new (jobs_done es))"
    using counter_outputs [OF seq(1)] assms(4) by simp_all
  have finished: "mset (jobs_done es) = mset (ws_reporting (sy_worker s)) + mset (ws_finished (sy_worker s))"
    using shared_run_done [OF assms(3)] by (simp add: system_start_def worker_start_def)
  have ends: "if checks \<and> 2 ^ 32 \<le> reached + number_of_job from_str (job_new j)
       then dispatch_job (counter_handler_at checks hf gw from_str h2) (sw_data sw) (sw_client sw)
         (job_new j) (sy_world s) = (Panic ''attempt to add with overflow'', sy_world s)
       else \<exists>x. shared_step (counter_handler_at checks hf gw from_str)
         (counter_effect checks from_str sw) gw sw cfg (s, h2) (Work (HandlerDone j)) x"
    if "j \<in> set (ws_handling (sy_worker s))" for j
    by (rule counter_ends [OF seq(2) [unfolded t(1)] main(3) assms(2) that])
  from seq(2) have "counter_at sw h2 (word_of_nat reached)"
    by (simp add: counter_represents_def t(1))
  with seq(3,4) t(2) finished ends show ?thesis by blast
qed

text \<open>
  Two jobs whose numbers do not fit together: the first is completed with its number, the second
  unwinds.
\<close>

definition example_number_formats :: "(string, my_job_result) handler_formats" where
  "example_number_formats =
     \<lparr>hf_json = example_json, hf_to_value = (\<lambda>r. Inr (if mr_result r = 0x80000000 then ''2^31'' else ''?'')),
      hf_errors = example_error_formats\<rparr>"

definition example_from_str :: "string \<Rightarrow> serde_error + my_job_data" where
  "example_from_str s = Inr \<lparr>md_increment = 0x80000000\<rparr>"

definition example_empty_heap :: "job_state heap" where
  "example_empty_heap = \<lparr>hp_next = 0, hp_cells = Map.empty\<rparr>"

lemma example_counter_main:
  obtains sw h1 where "counter_main True example_number_formats example_gateway example_from_str
      example_transport example_channel_ok example_empty_heap example_world = (Ok (sw, h1), example_world)"
    "sw_poller sw = default_poller ''my-job-type''"
proof -
  let ?c = "client_of_interceptor example_channel auth_interceptor_default :: job_state shared_state client"
  let ?handler = "auto_handler_body example_number_formats example_gateway
      (counter_extractors example_from_str) (counter_handler True example_empty_heap)"
  have client: "client_new example_transport example_world = Ok (?c, example_world)"
    using example_build_channel
    by (simp add: client_new_def client_default_def client_from_config_def example_client_config_def
        client_config_default_def client_config_with_endpoints_def)
  obtain sw where sw: "worker_run example_channel_ok
      (with_handler ?handler (with_job_type ''my-job-type'' (client_job_worker ?c))) = Ok sw"
      "sw_poller sw = default_poller ''my-job-type''"
    using default_worker_run_of_type [of example_channel_ok "''my-job-type''" ?handler ?c]
    by (auto simp: example_channel_ok_def)
  obtain b h1 where b: "with_new_state (TypeName ''JobState'') \<lparr>js_total = 0\<rparr>
      (with_handler ?handler (with_job_type ''my-job-type'' (client_job_worker ?c)))
      example_empty_heap = (b, h1)"
    by fastforce
  then have "worker_run example_channel_ok b = Ok (sw\<lparr>sw_data := jwb_data b\<rparr>)"
    using sw(1) by (auto simp: worker_run_eq_Ok_iff with_new_state_def state_new_def arc_new_def with_state_def)
  with b client sw(2) show thesis
    by (intro that [of "sw\<lparr>sw_data := jwb_data b\<rparr>" h1])
      (simp_all add: counter_main_def with_client_def with_auto_handler_def)
qed

definition example_counter_events :: "system_event list" where
  "example_counter_events =
     [Work Tick, MakeCall 0, Work (CallReturned 0), Work (BatchArrived 0 [example_job 1, example_job 2]),
      Work (SendJob 0), Work (SendJob 0), Work Dispatch, Work Dispatch]"

lemma example_counter_run:
  assumes "sw_poller sw = default_poller ''my-job-type''"
    and "ai_token_provider (cl_gateway_interceptor (sw_client sw)) = None"
  shows "\<exists>s. run (system_step example_gateway sw example_worker_config) (system_start sw example_world)
      example_counter_events s \<and> ws_handling (sy_worker s) = [example_job 1, example_job 2]"
proof -
  obtain p r where message: "on_message (default_poller ''my-job-type'') FetchJobs = Some (p, Some r)"
      "requested r = 32"
    by (simp add: default_poller_def example_poller_def should_activate_jobs_def activate_jobs_def
        default_long_polling u32_as_i32_def Let_def requested_def)
  have "call_metadata example_gateway (sw_client sw) w = Inr Map.empty" for w
    using assms(2) by (simp add: call_metadata_bears_token bears_no_token)
  with message assms(1) show ?thesis
    by (simp add: example_counter_events_def run_Cons_iff system_step_simps worker_step_simps
        receive_eq_Some_iff system_start_def make_call_eq task_at_def set_phase_def worker_start_def
        example_worker_config_def job_queue_has_room_def dispatcher_has_room_def usize_as_u32_def
        del: on_message.simps)
qed

theorem counter_example_adds_up_witness:
  "\<exists>sw h1 h2 (s :: system). counter_main True example_number_formats example_gateway example_from_str
      example_transport example_channel_ok example_empty_heap example_world = (Ok (sw, h1), example_world) \<and>
    reports_on_jobs (wd_wire (sy_world s)) = [CompleteJob \<lparr>cjr_job_key = 1, cjr_variables = ''2^31''\<rparr>] \<and>
    counter_at sw h2 0x80000000 \<and>
    dispatch_job (counter_handler_at True example_number_formats example_gateway example_from_str h2)
      (sw_data sw) (sw_client sw) (job_new (example_job 2)) (sy_world s) =
      (Panic ''attempt to add with overflow'', sy_world s)"
proof -
  let ?at = "counter_handler_at True example_number_formats example_gateway example_from_str"
  obtain sw h1 where main: "counter_main True example_number_formats example_gateway example_from_str
      example_transport example_channel_ok example_empty_heap example_world = (Ok (sw, h1), example_world)"
    and poller: "sw_poller sw = default_poller ''my-job-type''"
    by (rule example_counter_main)
  let ?effect = "counter_effect True example_from_str sw"
  note started = counter_main_Ok [OF main]
  obtain s where s: "run (system_step example_gateway sw example_worker_config)
      (system_start sw example_world) example_counter_events s"
      "ws_handling (sy_worker s) = [example_job 1, example_job 2]"
    using example_counter_run [OF poller started(3)] by blast
  have quiet: "\<forall>e \<in> set example_counter_events. \<not> handles e"
    by (simp add: example_counter_events_def)
  have before: "run (shared_step ?at ?effect example_gateway sw example_worker_config)
      (system_start sw example_world, h1) example_counter_events (s, h1)"
    by (rule run_shared [OF s(1) quiet])
  have json: "\<And>n. hf_to_value example_number_formats \<lparr>mr_result = n\<rparr> =
      Inr ((\<lambda>n. if n = 0x80000000 then ''2^31'' else ''?'') n)"
    by (simp add: example_number_formats_def)
  have number: "job_number example_from_str job = Inr (2 ^ 31)" for job
    by (simp add: job_number_def example_from_str_def)
  have none: "jobs_done example_counter_events = []"
    by (simp add: example_counter_events_def)
  obtain t h2 where step: "shared_step ?at ?effect example_gateway sw example_worker_config (s, h1)
      (Work (HandlerDone (example_job 1))) (t, h2)"
    using counter_example_adds_up [OF main json before, where reached = 0] s(2)
    by (auto simp: none number_of_job_def number counter_sum_def)
  then have two: "ws_handling (sy_worker t) = [example_job 2]"
    by (auto simp: shared_step_simps system_step_simps worker_step_simps s(2))
  have "run (shared_step ?at ?effect example_gateway sw example_worker_config)
      (system_start sw example_world, h1) (example_counter_events @ [Work (HandlerDone (example_job 1))]) (t, h2)"
    by (rule run_append [OF before]) (rule run_one, rule step)
  from counter_example_adds_up [OF main json this, where reached = "2 ^ 31"] two
  have "reports_on_jobs (wd_wire (sy_world t)) = [CompleteJob \<lparr>cjr_job_key = 1, cjr_variables = ''2^31''\<rparr>] \<and>
    counter_at sw h2 0x80000000 \<and>
    dispatch_job (?at h2) (sw_data sw) (sw_client sw) (job_new (example_job 2)) (sy_world t) =
      (Panic ''attempt to add with overflow'', sy_world t)"
    by (simp add: jobs_done_append none number_of_job_def number counter_sum_def counter_report_def
        example_number_formats_def example_json_def example_world_def)
      (simp add: example_job_def)
  with main show ?thesis by blast
qed

end
