(* ===== verification/Responses.thy ===== *)
theory Responses
  imports Process_Commands Message_Commands
begin

text \<open>
  What a caller gets to see of the gateway's answers (\<open>src/process.rs\<close>, \<open>src/topology.rs\<close>,
  \<open>src/util.rs\<close>): the accessors of the response types. A response type wraps the message with the
  same name and is identified with it, as are the wrappers that the accessors make of the messages
  nested in it.
\<close>

subsection \<open>Processes\<close>

definition deployment_key :: "deploy_process_response \<Rightarrow> i64" where
  "deployment_key r = dps_key r"

definition deployment_processes :: "deploy_process_response \<Rightarrow> process_metadata list" where
  "deployment_processes r = map (\<lambda>proto. proto) (dps_processes r)"

definition metadata_bpmn_process_id :: "process_metadata \<Rightarrow> string" where
  "metadata_bpmn_process_id m = pm_bpmn_process_id m"

definition metadata_version :: "process_metadata \<Rightarrow> i32" where
  "metadata_version m = pm_version m"

definition metadata_process_definition_key :: "process_metadata \<Rightarrow> i64" where
  "metadata_process_definition_key m = pm_process_definition_key m"

definition metadata_resource_name :: "process_metadata \<Rightarrow> string" where
  "metadata_resource_name m = pm_resource_name m"

definition instance_process_definition_key :: "create_process_instance_response \<Rightarrow> i64" where
  "instance_process_definition_key r = cps_process_definition_key r"

definition instance_bpmn_process_id :: "create_process_instance_response \<Rightarrow> string" where
  "instance_bpmn_process_id r = cps_bpmn_process_id r"

definition instance_version :: "create_process_instance_response \<Rightarrow> i32" where
  "instance_version r = cps_version r"

definition instance_process_instance_key :: "create_process_instance_response \<Rightarrow> i64" where
  "instance_process_instance_key r = cps_process_instance_key r"

definition result_process_definition_key :: "create_process_instance_with_result_response \<Rightarrow> i64" where
  "result_process_definition_key r = cws_process_definition_key r"

definition result_bpmn_process_id :: "create_process_instance_with_result_response \<Rightarrow> string" where
  "result_bpmn_process_id r = cws_bpmn_process_id r"

definition result_version :: "create_process_instance_with_result_response \<Rightarrow> i32" where
  "result_version r = cws_version r"

definition result_process_instance_key :: "create_process_instance_with_result_response \<Rightarrow> i64" where
  "result_process_instance_key r = cws_process_instance_key r"

definition result_variables_str :: "create_process_instance_with_result_response \<Rightarrow> string" where
  "result_variables_str r = cws_variables r"

definition set_variables_key :: "set_variables_response \<Rightarrow> i64" where
  "set_variables_key r = svs_key r"

subsection \<open>Messages and the topology\<close>

definition message_key :: "publish_message_response \<Rightarrow> i64" where
  "message_key r = pms_key r"

definition topology_brokers :: "topology_response \<Rightarrow> broker_info list" where
  "topology_brokers r = map (\<lambda>proto. proto) (ts_brokers r)"

definition topology_gateway_version :: "topology_response \<Rightarrow> string" where
  "topology_gateway_version r = ts_gateway_version r"

definition broker_node_id :: "broker_info \<Rightarrow> i32" where
  "broker_node_id b = bi_node_id b"

definition broker_host :: "broker_info \<Rightarrow> string" where
  "broker_host b = bi_host b"

definition broker_partitions :: "broker_info \<Rightarrow> partition list" where
  "broker_partitions b = map (\<lambda>proto. proto) (bi_partitions b)"

definition broker_version :: "broker_info \<Rightarrow> string" where
  "broker_version b = bi_version b"

definition partition_id :: "partition \<Rightarrow> i32" where
  "partition_id p = pt_partition_id p"

definition partition_role :: "partition \<Rightarrow> i32" where
  "partition_role p = pt_role p"

definition partition_health :: "partition \<Rightarrow> i32" where
  "partition_health p = pt_health p"

lemmas response_accessors =
  deployment_key_def deployment_processes_def metadata_bpmn_process_id_def metadata_version_def
  metadata_process_definition_key_def metadata_resource_name_def
  instance_process_definition_key_def instance_bpmn_process_id_def instance_version_def
  instance_process_instance_key_def result_process_definition_key_def
  result_bpmn_process_id_def result_version_def result_process_instance_key_def
  result_variables_str_def set_variables_key_def message_key_def topology_brokers_def
  topology_gateway_version_def broker_node_id_def broker_host_def broker_partitions_def
  broker_version_def partition_id_def partition_role_def partition_health_def
  topology_cluster_size_def topology_partitions_count_def topology_replication_factor_def
  broker_port_def

subsection \<open>Nothing is hidden or changed\<close>

text \<open>Two answers that no accessor can tell apart.\<close>

definition same_partition :: "partition \<Rightarrow> partition \<Rightarrow> bool" where
  "same_partition p q \<longleftrightarrow>
     partition_id p = partition_id q \<and> partition_role p = partition_role q \<and>
     partition_health p = partition_health q"

definition same_broker :: "broker_info \<Rightarrow> broker_info \<Rightarrow> bool" where
  "same_broker b c \<longleftrightarrow>
     broker_node_id b = broker_node_id c \<and> broker_host b = broker_host c \<and>
     broker_port b = broker_port c \<and> broker_version b = broker_version c \<and>
     list_all2 same_partition (broker_partitions b) (broker_partitions c)"

definition same_topology :: "topology_response \<Rightarrow> topology_response \<Rightarrow> bool" where
  "same_topology r r' \<longleftrightarrow>
     list_all2 same_broker (topology_brokers r) (topology_brokers r') \<and>
     topology_cluster_size r = topology_cluster_size r' \<and>
     topology_partitions_count r = topology_partitions_count r' \<and>
     topology_replication_factor r = topology_replication_factor r' \<and>
     topology_gateway_version r = topology_gateway_version r'"

lemma same_partition_iff: "same_partition p q \<longleftrightarrow> p = q"
  by (cases p; cases q) (simp add: same_partition_def response_accessors)

lemma same_broker_iff: "same_broker b c \<longleftrightarrow> b = c"
proof -
  have "same_partition = (=)"
    by (intro ext) (simp add: same_partition_iff)
  then show ?thesis
    by (cases b; cases c) (auto simp: same_broker_def response_accessors list.rel_eq i32_as_u32_def)
qed

lemma same_topology_iff: "same_topology r r' \<longleftrightarrow> r = r'"
proof -
  have "same_broker = (=)"
    by (intro ext) (simp add: same_broker_iff)
  then show ?thesis
    by (cases r; cases r') (auto simp: same_topology_def response_accessors list.rel_eq i32_as_u32_def)
qed

lemma unat_i32_as_u32:
  "int (unat (i32_as_u32 m)) = (if 0 \<le> sint m then sint m else sint m + 2 ^ 32)"
  using sint_of_same_bits [of m] uint_lt2p [of m] sint_lt [of m] sint_ge [of m]
  by (simp add: i32_as_u32_def split: if_splits)

text \<open>
  What a caller reads of an answer through the accessors, and what the gateway sent: a count that is
  negative on the wire (the protocol has signed numbers) shows as one of at least \<open>2 ^ 31\<close>.
\<close>

definition shown_partition :: "partition \<Rightarrow> i32 \<times> i32 \<times> i32" where
  "shown_partition p = (partition_id p, partition_role p, partition_health p)"

definition shown_broker :: "broker_info \<Rightarrow> i32 \<times> string \<times> int \<times> (i32 \<times> i32 \<times> i32) list \<times> string" where
  "shown_broker b =
     (broker_node_id b, broker_host b, int (unat (broker_port b)),
      map shown_partition (broker_partitions b), broker_version b)"

definition shown_counts :: "topology_response \<Rightarrow> int \<times> int \<times> int" where
  "shown_counts r =
     (int (unat (topology_cluster_size r)), int (unat (topology_partitions_count r)),
      int (unat (topology_replication_factor r)))"

definition count_sent :: "i32 \<Rightarrow> int" where
  "count_sent n = (if 0 \<le> sint n then sint n else sint n + 2 ^ 32)"

definition sent_partition :: "partition \<Rightarrow> i32 \<times> i32 \<times> i32" where
  "sent_partition p = (pt_partition_id p, pt_role p, pt_health p)"

definition sent_broker :: "broker_info \<Rightarrow> i32 \<times> string \<times> int \<times> (i32 \<times> i32 \<times> i32) list \<times> string" where
  "sent_broker b =
     (bi_node_id b, bi_host b, count_sent (bi_port b), map sent_partition (bi_partitions b), bi_version b)"

lemma count_shown: "int (unat (i32_as_u32 n)) = count_sent n"
  by (simp only: unat_i32_as_u32 count_sent_def)

lemma count_sent_bounds: "0 \<le> count_sent n" "count_sent n < 2 ^ 32" "sint n < 0 \<Longrightarrow> 2 ^ 31 \<le> count_sent n"
  using sint_ge [of n] sint_lt [of n] by (auto simp: count_sent_def)

lemma broker_shown: "shown_broker b = sent_broker b"
proof -
  have "shown_partition = sent_partition"
    by (intro ext) (simp add: shown_partition_def sent_partition_def response_accessors)
  moreover have "int (unat (broker_port b)) = count_sent (bi_port b)"
    by (simp only: broker_port_def count_shown)
  ultimately show ?thesis
    by (simp add: shown_broker_def sent_broker_def) (simp add: response_accessors)
qed

text \<open>
  C40: The topology a caller sees is the one the gateway sent: if the request succeeds, each accessor
  shows the field it is named after. The brokers, with their identifiers, hosts, ports, partitions
  and versions, are those sent, in their order; cluster size, number of partitions, replication
  factor and ports are the numbers sent unless those are negative; and no two answers of the gateway
  look the same through the accessors, so that nothing it sends is hidden.
\<close>

theorem topology_seen_as_sent:
  assumes "topology_send gw b w = (Ok r, w')"
  shows "\<exists>md sent. bears_token gw (tb_client b) w md \<and>
    gw_topology gw (wd_wire w) md TopologyRequest = Inr sent \<and>
    wd_wire w' = wd_wire w @ [(md, Topology TopologyRequest)] \<and>
    map shown_broker (topology_brokers r) = map sent_broker (ts_brokers sent) \<and>
    shown_counts r =
      (count_sent (ts_cluster_size sent), count_sent (ts_partitions_count sent),
       count_sent (ts_replication_factor sent)) \<and>
    topology_gateway_version r = ts_gateway_version sent \<and>
    (\<forall>r'. same_topology r r' = (r' = sent))"
proof -
  obtain q md where q: "message_of Topology (Ok TopologyRequest) = (Ok q :: (grpc_request, error) outcome)"
      "bears_token gw (tb_client b) w md"
      "answer_of (gw_topology gw) (Ok TopologyRequest) (wd_wire w) md = Inr r"
      "wd_wire w' = wd_wire w @ [(md, q)]"
    using topology.send_Ok [of gw b w r] assms by auto
  have sent: "gw_topology gw (wd_wire w) md TopologyRequest = Inr r" "q = Topology TopologyRequest"
    using q(1,3) by (simp_all add: answer_of_def)
  have brokers: "map shown_broker (topology_brokers r) = map sent_broker (ts_brokers r)"
    "topology_gateway_version r = ts_gateway_version r"
    by (simp_all add: topology_brokers_def topology_gateway_version_def broker_shown)
  have counts: "shown_counts r =
      (count_sent (ts_cluster_size r), count_sent (ts_partitions_count r),
       count_sent (ts_replication_factor r))"
    by (simp only: shown_counts_def topology_cluster_size_def topology_partitions_count_def
        topology_replication_factor_def count_shown)
  from q sent brokers counts show ?thesis
    by (intro exI [of _ md] exI [of _ r]) (auto simp: same_topology_iff)
qed

definition example_topology :: topology_response where
  "example_topology =
     \<lparr>ts_brokers = [\<lparr>bi_node_id = 0, bi_host = ''zeebe'', bi_port = 26501,
        bi_partitions = [\<lparr>pt_partition_id = 1, pt_role = 0, pt_health = 0\<rparr>], bi_version = ''1.0''\<rparr>],
      ts_cluster_size = 3, ts_partitions_count = 8, ts_replication_factor = - 1,
      ts_gateway_version = ''1.0''\<rparr>"

theorem topology_seen_as_sent_witness:
  "shown_counts example_topology = (3, 8, -1 + 2 ^ 32) \<and>
   map shown_broker (topology_brokers example_topology) = [(0, ''zeebe'', 26501, [(1, 0, 0)], ''1.0'')] \<and>
   \<not> same_topology example_topology (example_topology\<lparr>ts_brokers := []\<rparr>)"
proof -
  let ?gw = "example_gateway\<lparr>gw_topology := \<lambda>_ _ _. Inr example_topology\<rparr>"
  have "bears_token ?gw example_client example_authenticated_world example_metadata"
    using example_bears_token [of example_client] by (simp add: bears_token_def example_gateway_def)
  then have "topology_send ?gw (client_topology example_client) example_authenticated_world =
      (Ok example_topology, example_authenticated_world\<lparr>wd_wire :=
        wd_wire example_authenticated_world @ [(example_metadata, Topology TopologyRequest)]\<rparr>)"
    using topology.send_accepted [where b = "client_topology example_client" and gw = ?gw and
        w = example_authenticated_world]
    by (simp add: client_topology_def topology_builder_new_def call_metadata_bears_token [THEN iffD2]
        answer_of_def)
  from topology_seen_as_sent [OF this] show ?thesis
    by (auto simp: example_topology_def count_sent_def sent_broker_def sent_partition_def)
qed

end
