(* ===== verification/Spec2Isabelle.thy ===== *)
theory Spec2Isabelle
  imports Program_Reports Example_Auto_Handler Responses
begin

text \<open>
  zeebe-rust is a client for the Zeebe workflow engine: it sends commands to a Zeebe gateway over
  gRPC, and runs workers that activate jobs, hand them to the user's handlers and report the
  results. This development models the client as the source under \<open>src/\<close> has it.

  The parts, in the order in which they build on each other, and the theories that model them:

  \<^item> \<open>Zeebe_Prelude\<close>: machine integers and casts, \<open>Result\<close> with panics (\<open>outcome\<close>), loops that stop at
    the first error (\<open>traverse\<close>), runs of transition relations (\<open>run\<close>) and the locales
    \<open>inductive_invariant\<close> and \<open>refinement_map\<close>. \<open>Rust_Std\<close>: \<open>Duration\<close> in nanoseconds and single precision arithmetic with
    its exact rounding, and decimal numbers.
  \<^item> \<open>Gateway_Protocol\<close> (\<open>error.rs\<close>, \<open>proto/gateway.proto\<close>): the errors, the messages as records with
    the fields of the generated structs, and the record \<open>gateway\<close>, one function per remote call.
    \<open>Error_Texts\<close>: the \<open>Display\<close> and \<open>Debug\<close> texts of an error, with the quoting of strings, and a
    reader for them.
  \<^item> \<open>OAuth\<close> (\<open>oauth.rs\<close>): the token provider with its cache, the background refresh, the wait for
    initialization and the interceptor that adds the bearer token. Locale \<open>token_source\<close>.
  \<^item> \<open>Extensions\<close> (\<open>worker/auto_handler/mod.rs\<close>): the typed map of shared states. Locale
    \<open>typed_store\<close>.
  \<^item> \<open>Client\<close> (\<open>client.rs\<close>): configuration, channel, construction and calls. \<open>world\<close> holds what clients
    share: the token providers and the requests on the wire. The locale \<open>rpc_builder\<close> is the
    contract of a request builder (one request if its fields are valid, none otherwise), and
    \<open>job_rpc_builder\<close> extends it for the commands on a job.
  \<^item> \<open>Job_Commands\<close> (\<open>job.rs\<close>), \<open>Process_Commands\<close> (\<open>process.rs\<close>) and \<open>Message_Commands\<close> (\<open>util.rs\<close>,
    \<open>topology.rs\<close>): a record per builder, a definition per setter, and \<open>send\<close> as the check of the
    fields (\<open>..._request_of\<close>) followed by the call; each builder interprets its contract.
    \<open>Responses\<close> has the accessors of what the gateway answers.
    \<open>Client_Session\<close> puts the twelve operations together (\<open>command\<close>) and lets sequences of them
    interleave with token refreshes (\<open>session_step\<close>).
  \<^item> \<open>Job_Poller\<close> (\<open>worker/job_poller.rs\<close>): the counting of jobs, the decision to ask for more and the
    long polling time. \<open>Worker_System\<close> is a running worker: poller, request task, dispatcher
    (\<open>worker/job_dispatcher.rs\<close>) and the two bounded channels, as a transition system with one step
    per await point (\<open>worker_step\<close>). \<open>Worker_Safety\<close> proves its invariants, \<open>Worker_Liveness\<close> what it
    can and cannot always do, \<open>Worker_Termination\<close> how much work a state has left, and
    \<open>Worker_Shutdown\<close> what is left when its future is dropped (\<open>stopped_step\<close>, the spawned task with
    its channels closed). \<open>Worker_Refinement\<close>
    specifies a worker as a pool of jobs (\<open>pool_step\<close>: asking, delivering, starting and finishing,
    over the history of those actions) and proves that \<open>worker_step\<close> refines it.
  \<^item> \<open>Auto_Handler\<close> (\<open>worker/auto_handler\<close>, \<open>worker/builder.rs\<close>): extraction of a handler's parameters and
    the report of its result. \<open>Job_Worker\<close> (\<open>worker/builder.rs\<close>): the settings of a worker, their
    validation and the poller and channels it starts with. \<open>Shared_State\<close> (\<open>extractor/data.rs\<close>,
    \<open>extractor/state.rs\<close>): the wrappers \<open>Data\<close> and \<open>State\<close>, with the heap that the states of a worker
    live in.
  \<^item> \<open>Worker_Reports\<close>: a started worker and the world together (\<open>system_step\<close>): the request task's call
    goes through the client's interceptor, a dispatched job runs the configured handler, tokens are
    refreshed in between. Forgetting the world is a refinement map to \<open>worker_step\<close>.
    \<open>Worker_Requests\<close> follows the builder's settings to the requests on the wire, and
    \<open>Worker_Lifetime\<close> adds the end of a worker (\<open>lifetime_step\<close>): its owner drops it or a handler
    panics, and the request task goes on alone.
    \<open>Shared_Handlers\<close> runs handlers that share a heap (\<open>shared_step\<close>); its locale \<open>atomic_handler\<close> is
    the contract of a handler that implements a sequential machine, for which concurrent handling is
    proved to be sequential.
  \<^item> \<open>Handler_Programs\<close>: a handler that uses the client is a program, a resumption over the twelve
    operations, and the auto handler is one (\<open>auto_program\<close>). \<open>Worker_Programs\<close> runs a worker whose
    handlers are programs (\<open>program_step\<close>): each operation is a step, so that the operations of
    concurrent handlers, the worker's requests and token refreshes interleave. \<open>Program_Reports\<close> shows
    what such handlers report, and that a run of \<open>Worker_Reports\<close> is one in which the operations of
    each handler follow each other directly.
  \<^item> \<open>Example_Programs\<close> and \<open>Example_Auto_Handler\<close> (\<open>src/examples\<close>): the \<open>main\<close> and the handlers of the four
    example programs, as compositions of the definitions above.

  What the lemmas show. Of a client: an OAuth client never sends a request without a token, sends
  every valid operation once there is one, and each result tells whether a request was sent. Of a
  worker: one request at a time, no job lost or handled twice, the configured limits, that a request
  always ends, and an exact account of \<open>remaining\<close>, whose two error terms are reachable: from every
  idle state a batch whose completions overtake its announcement can starve the worker for ever, and
  requests that time out after delivering jobs let a worker without a limit on concurrency exceed its
  limit on jobs. A worker refines its specification, and comes to rest when it gets no new work.
  Of the handlers: what a dispatched job puts on the wire for each outcome of the user's function;
  if that function does not use the client itself, each job is reported exactly once under its own
  key, in every reachable state of a worker, and when the worker ends, each job put into its queue
  has been reported or is abandoned, once; a job whose result does not serialize is never reported
  and ends the worker. A \<open>State<T>\<close> is found by its type, and what it points to persists from job to
  job, without interference between types. A failed extraction is reported with its cause, which can
  be read back from the text, as it can for every error of the client's own kinds. Handlers that use
  the client follow their programs undisturbed, can always be brought to their end unless they
  unwind, and an auto handler's job is reported exactly once whatever else its function asks of the
  gateway, jobs excepted. Of the examples: the worker completes what is done, the sums add up, and
  the OAuth example, if its first token comes too early, waits until it gets a second one. This
  theory relates the settings of a worker to its runs and shows that an idle worker has reported
  every job it was given.

  Conventions. Code outside the repository is an argument: the gateway, tonic's transport and
  metadata values, the token exchange, \<open>serde_json\<close>, tokio's channel constructor, the file system and
  the user's handler. Where a property needs a law of such code, it is a named hypothesis
  (\<open>honest_gateway\<close>, \<open>channel_contract\<close>), and so is what it needs of the user's function
  (\<open>keeps_world\<close>, \<open>minds_its_job\<close>) and of the identity server (\<open>ready\<close>, \<open>legal_event\<close>). A struct that
  only wraps a protocol message is identified with it; a clone is the same value; an \<open>Arc\<close> is an
  address. In \<open>system_step\<close> a handler's operations happen in the step in which it is done, in
  \<open>program_step\<close> one by one; there a handler that unwinds never ends, as the end of its worker is a
  step of \<open>lifetime_step\<close>. No fuel is used: the loops of the source recurse over the messages, files
  or refreshes they consume, and the worker is a relation. \<open>Panic\<close> (in the poller, \<open>None\<close>) stands for an
  unwinding computation; \<open>None\<close> of a wait for initialization, for one that still waits. Characters
  are the code points below 256.

  Not modelled: logging and tracing spans (and what the examples print or read from a \<open>.env\<close> file), the
  texts of foreign errors and of derived \<open>Debug\<close> implementations of structs, reference counts, what
  tonic does below a call, the re-exports of \<open>lib.rs\<close> and the code generation of the protocol.
\<close>

subsection \<open>A worker from its configuration to its jobs\<close>

text \<open>
  C1: The limits a user configures are the limits of the running worker: for every chain of settings
  that starts a worker, and every gateway that delivers at most what it is asked for, in every
  reachable state each request has asked for at least one job and at most the configured limit;
  no more jobs than the limit are in the job queue; no more than the configured concurrency (if it
  is not zero) are being handled; and the jobs in the worker are at most the limit plus those of
  requests that timed out before announcing them.
\<close>

theorem configured_limits_hold:
  assumes "configure ss (client_job_worker c) = Ok b" "channel_contract channel_ok"
    and "worker_run channel_ok b = Ok sw"
    and "honest_gateway (worker_config_of sw g)"
    and "run (worker_step (worker_config_of sw g)) (worker_start (sw_poller sw)) es s"
  shows "(\<forall>r \<in> set (ws_requests s). 1 \<le> sint (ajr_max_jobs_to_activate r) \<and>
      requested r \<le> unat (jp_max_jobs_active (sw_poller sw))) \<and>
    length (ws_job_queue s) \<le> unat (jp_max_jobs_active (sw_poller sw)) \<and>
    (0 < jwb_concurrency b \<longrightarrow>
       length (ws_handling s) + length (ws_reporting s) \<le> unat (jwb_concurrency b)) \<and>
    length (ws_job_queue s) + length (ws_handling s) + length (ws_reporting s) \<le>
      unat (jp_max_jobs_active (sw_poller sw)) + ws_lost s"
proof -
  note start = started_worker_initial [OF builder_ok_configure [OF builder_ok_new assms(1)] assms(2,3)]
  note reach = start(1) assms(5)
  have "sw_concurrency sw = unat (jwb_concurrency b)"
    using assms(3) by (auto simp: worker_run_eq_Ok_iff)
  then show ?thesis
    using requests_within_limits [OF reach] worker_capacities [OF reach]
      active_jobs_limit [OF start(1) assms(4,5)] start(2)
    by (auto simp: worker_config_of_def word_less_nat_alt)
qed

lemma example_started_run:
  assumes "worker_run example_channel_ok example_builder = Ok sw"
    "sw_poller sw = example_poller" "sw_job_queue_capacity sw = 32" "sw_poll_queue_capacity sw = 32"
    "sw_concurrency sw = 4"
  shows "worker_config_of sw (\<lambda>r n js. n + length js \<le> requested r) = example_worker_config"
  using assms by (simp add: worker_config_of_def example_worker_config_def)

theorem configured_limits_hold_witness:
  "requested example_request \<le> 32 \<and>
   length (ws_handling example_state) + length (ws_reporting example_state) \<le> 4"
proof -
  obtain sw where sw: "worker_run example_channel_ok example_builder = Ok sw"
      "sw_poller sw = example_poller" "sw_job_queue_capacity sw = 32"
      "sw_poll_queue_capacity sw = 32" "sw_concurrency sw = 4"
    using default_worker_run [of example_channel_ok example_handler example_client]
    by (auto simp: example_builder_def example_channel_ok_def)
  note same = example_started_run [OF sw]
  have conc: "jwb_concurrency example_builder = 4"
    by (simp add: example_builder_def with_handler_def with_job_type_def client_job_worker_def
        job_worker_builder_new_def DEFAULT_JOB_WORKER_CONCURRENCY_def)
  from configured_limits_hold [OF example_configure example_channel_contract(1) sw(1)
      example_honest [folded same] example_run [folded same sw(2)]]
  show ?thesis
    by (simp add: conc sw(2) example_poller_def example_state_def)
qed

text \<open>
  C10: What a worker with an auto handler does with a job whose parameters have been extracted, for each
  outcome of the user's function, if the client then has credentials: exactly one request goes out
  after those of the function, which completes the job with the serialized result, or fails it
  with the function's error as the message and no retries, under the job's key; a result that does
  not serialize and a function that panics unwind, and nothing is reported.
\<close>

theorem dispatched_job_outcome:
  assumes "worker_run channel_ok (with_auto_handler hf gw xs handler b) = Ok sw"
    and "tuple_from_job xs (job_client (sw_data sw) (sw_client sw) job) job = Ok params"
    and "handler params w = (result, w')" "bears_token gw (sw_client sw) w' md"
  shows "dispatch_job (sw_handler sw) (sw_data sw) (sw_client sw) job w =
    (case result of
       Ok v \<Rightarrow>
         (case hf_to_value hf v of
            Inr x \<Rightarrow> (Ok (), w'\<lparr>wd_wire := wd_wire w' @ [(md, CompleteJob
              \<lparr>cjr_job_key = job_key job, cjr_variables = sj_to_string (hf_json hf) x\<rparr>)]\<rparr>)
          | Inl err \<Rightarrow> (Panic ''json!'', w'))
     | Err message \<Rightarrow> (Ok (), w'\<lparr>wd_wire := wd_wire w' @ [(md, FailJob
         \<lparr>fjr_job_key = job_key job, fjr_retries = 0, fjr_error_message = message\<rparr>)]\<rparr>)
     | Panic p \<Rightarrow> (Panic p, w'))"
proof -
  have "call_metadata gw (job_client (sw_data sw) (sw_client sw) job) w' = Inr md"
    using assms(4) by (simp add: call_metadata_bears_token bears_token_def)
  then show ?thesis
    unfolding auto_worker(1) [OF assms(1)]
    by (simp add: auto_handler_reports_once owed_report_def assms(2,3) split: outcome.splits sum.splits)
qed

theorem dispatched_job_outcome_witness:
  "\<exists>sw :: nat started_worker.
    dispatch_job (sw_handler sw) (sw_data sw) (sw_client sw) (job_new (example_job 1)) example_authenticated_world =
      (Ok (), example_authenticated_world\<lparr>wd_wire := wd_wire example_authenticated_world @
         [(example_metadata, CompleteJob \<lparr>cjr_job_key = 1, cjr_variables = ''{}''\<rparr>)]\<rparr>)"
proof -
  obtain sw :: "nat started_worker" where sw: "worker_run example_channel_ok example_auto_builder = Ok sw"
      "sw_client sw = example_client"
    by (rule example_auto_started)
  let ?params = "[ExtractedJob (job_new (example_job 1))] :: (nat, string) extracted list"
  have "tuple_from_job [FromJobItself] (job_client (sw_data sw) (sw_client sw) (job_new (example_job 1)))
      (job_new (example_job 1)) = Ok ?params"
    by (simp add: tuple_from_job_def)
  moreover have "example_user_handler ?params example_authenticated_world = (Ok ''{}'', example_authenticated_world)"
    by (simp add: example_user_handler_def)
  moreover have "bears_token example_gateway (sw_client sw) example_authenticated_world example_metadata"
    by (simp add: sw(2) example_bears_token)
  ultimately show ?thesis
    using dispatched_job_outcome [OF sw(1) [unfolded example_auto_builder_def]]
    by (intro exI [of _ sw]) (simp add: example_formats_def example_json_def, simp add: example_job_def)
qed

text \<open>
  C4: From the gateway to the report: when a worker with an auto handler (of a client that can make
  calls, whose user's function does not use the client itself) has become idle, the requests
  about jobs that have gone out are, as a multiset of keys, exactly one for each job the gateway
  has delivered to it.
\<close>

theorem idle_worker_has_reported_all:
  assumes "configure ss (client_job_worker c) = Ok b" "channel_contract channel_ok"
    and "worker_run channel_ok (with_auto_handler hf gw xs handler b) = Ok sw"
    and "keeps_world handler" "ready gw (sw_client sw) w"
    and "run (system_step gw sw (worker_config_of sw g)) (system_start sw w) es s"
    and "\<And>e. e \<in> set es \<Longrightarrow> legal_event gw (sw_client sw) e"
    and "idle (sy_worker s)"
  shows "\<exists>sent. wd_wire (sy_world s) = wd_wire w @ sent \<and>
    mset (reported_keys sent) = mset (map aj_key (ws_delivered (sy_worker s)))"
proof -
  have "builder_ok (with_auto_handler hf gw xs handler b)"
    using builder_ok_configure [OF builder_ok_new assms(1)]
    by (simp add: builder_ok_def with_auto_handler_def with_handler_def)
  then have init: "initial_poller (sw_poller sw)"
    by (rule started_worker_initial(1) [OF _ assms(2,3)])
  obtain es' where reach: "run (worker_step (worker_config_of sw g)) (worker_start (sw_poller sw)) es' (sy_worker s)"
    using system_run_worker [OF assms(6)] by blast
  have "flow_inv (sy_worker s)"
    by (rule flow.inv_reachable [OF worker_init_start [OF init] reach])
  then have "mset (ws_delivered (sy_worker s)) = mset (ws_finished (sy_worker s))"
    "ws_reporting (sy_worker s) = []"
    using assms(8) by (simp_all add: flow_inv_def idle_def)
  then show ?thesis
    using auto_reports [OF assms(3-7)] by (auto simp: mset_map)
qed

definition example_whole_events :: "system_event list" where
  "example_whole_events = example_system_events @
     [Work (ReportFinished (example_job 1)), Work NextMessage, Work (BatchDone 0),
      Work (StreamEnded 0), Work (Announce 0), Work NextMessage, Work (Complete 0), Work NextMessage]"

lemma example_whole_run:
  assumes "sw_client sw = example_client" "sw_poller sw = example_poller"
    "sw_handler sw =
       auto_handler example_formats example_gateway [FromJobItself] example_user_handler"
  shows "\<exists>s. run (system_step example_gateway sw example_worker_config)
      (system_start sw example_authenticated_world) example_whole_events s \<and>
    idle (sy_worker s) \<and> ws_delivered (sy_worker s) = [example_job 1]"
proof -
  have clipped: "on_message example_polling JobFinished = Some (example_polling, None)"
    by (simp add: example_polling_def example_poller_def u32_saturating_sub_def)
  have zero: "jp_remaining example_polling = 0"
    by (simp add: example_polling_def example_poller_def)
  have world: "example_authenticated_world\<lparr>wd_wire := []\<rparr> = example_authenticated_world"
    by (simp add: example_authenticated_world_def)
  obtain s where s: "run (system_step example_gateway sw example_worker_config)
      (system_start sw example_authenticated_world) example_system_events s"
      "sy_worker s = \<lparr>ws_poller = example_polling,
         ws_tasks = [Activation example_request (Sending 1 [])], ws_job_queue = [],
         ws_poll_queue = [], ws_handling = [], ws_reporting = [example_job 1],
         ws_requests = [example_request], ws_delivered = [example_job 1],
         ws_started = [example_job 1], ws_finished = [], ws_lost = 0, ws_clipped = 0\<rparr>"
    using example_system_run [OF assms] unfolding world by blast
  have "\<exists>t. run (system_step example_gateway sw example_worker_config) s
      [Work (ReportFinished (example_job 1)), Work NextMessage, Work (BatchDone 0),
       Work (StreamEnded 0), Work (Announce 0), Work NextMessage, Work (Complete 0), Work NextMessage] t \<and>
    idle (sy_worker t) \<and> ws_delivered (sy_worker t) = [example_job 1]"
    by (simp add: run_Cons_iff system_step_simps worker_step_simps receive_eq_Some_iff s(2) clipped
        zero task_at_def set_phase_def example_worker_config_def poll_queue_has_room_def idle_def
        del: on_message.simps(2))
  with run_append [OF s(1)] show ?thesis
    unfolding example_whole_events_def by blast
qed

theorem idle_worker_has_reported_all_witness:
  "\<exists>(sw :: nat started_worker) s. run (system_step example_gateway sw example_worker_config)
      (system_start sw example_authenticated_world) example_whole_events s \<and>
    mset (reported_keys (wd_wire (sy_world s))) = {#1#}"
proof -
  obtain sw :: "nat started_worker" where sw: "worker_run example_channel_ok example_auto_builder = Ok sw"
      "sw_client sw = example_client" "sw_poller sw = example_poller"
      "sw_handler sw =
         auto_handler example_formats example_gateway [FromJobItself] example_user_handler"
    by (rule example_auto_started)
  have cfg: "worker_config_of sw (\<lambda>r n js. n + length js \<le> requested r) = example_worker_config"
    using sw(1)
    by (auto simp: worker_run_eq_Ok_iff worker_config_of_def example_worker_config_def
        example_auto_builder_def with_auto_handler_def with_handler_def with_job_type_def
        client_job_worker_def job_worker_builder_new_def DEFAULT_JOB_WORKER_MAX_JOB_ACTIVE_def
        DEFAULT_JOB_WORKER_CONCURRENCY_def POLL_QUEUE_CAPACITY_def u32_as_i32_def i32_as_usize_def)
  obtain s where s: "run (system_step example_gateway sw example_worker_config)
      (system_start sw example_authenticated_world) example_whole_events s"
      "idle (sy_worker s)" "ws_delivered (sy_worker s) = [example_job 1]"
    using example_whole_run [OF sw(2-4)] by blast
  have b: "configure [JobType ''payment-service''] (client_job_worker example_client) =
      Ok (with_job_type ''payment-service'' (client_job_worker example_client))"
    by simp
  have "keeps_world example_user_handler"
    by (simp add: keeps_world_def example_user_handler_def)
  moreover have "ready example_gateway (sw_client sw) example_authenticated_world"
    by (simp add: ready_def sw example_usable)
  moreover have "legal_event example_gateway (sw_client sw) e" if "e \<in> set example_whole_events" for e
    using that by (auto simp: example_whole_events_def example_system_events_def)
  ultimately show ?thesis
    using idle_worker_has_reported_all [OF b example_channel_contract(1)
        sw(1) [unfolded example_auto_builder_def] _ _ s(1) [folded cfg] _ s(2)] s
    by (intro exI [of _ sw] exI [of _ s]) (simp add: example_job_def example_authenticated_world_def)
qed

subsection \<open>Long polling over the client's channel\<close>

text \<open>
  C39: The default client gives up on the default worker's requests before the gateway may answer
  them: every endpoint of a channel (without TLS) has a request timeout of 15 seconds, while the
  first request of a worker started with the default settings lets the gateway wait longer.
\<close>

theorem default_long_poll_outlasts_channel:
  assumes "build_channel tr uris None = Ok ch" "ep \<in> set (channel_endpoints ch)"
    and "worker_run channel_ok
      (with_handler h (with_job_type ''payment-service'' (client_job_worker c))) = Ok sw"
    and "on_message (sw_poller sw) FetchJobs = Some (p, Some r)"
  shows "\<exists>t. ep_timeout ep = Some t \<and> int (as_millis t) < sint (ajr_request_timeout r) \<and>
    t < jp_request_timeout (sw_poller sw)"
proof -
  have ep: "ep_timeout ep = Some (from_secs 15)"
    using assms(1,2) by (auto simp: build_channel_eq_Ok_iff dest!: build_endpoint_timeout)
  have "channel_ok 32"
    using assms(3) by (simp add: worker_run_eq_Ok_iff POLL_QUEUE_CAPACITY_def)
  then have "sw_poller sw = example_poller"
    using default_worker_run [of channel_ok h c] assms(3) by (metis outcome.inject(1))
  then have "r = example_request" "jp_request_timeout (sw_poller sw) = from_secs 20"
    using assms(4) example_request_sent by (simp_all add: example_poller_def)
  then show ?thesis
    using ep by (simp add: example_request_def) (simp add: from_secs_def)
qed

theorem default_long_poll_outlasts_channel_witness:
  "15000 < sint (ajr_request_timeout example_request)"
proof -
  obtain sw where sw: "worker_run example_channel_ok example_builder = Ok sw"
      "sw_poller sw = example_poller"
    by (rule example_started)
  have ch: "build_channel example_transport [''http://127.0.0.1:26500''] None = Ok example_channel"
    using example_build_channel
    by (simp add: example_client_config_def client_config_default_def client_config_with_endpoints_def
        DEFAULT_ADDRESS_HOST_def DEFAULT_ADDRESS_PORT_def)
  obtain ep where ep: "ep \<in> set (channel_endpoints example_channel)" "ep_timeout ep = Some (from_secs 15)"
    by (auto simp: example_channel_def)
  from default_long_poll_outlasts_channel [OF ch ep(1) sw(1) [unfolded example_builder_def]
      example_request_sent [folded sw(2)]] ep(2)
  show ?thesis by simp
qed

end
